(* ===== verification/Prelude.thy ===== *)
theory Prelude
  imports Main "HOL-Library.Word" "HOL-Library.Multiset"
begin

text \<open>
  What every component shares: the collections of the development, the names of the
  machine types of the Go sources, and the generic lemmas on lists and sorting that the
  component proofs use.

  \<^item> \<open>frame\<close> collects the facts that say which part of the state an operation keeps;
  \<^item> \<open>stmt_simps\<close> collects the equations that evaluate a statement of the store.
\<close>

named_theorems frame \<open>which part of the state an operation keeps\<close>
named_theorems stmt_simps \<open>evaluation of store statements\<close>

section \<open>Names of the machine types\<close>

text \<open>
  Identifiers (\<open>uint64\<close>) are only compared, never computed with, so they are \<open>nat\<close>; the
  parser of the query parameters enforces the 64-bit bound. \<open>int8\<close> keeps its width
  because the worker converts an \<open>int\<close> to it. Instants and durations are counted in
  nanoseconds.
\<close>

type_synonym uint64 = nat
type_synonym int64 = int
type_synonym int8 = "8 word"
type_synonym instant = int
type_synonym duration = int

text \<open>The units of the package \<open>time\<close>.\<close>

definition Second :: duration where [simp]: "Second = 1000000000"
definition Minute :: duration where [simp]: "Minute = 60 * Second"
definition Hour :: duration where [simp]: "Hour = 60 * Minute"

section \<open>Ascending order on a key\<close>

lemma sort_key_filter_set [simp]: "set (sort_key k (filter P xs)) = {x \<in> set xs. P x}"
  by auto

lemma sorted_map_take: "sorted (map k xs) \<Longrightarrow> sorted (map k (take n xs))"
  by (simp add: sorted_wrt_take flip: take_map)

lemma sort_key_single [simp]: "sort_key k [x] = [x]"
  by simp

lemma take_sort_key_subset: "set (take n (sort_key k xs)) \<subseteq> set xs"
  using set_take_subset by fastforce

lemma distinct_map_filterI: "distinct (map k xs) \<Longrightarrow> distinct (map k (filter P xs))"
  by (rule distinct_map_filter)

lemma filter_key_unique:
  assumes "distinct (map k xs)" and "x \<in> set xs" and "k x = i"
  shows "filter (\<lambda>y. k y = i) xs = [x]"
  using assms
proof (induction xs)
  case Nil
  then show ?case by simp
next
  case (Cons y ys)
  show ?case
  proof (cases "k y = i")
    case True
    with Cons.prems have none: "\<forall>z \<in> set ys. k z \<noteq> i" by (auto simp: image_iff)
    with Cons.prems have "y = x" by auto
    with True show ?thesis using none by (simp add: filter_empty_conv)
  next
    case False
    with Cons show ?thesis by auto
  qed
qed

text \<open>An update that keeps the key keeps every fact about the keys of a table.\<close>

lemma map_key_update:
  assumes "\<And>x. x \<in> set xs \<Longrightarrow> k (f x) = k x"
  shows "map k (map (\<lambda>x. if P x then f x else x) xs) = map k xs"
  using assms by simp

lemma length_filter_pos_iff: "0 < length (filter P xs) \<longleftrightarrow> (\<exists>x \<in> set xs. P x)"
  by (simp add: filter_empty_conv)

lemma length_filter_zero_iff: "length (filter P xs) = 0 \<longleftrightarrow> (\<forall>x \<in> set xs. \<not> P x)"
  by (simp add: filter_empty_conv)

lemma mem_ids_iff:
  assumes "distinct (map k xs)" and "set ys \<subseteq> set xs" and "x \<in> set xs"
  shows "k x \<in> set (map k ys) \<longleftrightarrow> x \<in> set ys"
  using assms by (auto simp: distinct_map dest: inj_onD)

lemma length_take_sorted: "length (take n (sort_key k1 (sort_key k2 xs))) = min n (length xs)"
  by (simp add: min.commute)

lemma length_filter_mem:
  assumes "distinct xs" and "distinct ys" and "set ys \<subseteq> set xs"
  shows "length (filter (\<lambda>x. x \<in> set ys) xs) = length ys"
proof -
  have "set (filter (\<lambda>x. x \<in> set ys) xs) = set ys" using assms(3) by auto
  then show ?thesis using assms(1,2) by (metis distinct_card distinct_filter)
qed

end
