(* ===== verification/GoStd.thy ===== *)
theory GoStd
  imports Prelude "HOL-Library.List_Lexorder" "HOL-Library.Char_ord"
begin

text \<open>
  The part of the Go language and its standard library that the sources use: UTF-8 byte
  strings (\<open>strings\<close>, \<open>unicode/utf8\<close>), decimal conversions (\<open>strconv\<close>) and calendar
  formatting (\<open>time\<close>). A Go string is a \<open>string\<close> whose characters are its bytes.

  The Unicode case tables are data of the Go distribution, not code: the two mappings for
  runes beyond ASCII are the fields of a record \<open>unicode_tables\<close> that the functions take
  as an argument. On ASCII they are written out.
\<close>

section \<open>Bytes and prefixes\<close>

definition byte :: "char \<Rightarrow> nat" where
  "byte c = of_char c"

definition chr :: "nat \<Rightarrow> char" where
  "chr n = char_of n"

lemma byte_less [simp]: "byte c < 256"
  by (cases c) (simp add: byte_def)

lemma chr_byte [simp]: "chr (byte c) = c"
  by (simp add: chr_def byte_def)

lemma byte_chr [simp]: "n < 256 \<Longrightarrow> byte (chr n) = n"
  by (simp add: chr_def byte_def)

lemma byte_inject [simp]: "byte c = byte d \<longleftrightarrow> c = d"
  by (metis chr_byte)

fun has_prefix :: "string \<Rightarrow> string \<Rightarrow> bool" where
  "has_prefix [] s = True"
| "has_prefix (c # p) [] = False"
| "has_prefix (c # p) (d # s) = (c = d \<and> has_prefix p s)"

lemma has_prefix_iff: "has_prefix p s \<longleftrightarrow> (\<exists>t. s = p @ t)"
  by (induction p s rule: has_prefix.induct) auto

lemma has_prefix_append [simp]: "has_prefix p (p @ t)"
  by (simp add: has_prefix_iff)

lemma has_prefix_length: "has_prefix p s \<Longrightarrow> length p \<le> length s"
  by (auto simp: has_prefix_iff)

lemma has_prefix_take: "has_prefix p s \<Longrightarrow> take (length p) s = p"
  by (auto simp: has_prefix_iff)

text \<open>\<open>strings.Index\<close>: the first position at which the substring occurs.\<close>

fun str_index :: "string \<Rightarrow> string \<Rightarrow> nat option" where
  "str_index s sub =
     (if has_prefix sub s then Some 0
      else (case s of [] \<Rightarrow> None | _ # t \<Rightarrow> map_option Suc (str_index t sub)))"

declare str_index.simps [simp del]

definition str_contains :: "string \<Rightarrow> string \<Rightarrow> bool" where
  "str_contains s sub = (str_index s sub \<noteq> None)"

lemma str_index_Some:
  "str_index s sub = Some i \<Longrightarrow>
     i \<le> length s \<and> has_prefix sub (drop i s) \<and> (\<forall>j < i. \<not> has_prefix sub (drop j s))"
proof (induction s sub arbitrary: i rule: str_index.induct)
  case (1 s sub)
  show ?case
  proof (cases "has_prefix sub s")
    case True
    with "1.prems" show ?thesis by (simp add: str_index.simps [of s sub])
  next
    case False
    then obtain c t where s: "s = c # t"
      using "1.prems" by (auto simp: str_index.simps [of s sub] split: list.splits)
    with False "1.prems" obtain k where k: "str_index t sub = Some k" "i = Suc k"
      by (auto simp: str_index.simps [of "c # t" sub])
    with "1.IH" [OF False s, of k] False s show ?thesis
      by (auto simp: less_Suc_eq_0_disj)
  qed
qed

lemma str_index_None: "str_index s sub = None \<Longrightarrow> \<not> has_prefix sub (drop i s) \<or> length s < i"
proof (induction s sub arbitrary: i rule: str_index.induct)
  case (1 s sub)
  then have np: "\<not> has_prefix sub s"
    by (auto simp: str_index.simps [of s sub] split: if_splits)
  show ?case
  proof (cases s)
    case Nil
    with np show ?thesis by simp
  next
    case (Cons c t)
    with np "1.prems" have "str_index t sub = None"
      by (simp add: str_index.simps [of "c # t" sub])
    with "1.IH" [OF np Cons, of "i - 1"] np Cons show ?thesis
      by (cases i) auto
  qed
qed

lemma str_index_bound: "str_index s sub = Some i \<Longrightarrow> i + length sub \<le> length s"
  by (drule str_index_Some) (use has_prefix_length in fastforce)

section \<open>strings.TrimSpace\<close>

text \<open>The UTF-8 encodings of the runes with the Unicode property White Space.\<close>

definition white_runes :: "string list" where
  "white_runes =
     [[CHR 0x09], [CHR 0x0A], [CHR 0x0B], [CHR 0x0C], [CHR 0x0D], [CHR 0x20],
      [CHR 0xC2, CHR 0x85], [CHR 0xC2, CHR 0xA0], [CHR 0xE1, CHR 0x9A, CHR 0x80],
      [CHR 0xE2, CHR 0x80, CHR 0x80], [CHR 0xE2, CHR 0x80, CHR 0x81],
      [CHR 0xE2, CHR 0x80, CHR 0x82], [CHR 0xE2, CHR 0x80, CHR 0x83],
      [CHR 0xE2, CHR 0x80, CHR 0x84], [CHR 0xE2, CHR 0x80, CHR 0x85],
      [CHR 0xE2, CHR 0x80, CHR 0x86], [CHR 0xE2, CHR 0x80, CHR 0x87],
      [CHR 0xE2, CHR 0x80, CHR 0x88], [CHR 0xE2, CHR 0x80, CHR 0x89],
      [CHR 0xE2, CHR 0x80, CHR 0x8A], [CHR 0xE2, CHR 0x80, CHR 0xA8],
      [CHR 0xE2, CHR 0x80, CHR 0xA9], [CHR 0xE2, CHR 0x80, CHR 0xAF],
      [CHR 0xE2, CHR 0x81, CHR 0x9F], [CHR 0xE3, CHR 0x80, CHR 0x80]]"

definition white_rev :: "string list" where
  "white_rev = map rev white_runes"

text \<open>The length of the white rune at the front of \<open>s\<close>, 0 if there is none.\<close>

definition lead_white :: "string list \<Rightarrow> string \<Rightarrow> nat" where
  "lead_white ws s = (case filter (\<lambda>w. has_prefix w s) ws of [] \<Rightarrow> 0 | w # _ \<Rightarrow> length w)"

lemma lead_white_le: "lead_white ws s \<le> length s"
proof (cases "filter (\<lambda>w. has_prefix w s) ws")
  case Nil
  then show ?thesis by (simp add: lead_white_def)
next
  case (Cons w l)
  then have "w \<in> set (filter (\<lambda>w. has_prefix w s) ws)" by simp
  then have "has_prefix w s" by simp
  with Cons show ?thesis by (simp add: lead_white_def has_prefix_length)
qed

function trim_front :: "string list \<Rightarrow> string \<Rightarrow> string" where
  "trim_front ws s =
     (if lead_white ws s = 0 then s else trim_front ws (drop (lead_white ws s) s))"
  by pat_completeness auto
termination
proof (relation "measure (length \<circ> snd)")
  fix ws s
  assume "lead_white ws s \<noteq> 0"
  with lead_white_le [of ws s]
  show "((ws, drop (lead_white ws s) s), ws, s) \<in> measure (length \<circ> snd)" by auto
qed simp

declare trim_front.simps [simp del]

definition TrimSpace :: "string \<Rightarrow> string" where
  "TrimSpace s = rev (trim_front white_rev (rev (trim_front white_runes s)))"

lemma trim_front_id: "lead_white ws s = 0 \<Longrightarrow> trim_front ws s = s"
  by (simp add: trim_front.simps)

lemma lead_white_trim_front: "lead_white ws (trim_front ws s) = 0"
proof (induction ws s rule: trim_front.induct)
  case (1 ws s)
  then show ?case
    by (cases "lead_white ws s = 0") (simp_all add: trim_front.simps [of ws s])
qed

lemma trim_front_suffix: "\<exists>p. s = p @ trim_front ws s"
proof (induction ws s rule: trim_front.induct)
  case (1 ws s)
  show ?case
  proof (cases "lead_white ws s = 0")
    case True
    then show ?thesis by (simp add: trim_front.simps [of ws s])
  next
    case False
    with 1 obtain p where "drop (lead_white ws s) s = p @ trim_front ws (drop (lead_white ws s) s)"
      by blast
    with False show ?thesis
      by (metis append.assoc append_take_drop_id trim_front.simps)
  qed
qed

lemma length_trim_front: "length (trim_front ws s) \<le> length s"
  using trim_front_suffix [of s ws] by (metis le_add2 length_append)

lemma TrimSpace_substring: "\<exists>p q. s = p @ TrimSpace s @ q"
proof -
  obtain p where p: "s = p @ trim_front white_runes s"
    using trim_front_suffix by blast
  obtain q where "rev (trim_front white_runes s) = q @ trim_front white_rev (rev (trim_front white_runes s))"
    using trim_front_suffix by blast
  then have "trim_front white_runes s = TrimSpace s @ rev q"
    by (metis TrimSpace_def rev_append rev_rev_ident)
  with p show ?thesis by metis
qed

lemma length_TrimSpace: "length (TrimSpace s) \<le> length s"
  by (metis TrimSpace_substring le_add1 le_add2 le_trans length_append)

lemma TrimSpace_Nil [simp]: "TrimSpace [] = []"
  using length_TrimSpace [of "[]"] by simp

text \<open>A string that starts and ends with a graphic ASCII byte is its own trimming.\<close>

definition graphic :: "char \<Rightarrow> bool" where
  "graphic c = (32 < byte c \<and> byte c < 127)"

lemma lead_white_graphic:
  assumes "graphic (hd s)" and "s \<noteq> []" and "\<forall>w \<in> set ws. w \<noteq> [] \<and> \<not> graphic (hd w)"
  shows "lead_white ws s = 0"
proof -
  have "\<not> has_prefix w s" if "w \<in> set ws" for w
    using assms that by (cases w; cases s) auto
  then have "filter (\<lambda>w. has_prefix w s) ws = []" by (simp add: filter_empty_conv)
  then show ?thesis by (simp add: lead_white_def)
qed

lemma white_runes_not_graphic: "\<forall>w \<in> set white_runes. w \<noteq> [] \<and> \<not> graphic (hd w)"
  by (simp add: white_runes_def graphic_def byte_def)

lemma white_rev_not_graphic: "\<forall>w \<in> set white_rev. w \<noteq> [] \<and> \<not> graphic (hd w)"
  by (simp add: white_rev_def white_runes_def graphic_def byte_def)

lemma TrimSpace_graphic:
  assumes "s \<noteq> []" and "graphic (hd s)" and "graphic (last s)"
  shows "TrimSpace s = s"
proof -
  have "trim_front white_runes s = s"
    using assms white_runes_not_graphic by (simp add: trim_front_id lead_white_graphic)
  moreover have "trim_front white_rev (rev s) = rev s"
    using assms white_rev_not_graphic by (simp add: trim_front_id lead_white_graphic hd_rev)
  ultimately show ?thesis by (simp add: TrimSpace_def)
qed

lemma lead_white_0_iff:
  assumes "[] \<notin> set ws"
  shows "lead_white ws s = 0 \<longleftrightarrow> (\<forall>w \<in> set ws. \<not> has_prefix w s)"
proof
  assume zero: "lead_white ws s = 0"
  show "\<forall>w \<in> set ws. \<not> has_prefix w s"
  proof (rule ccontr)
    assume "\<not> (\<forall>w \<in> set ws. \<not> has_prefix w s)"
    then have "filter (\<lambda>w. has_prefix w s) ws \<noteq> []" by (simp add: filter_empty_conv)
    then obtain w l where eq: "filter (\<lambda>w. has_prefix w s) ws = w # l" by (cases "filter (\<lambda>w. has_prefix w s) ws") auto
    then have "w \<in> set ws" by (metis filter_is_subset list.set_intros(1) subsetD)
    with eq zero assms show False by (auto simp: lead_white_def)
  qed
next
  assume "\<forall>w \<in> set ws. \<not> has_prefix w s"
  then have "filter (\<lambda>w. has_prefix w s) ws = []" by (simp add: filter_empty_conv)
  then show "lead_white ws s = 0" by (simp add: lead_white_def)
qed

lemma TrimSpace_idem [simp]: "TrimSpace (TrimSpace s) = TrimSpace s"
proof -
  let ?t = "trim_front white_runes s"
  obtain q where "rev ?t = q @ trim_front white_rev (rev ?t)"
    using trim_front_suffix by blast
  then have t: "?t = TrimSpace s @ rev q"
    by (metis TrimSpace_def rev_append rev_rev_ident)
  have ne: "[] \<notin> set white_runes" by (simp add: white_runes_def)
  have "\<forall>w \<in> set white_runes. \<not> has_prefix w ?t"
    using lead_white_trim_front lead_white_0_iff [OF ne] by blast
  then have "lead_white white_runes (TrimSpace s) = 0"
    using t by (subst lead_white_0_iff [OF ne]) (metis append.assoc has_prefix_iff)
  moreover have "lead_white white_rev (rev (TrimSpace s)) = 0"
    by (simp add: TrimSpace_def lead_white_trim_front)
  ultimately show ?thesis
    unfolding TrimSpace_def [of "TrimSpace s"] by (simp add: trim_front_id)
qed

section \<open>unicode/utf8\<close>

text \<open>
  \<open>DecodeRune\<close> returns the first rune of a string and its width; an invalid byte is the
  replacement rune with width 1. The admissible second bytes depend on the first one
  (no overlong forms, no surrogates, nothing beyond U+10FFFF).
\<close>

definition RuneError :: nat where
  "RuneError = 65533"

definition cont :: "char \<Rightarrow> bool" where
  "cont c = (128 \<le> byte c \<and> byte c \<le> 191)"

definition second_lo :: "nat \<Rightarrow> nat" where
  "second_lo b = (if b = 224 then 160 else if b = 240 then 144 else 128)"

definition second_hi :: "nat \<Rightarrow> nat" where
  "second_hi b = (if b = 237 then 159 else if b = 244 then 143 else 191)"

definition second_ok :: "nat \<Rightarrow> char \<Rightarrow> bool" where
  "second_ok b c = (second_lo b \<le> byte c \<and> byte c \<le> second_hi b)"

definition low6 :: "char \<Rightarrow> nat" where
  "low6 c = byte c - 128"

fun DecodeRune :: "string \<Rightarrow> nat \<times> nat" where
  "DecodeRune [] = (RuneError, 0)"
| "DecodeRune (c # cs) =
     (let b = byte c in
      if b < 128 then (b, 1)
      else if 194 \<le> b \<and> b \<le> 223 then
        (case cs of
           d # _ \<Rightarrow> if cont d then ((b - 192) * 64 + low6 d, 2) else (RuneError, 1)
         | _ \<Rightarrow> (RuneError, 1))
      else if 224 \<le> b \<and> b \<le> 239 then
        (case cs of
           d # e # _ \<Rightarrow> if second_ok b d \<and> cont e
             then ((b - 224) * 4096 + low6 d * 64 + low6 e, 3) else (RuneError, 1)
         | _ \<Rightarrow> (RuneError, 1))
      else if 240 \<le> b \<and> b \<le> 244 then
        (case cs of
           d # e # f # _ \<Rightarrow> if second_ok b d \<and> cont e \<and> cont f
             then ((b - 240) * 262144 + low6 d * 4096 + low6 e * 64 + low6 f, 4)
             else (RuneError, 1)
         | _ \<Rightarrow> (RuneError, 1))
      else (RuneError, 1))"

definition EncodeRune :: "nat \<Rightarrow> string" where
  "EncodeRune r =
     (if r < 128 then [chr r]
      else if r < 2048 then [chr (192 + r div 64), chr (128 + r mod 64)]
      else if r > 1114111 \<or> (55296 \<le> r \<and> r \<le> 57343) then
        [chr 239, chr 191, chr 189]
      else if r < 65536 then
        [chr (224 + r div 4096), chr (128 + r div 64 mod 64), chr (128 + r mod 64)]
      else
        [chr (240 + r div 262144), chr (128 + r div 4096 mod 64),
         chr (128 + r div 64 mod 64), chr (128 + r mod 64)])"

lemma DecodeRune_width: "s \<noteq> [] \<Longrightarrow> 1 \<le> snd (DecodeRune s) \<and> snd (DecodeRune s) \<le> length s"
  by (cases s) (auto simp: Let_def split: list.splits if_splits)

text \<open>The runes of a string, as a \<open>for range\<close> loop delivers them.\<close>

function runes :: "string \<Rightarrow> nat list" where
  "runes [] = []"
| "runes (c # cs) =
     (let (r, n) = DecodeRune (c # cs) in r # runes (drop n (c # cs)))"
  by pat_completeness auto
termination
proof (relation "measure length")
  fix c cs x r n
  assume "x = DecodeRune (c # cs)" and "(r, n) = x"
  with DecodeRune_width [of "c # cs"] show "(drop n (c # cs), c # cs) \<in> measure length"
    by (metis (no_types, lifting) diff_less in_measure length_drop length_greater_0_conv
        less_le_trans list.discI snd_conv zero_less_one)
qed simp

declare runes.simps(2) [simp del]

definition ascii :: "char \<Rightarrow> bool" where
  "ascii c = (byte c < 128)"

lemma runes_ascii: "list_all ascii s \<Longrightarrow> runes s = map byte s"
  by (induction s) (simp_all add: runes.simps(2) ascii_def)

section \<open>strings.ToLower and strings.EqualFold\<close>

text \<open>
  The tables of the package \<open>unicode\<close> the code depends on: lower case and case folding of the runes
  beyond ASCII, and \<open>strconv.Quote\<close> (the verb \<open>%q\<close>), whose escapes depend on the table of printable
  runes; its text is only ever part of an error text.
\<close>

record unicode_tables =
  ut_lower :: "nat \<Rightarrow> nat"
  ut_fold :: "nat \<Rightarrow> nat"
  ut_quote :: "string \<Rightarrow> string"

definition lower_byte :: "char \<Rightarrow> char" where
  "lower_byte c = (if 65 \<le> byte c \<and> byte c \<le> 90 then chr (byte c + 32) else c)"

definition ascii_lower :: "nat \<Rightarrow> nat" where
  "ascii_lower r = (if 65 \<le> r \<and> r \<le> 90 then r + 32 else r)"

definition unicode_ToLower :: "unicode_tables \<Rightarrow> nat \<Rightarrow> nat" where
  "unicode_ToLower ut r = (if r < 128 then ascii_lower r else ut_lower ut r)"

definition ToLower :: "unicode_tables \<Rightarrow> string \<Rightarrow> string" where
  "ToLower ut s =
     (if list_all ascii s then map lower_byte s
      else concat (map (\<lambda>r. EncodeRune (unicode_ToLower ut r)) (runes s)))"

text \<open>\<open>ut_fold\<close> picks one rune of each orbit of \<open>unicode.SimpleFold\<close>.\<close>

definition rune_fold :: "unicode_tables \<Rightarrow> nat \<Rightarrow> nat" where
  "rune_fold ut r = (if r < 128 then ascii_lower r else ut_fold ut r)"

definition EqualFold :: "unicode_tables \<Rightarrow> string \<Rightarrow> string \<Rightarrow> bool" where
  "EqualFold ut s t = (map (rune_fold ut) (runes s) = map (rune_fold ut) (runes t))"

text \<open>Tables that know no rune beyond ASCII; used in concrete examples.\<close>

definition ascii_tables :: unicode_tables where
  "ascii_tables = \<lparr>ut_lower = id, ut_fold = id, ut_quote = (\<lambda>s. CHR 0x22 # s @ [CHR 0x22])\<rparr>"

lemma ToLower_ascii: "list_all ascii s \<Longrightarrow> ToLower ut s = map lower_byte s"
  by (simp add: ToLower_def)

lemma length_ToLower_ascii: "list_all ascii s \<Longrightarrow> length (ToLower ut s) = length s"
  by (simp add: ToLower_def)

lemma EqualFold_refl [simp]: "EqualFold ut s s"
  by (simp add: EqualFold_def)

lemma EqualFold_sym: "EqualFold ut s t \<Longrightarrow> EqualFold ut t s"
  by (simp add: EqualFold_def)

lemma EqualFold_ascii:
  assumes "list_all ascii s" and "list_all ascii t"
  shows "EqualFold ut s t = (map lower_byte s = map lower_byte t)"
proof -
  have fold: "map (rune_fold ut) (runes x) = map (byte \<circ> lower_byte) x" if "list_all ascii x" for x
    using that by (auto simp: runes_ascii rune_fold_def ascii_lower_def lower_byte_def list_all_iff ascii_def)
  have "inj byte" by (simp add: byte_def inj_def)
  then have "(map byte xs = map byte ys) = (xs = ys)" for xs ys by (rule inj_map_eq_map)
  with assms show ?thesis by (simp add: EqualFold_def fold flip: map_map)
qed

end
