(* ===== verification/GoConv.thy ===== *)
theory GoConv
  imports GoStd
begin

text \<open>
  Decimal conversions (\<open>strconv\<close>) and calendar formatting (\<open>time\<close>) of the Go standard
  library, as far as the sources use them, with the round trips between printing and
  parsing. A failed conversion is \<open>None\<close>: every caller only tests for failure.
\<close>

section \<open>Decimal numerals\<close>

definition digit :: "nat \<Rightarrow> char" where
  "digit n = chr (48 + n)"

definition is_digit :: "char \<Rightarrow> bool" where
  "is_digit c = (48 \<le> byte c \<and> byte c \<le> 57)"

definition digit_val :: "char \<Rightarrow> nat" where
  "digit_val c = byte c - 48"

fun nat_str :: "nat \<Rightarrow> string" where
  "nat_str n = (if n < 10 then [digit n] else nat_str (n div 10) @ [digit (n mod 10)])"

declare nat_str.simps [simp del]

definition digits_val :: "string \<Rightarrow> nat" where
  "digits_val s = foldl (\<lambda>n c. 10 * n + digit_val c) 0 s"

definition parse_nat :: "string \<Rightarrow> nat option" where
  "parse_nat s = (if s \<noteq> [] \<and> list_all is_digit s then Some (digits_val s) else None)"

definition Itoa :: "int \<Rightarrow> string" where
  "Itoa i = (if i < 0 then CHR ''-'' # nat_str (nat (- i)) else nat_str (nat i))"

text \<open>\<open>strconv.ParseUint(s, 10, 64)\<close>, \<open>strconv.Atoi\<close>, \<open>strconv.ParseInt(s, 10, 8)\<close>, \<open>strconv.ParseBool\<close>.\<close>

definition ParseUint64 :: "string \<Rightarrow> uint64 option" where
  "ParseUint64 s =
     (case parse_nat s of None \<Rightarrow> None | Some n \<Rightarrow> if n < 2 ^ 64 then Some n else None)"

fun signed_val :: "string \<Rightarrow> int option" where
  "signed_val [] = None"
| "signed_val (c # cs) =
     (if c = CHR ''-'' then map_option (\<lambda>n. - int n) (parse_nat cs)
      else if c = CHR ''+'' then map_option int (parse_nat cs)
      else map_option int (parse_nat (c # cs)))"

definition Atoi :: "string \<Rightarrow> int option" where
  "Atoi s = (case signed_val s of None \<Rightarrow> None
             | Some i \<Rightarrow> if - (2 ^ 63) \<le> i \<and> i < 2 ^ 63 then Some i else None)"

definition ParseInt8 :: "string \<Rightarrow> int8 option" where
  "ParseInt8 s = (case signed_val s of None \<Rightarrow> None
                  | Some i \<Rightarrow> if - 128 \<le> i \<and> i < 128 then Some (word_of_int i) else None)"

definition ParseBool :: "string \<Rightarrow> bool option" where
  "ParseBool s =
     (if s \<in> set [''1'', ''t'', ''T'', ''TRUE'', ''true'', ''True''] then Some True
      else if s \<in> set [''0'', ''f'', ''F'', ''FALSE'', ''false'', ''False''] then Some False
      else None)"

lemma byte_digit: "n < 10 \<Longrightarrow> byte (digit n) = 48 + n"
  by (simp add: digit_def)

lemma digit_val_digit [simp]: "n < 10 \<Longrightarrow> digit_val (digit n) = n"
  by (simp add: digit_val_def byte_digit)

lemma is_digit_digit [simp]: "n < 10 \<Longrightarrow> is_digit (digit n)"
  by (simp add: is_digit_def byte_digit)

lemma nat_str_nonempty [simp]: "nat_str n \<noteq> []"
  by (subst nat_str.simps) simp

lemma nat_str_digits: "list_all is_digit (nat_str n)"
proof (induction n rule: nat_str.induct)
  case (1 n)
  then show ?case by (subst nat_str.simps) simp
qed

lemma digits_val_snoc: "digits_val (s @ [c]) = 10 * digits_val s + digit_val c"
  by (simp add: digits_val_def)

lemma digits_val_nat_str [simp]: "digits_val (nat_str n) = n"
proof (induction n rule: nat_str.induct)
  case (1 n)
  show ?case
  proof (cases "n < 10")
    case True
    then show ?thesis by (simp add: nat_str.simps [of n] digits_val_def)
  next
    case False
    with 1 show ?thesis by (simp add: nat_str.simps [of n] digits_val_snoc)
  qed
qed

lemma parse_nat_str [simp]: "parse_nat (nat_str n) = Some n"
  by (simp add: parse_nat_def nat_str_digits)

lemma ParseUint64_nat_str: "n < 2 ^ 64 \<Longrightarrow> ParseUint64 (nat_str n) = Some n"
  by (simp add: ParseUint64_def)

lemma ParseUint64_bound: "ParseUint64 s = Some n \<Longrightarrow> n < 2 ^ 64"
  by (auto simp: ParseUint64_def split: option.splits if_splits)

lemma digit_not_sign: "is_digit c \<Longrightarrow> c \<noteq> CHR ''-'' \<and> c \<noteq> CHR ''+''"
  by (auto simp: is_digit_def byte_def)

lemma signed_val_Itoa [simp]: "signed_val (Itoa i) = Some i"
proof (cases "i < 0")
  case True
  then show ?thesis by (simp add: Itoa_def)
next
  case False
  obtain c cs where s: "nat_str (nat i) = c # cs" by (cases "nat_str (nat i)") auto
  then have "is_digit c" using nat_str_digits [of "nat i"] by simp
  then have "signed_val (c # cs) = map_option int (parse_nat (c # cs))"
    by (simp add: digit_not_sign)
  with False s show ?thesis by (simp add: Itoa_def flip: s)
qed

lemma Atoi_Itoa: "- (2 ^ 63) \<le> i \<Longrightarrow> i < 2 ^ 63 \<Longrightarrow> Atoi (Itoa i) = Some i"
  by (simp add: Atoi_def)

lemma digit_graphic: "is_digit c \<Longrightarrow> graphic c"
  by (auto simp: is_digit_def graphic_def)

lemma nat_str_graphic: "graphic (hd (nat_str n)) \<and> graphic (last (nat_str n))"
  using nat_str_digits [of n] by (metis digit_graphic hd_in_set last_in_set list_all_iff nat_str_nonempty)

lemma Itoa_nonempty [simp]: "Itoa i \<noteq> []"
  by (simp add: Itoa_def)

lemma TrimSpace_Itoa [simp]: "TrimSpace (Itoa i) = Itoa i"
proof (rule TrimSpace_graphic)
  show "graphic (hd (Itoa i))"
    using nat_str_graphic [of "nat i"] by (simp add: Itoa_def graphic_def byte_def)
  show "graphic (last (Itoa i))"
    using nat_str_graphic [of "nat i"] nat_str_graphic [of "nat (- i)"] by (simp add: Itoa_def)
qed simp

section \<open>Calendar\<close>

text \<open>
  A \<open>time.Time\<close> read from a request carries an instant and the offset of its zone in
  seconds. \<open>civil\<close> gives year, month and day of a day number counted from 1970-01-01 in the
  proleptic Gregorian calendar.
\<close>

record gotime =
  t_instant :: instant
  t_offset :: int

definition civil :: "int \<Rightarrow> int \<times> int \<times> int" where
  "civil days =
     (let z = days + 719468;
          era = z div 146097;
          doe = z mod 146097;
          yoe = (doe - doe div 1460 + doe div 36524 - doe div 146096) div 365;
          doy = doe - (365 * yoe + yoe div 4 - yoe div 100);
          mp = (5 * doy + 2) div 153;
          d = doy - (153 * mp + 2) div 5 + 1;
          m = (if mp < 10 then mp + 3 else mp - 9)
      in (yoe + era * 400 + (if m \<le> 2 then 1 else 0), m, d))"

definition pad :: "nat \<Rightarrow> int \<Rightarrow> string" where
  "pad w i = (let s = nat_str (nat i) in replicate (w - length s) (CHR ''0'') @ s)"

record clock_fields =
  cf_year :: int
  cf_month :: int
  cf_day :: int
  cf_hour :: int
  cf_min :: int
  cf_sec :: int
  cf_nano :: int

definition clock_of :: "int \<Rightarrow> int \<Rightarrow> clock_fields" where
  "clock_of ns off =
     (let s = ns div 1000000000 + off; r = s mod 86400; (y, m, d) = civil (s div 86400)
      in \<lparr>cf_year = y, cf_month = m, cf_day = d, cf_hour = r div 3600,
          cf_min = r div 60 mod 60, cf_sec = r mod 60, cf_nano = ns mod 1000000000\<rparr>)"

text \<open>\<open>now.Format("20060102150405.000000000")\<close> on a UTC time.\<close>

definition format_number :: "instant \<Rightarrow> string" where
  "format_number ns =
     (let c = clock_of ns 0 in
      pad 4 (cf_year c) @ pad 2 (cf_month c) @ pad 2 (cf_day c) @ pad 2 (cf_hour c) @
      pad 2 (cf_min c) @ pad 2 (cf_sec c) @ ''.'' @ pad 9 (cf_nano c))"

text \<open>
  \<open>Time.MarshalJSON\<close>: RFC 3339 with the fraction's trailing zeros removed; an error
  (\<open>None\<close>) for a year outside 0..9999 or a zone offset of a day or more.
\<close>

fun drop_zeros :: "string \<Rightarrow> string" where
  "drop_zeros [] = []"
| "drop_zeros (c # cs) = (if c = CHR ''0'' then drop_zeros cs else c # cs)"

definition frac_str :: "int \<Rightarrow> string" where
  "frac_str n = (if n = 0 then '''' else CHR ''.'' # rev (drop_zeros (rev (pad 9 n))))"

definition zone_str :: "int \<Rightarrow> string" where
  "zone_str off =
     (let z = (if off < 0 then - ((- off) div 60) else off div 60) in
      if z = 0 then ''Z''
      else (if z < 0 then ''-'' else ''+'') @ pad 2 (\<bar>z\<bar> div 60) @ '':'' @ pad 2 (\<bar>z\<bar> mod 60))"

definition format_rfc3339nano :: "gotime \<Rightarrow> string option" where
  "format_rfc3339nano t =
     (let c = clock_of (t_instant t) (t_offset t) in
      if cf_year c < 0 \<or> 9999 < cf_year c \<or> 86400 \<le> \<bar>t_offset t\<bar> then None
      else Some (pad 4 (cf_year c) @ ''-'' @ pad 2 (cf_month c) @ ''-'' @ pad 2 (cf_day c) @ ''T'' @
                 pad 2 (cf_hour c) @ '':'' @ pad 2 (cf_min c) @ '':'' @ pad 2 (cf_sec c) @
                 frac_str (cf_nano c) @ zone_str (t_offset t)))"

text \<open>
  \<open>time.Parse(time.RFC3339, s)\<close>. The hour may have one digit, a fraction of the second is accepted
  although the layout has none (digits after the ninth are dropped), a zone offset may go up to
  24 hours and 60 minutes, and nothing may follow the zone.
\<close>

fun getnum :: "bool \<Rightarrow> string \<Rightarrow> (int \<times> string) option" where
  "getnum fixed [] = None"
| "getnum fixed [c] =
     (if is_digit c \<and> \<not> fixed then Some (int (digit_val c), []) else None)"
| "getnum fixed (c # d # cs) =
     (if \<not> is_digit c then None
      else if is_digit d then Some (int (10 * digit_val c + digit_val d), cs)
      else if fixed then None else Some (int (digit_val c), d # cs))"

fun skip_char :: "char \<Rightarrow> string \<Rightarrow> string option" where
  "skip_char c [] = None"
| "skip_char c (d # ds) = (if c = d then Some ds else None)"

definition get_year :: "string \<Rightarrow> (int \<times> string) option" where
  "get_year s =
     (if length s < 4 \<or> \<not> list_all is_digit (take 4 s) then None
      else Some (int (digits_val (take 4 s)), drop 4 s))"

definition get_fraction :: "string \<Rightarrow> int \<times> string" where
  "get_fraction s =
     (case s of
        c # d # _ \<Rightarrow>
          if (c = CHR ''.'' \<or> c = CHR '','') \<and> is_digit d
          then (let ds = takeWhile is_digit (tl s); n = take 9 ds in
                (int (digits_val n) * 10 ^ (9 - length n), dropWhile is_digit (tl s)))
          else (0, s)
      | _ \<Rightarrow> (0, s))"

definition get_zone :: "string \<Rightarrow> (int \<times> string) option" where
  "get_zone s =
     (case s of
        [] \<Rightarrow> None
      | c # cs \<Rightarrow>
          if c = CHR ''Z'' then Some (0, cs)
          else if length s < 6 \<or> s ! 3 \<noteq> CHR '':'' then None
          else
            (case (getnum True (take 2 (drop 1 s)), getnum True (take 2 (drop 4 s))) of
               (Some (hr, _), Some (mm, _)) \<Rightarrow>
                 if hr > 24 \<or> mm > 60 then None
                 else if c = CHR ''+'' then Some ((hr * 60 + mm) * 60, drop 6 s)
                 else if c = CHR ''-'' then Some (- ((hr * 60 + mm) * 60), drop 6 s)
                 else None
             | _ \<Rightarrow> None))"

definition leap :: "int \<Rightarrow> bool" where
  "leap y = (y mod 4 = 0 \<and> (y mod 100 \<noteq> 0 \<or> y mod 400 = 0))"

definition days_in :: "int \<Rightarrow> int \<Rightarrow> int" where
  "days_in m y =
     (if m = 2 then (if leap y then 29 else 28) else if m \<in> {4, 6, 9, 11} then 30 else 31)"

definition days_of_date :: "int \<Rightarrow> int \<Rightarrow> int \<Rightarrow> int" where
  "days_of_date y m d =
     (let y1 = (if m \<le> 2 then y - 1 else y);
          era = y1 div 400;
          yoe = y1 mod 400;
          mp = (if m > 2 then m - 3 else m + 9);
          doy = (153 * mp + 2) div 5 + d - 1
      in era * 146097 + (yoe * 365 + yoe div 4 - yoe div 100 + doy) - 719468)"

definition parse_rfc3339 :: "string \<Rightarrow> gotime option" where
  "parse_rfc3339 s0 =
     Option.bind (get_year s0) (\<lambda>(y, s).
     Option.bind (skip_char (CHR ''-'') s) (\<lambda>s.
     Option.bind (getnum True s) (\<lambda>(mo, s).
     Option.bind (skip_char (CHR ''-'') s) (\<lambda>s.
     Option.bind (getnum True s) (\<lambda>(d, s).
     Option.bind (skip_char (CHR ''T'') s) (\<lambda>s.
     Option.bind (getnum False s) (\<lambda>(h, s).
     Option.bind (skip_char (CHR '':'') s) (\<lambda>s.
     Option.bind (getnum True s) (\<lambda>(mi, s).
     Option.bind (skip_char (CHR '':'') s) (\<lambda>s.
     Option.bind (getnum True s) (\<lambda>(se, s).
     (case get_fraction s of (ns, s) \<Rightarrow>
     Option.bind (get_zone s) (\<lambda>(off, s).
       if s \<noteq> [] \<or> mo < 1 \<or> 12 < mo \<or> d < 1 \<or> days_in mo y < d \<or> 24 \<le> h \<or> 60 \<le> mi \<or> 60 \<le> se then None
       else Some \<lparr>t_instant = (days_of_date y mo d * 86400 + h * 3600 + mi * 60 + se - off) * 1000000000 + ns,
                  t_offset = off\<rparr>)))))))))))))"

lemma parse_rfc3339_example:
  "parse_rfc3339 ''2024-02-29T08:30:00.5+08:00'' =
     Some \<lparr>t_instant = 1709166600500000000, t_offset = 28800\<rparr>"
  by code_simp

lemma parse_rfc3339_rejects:
  "parse_rfc3339 ''2023-02-29T08:30:00Z'' = None" "parse_rfc3339 ''2024-01-01 00:00:00Z'' = None"
  by code_simp+

end
