(* ===== verification/Domain.thy ===== *)
theory Domain
  imports GoConv
begin

text \<open>
  The data model of the service (\<open>internal/modules/articleinspect/domain\<close>) and the error
  values of its packages. A row of a table is a record with the fields of the Go struct;
  \<open>*time.Time\<close> is an optional instant, \<open>sql.NullString\<close> an optional string, and the
  embedded \<open>InspectionTimestamps\<close> are the last two fields.
\<close>

section \<open>Error values\<close>

text \<open>
  The sentinel errors (\<open>var ErrX = errors.New(...)\<close>). Two packages declare an
  \<open>ErrInvalidTaskInput\<close>; they are different values of the same text.
\<close>

datatype sentinel =
    ErrUnauthorized | ErrForbidden | ErrActorDisabled
  | ErrInvalidActionInput
  | ErrInvalidTaskInput | ErrTaskNotFound | ErrTaskDeleteNotAllowed
  | OutboxErrInvalidTaskInput | ErrTaskOutboxDispatcherUnavailable
  | ErrInvalidLogQuery
  | ErrInvalidCategoryInput | ErrCategoryNotFound
  | ErrInvalidKeywordInput | ErrKeywordNotFound
  | ErrInvalidArticleQuery | ErrArticleNotFound
  | ErrInvalidResultQuery
  | ErrPostNotFound | ErrDuplicatePostSlug | ErrInvalidPostInput
  | ErrRecordNotFound

text \<open>
  An error is a sentinel, a value made by \<open>errors.New\<close> in place, an error of the JSON
  decoder on an input (its text is chosen by the standard library and never tested), an
  error wrapped by \<open>fmt.Errorf\<close> with a text before and after it, or several errors put together
  by \<open>errors.Join\<close>.
\<close>

datatype goerr =
    Sentinel sentinel
  | Plain string
  | JsonError string
  | Wrapf string goerr string
  | Joined "goerr list"

fun sentinel_text :: "sentinel \<Rightarrow> string" where
  "sentinel_text ErrUnauthorized = ''unauthorized''"
| "sentinel_text ErrForbidden = ''forbidden''"
| "sentinel_text ErrActorDisabled = ''actor disabled''"
| "sentinel_text ErrInvalidActionInput = ''invalid action input''"
| "sentinel_text ErrInvalidTaskInput = ''invalid task input''"
| "sentinel_text ErrTaskNotFound = ''task not found''"
| "sentinel_text ErrTaskDeleteNotAllowed = ''task delete not allowed''"
| "sentinel_text OutboxErrInvalidTaskInput = ''invalid task input''"
| "sentinel_text ErrTaskOutboxDispatcherUnavailable = ''task outbox dispatcher unavailable''"
| "sentinel_text ErrInvalidLogQuery = ''invalid log query''"
| "sentinel_text ErrInvalidCategoryInput = ''invalid category input''"
| "sentinel_text ErrCategoryNotFound = ''category not found''"
| "sentinel_text ErrInvalidKeywordInput = ''invalid keyword input''"
| "sentinel_text ErrKeywordNotFound = ''keyword not found''"
| "sentinel_text ErrInvalidArticleQuery = ''invalid article query''"
| "sentinel_text ErrArticleNotFound = ''article not found''"
| "sentinel_text ErrInvalidResultQuery = ''invalid result query''"
| "sentinel_text ErrPostNotFound = ''post not found''"
| "sentinel_text ErrDuplicatePostSlug = ''post slug already exists''"
| "sentinel_text ErrInvalidPostInput = ''invalid post input''"
| "sentinel_text ErrRecordNotFound = ''record not found''"

text \<open>\<open>strings.Join\<close>.\<close>

fun strings_Join :: "string \<Rightarrow> string list \<Rightarrow> string" where
  "strings_Join sep [] = []"
| "strings_Join sep [s] = s"
| "strings_Join sep (s # t # ss) = s @ sep @ strings_Join sep (t # ss)"

text \<open>\<open>err.Error()\<close>; the argument is the text of the JSON decoder's errors.\<close>

fun error_text :: "(string \<Rightarrow> string) \<Rightarrow> goerr \<Rightarrow> string" where
  "error_text jt (Sentinel e) = sentinel_text e"
| "error_text jt (Plain s) = s"
| "error_text jt (JsonError raw) = jt raw"
| "error_text jt (Wrapf p e q) = p @ error_text jt e @ q"
| "error_text jt (Joined es) = strings_Join [CHR 0x0A] (map (error_text jt) es)"

text \<open>\<open>errors.Is(err, target)\<close> for a sentinel target.\<close>

fun errors_is :: "goerr \<Rightarrow> sentinel \<Rightarrow> bool" where
  "errors_is (Sentinel e) t = (e = t)"
| "errors_is (Plain s) t = False"
| "errors_is (JsonError raw) t = False"
| "errors_is (Wrapf p e q) t = errors_is e t"
| "errors_is (Joined es) t = list_ex (\<lambda>e. errors_is e t) es"

text \<open>\<open>errors.Join\<close>: the errors that are not nil, or nil.\<close>

definition errors_Join :: "goerr option list \<Rightarrow> goerr option" where
  "errors_Join es =
     (let present = map the (filter (\<lambda>e. e \<noteq> None) es) in if present = [] then None else Some (Joined present))"

section \<open>Constants\<close>

definition ArticleStateDeleted :: int8 where [simp]: "ArticleStateDeleted = 0"
definition ArticleStateAuditPending :: int8 where [simp]: "ArticleStateAuditPending = 1"
definition ArticleStateAuditBack :: int8 where [simp]: "ArticleStateAuditBack = 2"
definition ArticleStateDraft :: int8 where [simp]: "ArticleStateDraft = 3"
definition ArticleStateStep :: int8 where [simp]: "ArticleStateStep = 5"
definition ArticleStateOfflineSync :: int8 where [simp]: "ArticleStateOfflineSync = 7"
definition ArticleStateOffline :: int8 where [simp]: "ArticleStateOffline = 8"
definition ArticleStateOnline :: int8 where [simp]: "ArticleStateOnline = 9"

definition ArticleLifecycleStates :: "(int8 \<times> string) list" where
  "ArticleLifecycleStates =
     [(ArticleStateDeleted, ''del''), (ArticleStateAuditPending, ''audit''),
      (ArticleStateAuditBack, ''back''), (ArticleStateDraft, ''draft''),
      (ArticleStateStep, ''step''), (ArticleStateOfflineSync, ''offline_sync''),
      (ArticleStateOffline, ''offline''), (ArticleStateOnline, ''online'')]"

definition MatchTypeContains :: string where [simp]: "MatchTypeContains = ''contains''"
definition MatchTypeExact :: string where [simp]: "MatchTypeExact = ''exact''"
definition MatchTypeRegex :: string where [simp]: "MatchTypeRegex = ''regex''"

definition RiskLevelLow :: string where [simp]: "RiskLevelLow = ''low''"
definition RiskLevelMedium :: string where [simp]: "RiskLevelMedium = ''medium''"
definition RiskLevelHigh :: string where [simp]: "RiskLevelHigh = ''high''"

definition SuggestActionIgnore :: string where [simp]: "SuggestActionIgnore = ''ignore''"
definition SuggestActionProcess :: string where [simp]: "SuggestActionProcess = ''process''"
definition SuggestActionOffline :: string where [simp]: "SuggestActionOffline = ''offline''"

definition KeywordScopeTitle :: string where [simp]: "KeywordScopeTitle = ''title''"
definition KeywordScopeShortTitle :: string where [simp]: "KeywordScopeShortTitle = ''short_title''"
definition KeywordScopeRichTitle :: string where [simp]: "KeywordScopeRichTitle = ''rich_title''"
definition KeywordScopeKeyword :: string where [simp]: "KeywordScopeKeyword = ''keyword''"
definition KeywordScopeDesc :: string where [simp]: "KeywordScopeDesc = ''desc''"
definition KeywordScopeBody :: string where [simp]: "KeywordScopeBody = ''body''"

definition TaskStatusPending :: string where [simp]: "TaskStatusPending = ''pending''"
definition TaskStatusRunning :: string where [simp]: "TaskStatusRunning = ''running''"
definition TaskStatusSuccess :: string where [simp]: "TaskStatusSuccess = ''success''"
definition TaskStatusFailed :: string where [simp]: "TaskStatusFailed = ''failed''"
definition TaskStatusPartialSuccess :: string where [simp]: "TaskStatusPartialSuccess = ''partial_success''"

definition TaskOutboxStatusPending :: string where [simp]: "TaskOutboxStatusPending = ''pending''"
definition TaskOutboxStatusClaimed :: string where [simp]: "TaskOutboxStatusClaimed = ''claimed''"
definition TaskOutboxStatusDispatched :: string where [simp]: "TaskOutboxStatusDispatched = ''dispatched''"
definition TaskOutboxStatusDeadLetter :: string where [simp]: "TaskOutboxStatusDeadLetter = ''dead_letter''"

definition TaskOutboxMessageTypeRunTask :: string where [simp]: "TaskOutboxMessageTypeRunTask = ''articleinspect.task.run''"

definition TaskOutboxErrorDispatch :: string where [simp]: "TaskOutboxErrorDispatch = ''dispatch_error''"
definition TaskOutboxErrorDispatcherUnavailable :: string where [simp]: "TaskOutboxErrorDispatcherUnavailable = ''dispatcher_unavailable''"
definition TaskOutboxErrorPayloadDecode :: string where [simp]: "TaskOutboxErrorPayloadDecode = ''payload_decode_error''"
definition TaskOutboxErrorUnsupportedMessage :: string where [simp]: "TaskOutboxErrorUnsupportedMessage = ''unsupported_message_type''"

definition ResultDispositionPending :: string where [simp]: "ResultDispositionPending = ''pending''"
definition ResultDispositionIgnored :: string where [simp]: "ResultDispositionIgnored = ''ignored''"
definition ResultDispositionProcessed :: string where [simp]: "ResultDispositionProcessed = ''processed''"
definition ResultDispositionOfflined :: string where [simp]: "ResultDispositionOfflined = ''offlined''"
definition ResultDispositionRepublished :: string where [simp]: "ResultDispositionRepublished = ''republished''"
definition ResultDispositionFailed :: string where [simp]: "ResultDispositionFailed = ''failed''"

definition ActionStatusRunning :: string where [simp]: "ActionStatusRunning = ''running''"
definition ActionStatusSuccess :: string where [simp]: "ActionStatusSuccess = ''success''"
definition ActionStatusSkipped :: string where [simp]: "ActionStatusSkipped = ''skipped''"
definition ActionStatusFailed :: string where [simp]: "ActionStatusFailed = ''failed''"

definition ActionTypeBatchIgnore :: string where [simp]: "ActionTypeBatchIgnore = ''batch_ignore''"
definition ActionTypeBatchProcess :: string where [simp]: "ActionTypeBatchProcess = ''batch_process''"
definition ActionTypeOffline :: string where [simp]: "ActionTypeOffline = ''offline''"
definition ActionTypeRectify :: string where [simp]: "ActionTypeRectify = ''rectify''"
definition ActionTypeRepublish :: string where [simp]: "ActionTypeRepublish = ''republish''"

definition InspectionTaskStatuses :: "string list" where
  "InspectionTaskStatuses =
     [TaskStatusPending, TaskStatusRunning, TaskStatusSuccess, TaskStatusFailed,
      TaskStatusPartialSuccess]"

definition InspectionResultDispositionStatuses :: "string list" where
  "InspectionResultDispositionStatuses =
     [ResultDispositionPending, ResultDispositionIgnored, ResultDispositionProcessed,
      ResultDispositionOfflined, ResultDispositionRepublished, ResultDispositionFailed]"

definition InspectionKeywordScopes :: "string list" where
  "InspectionKeywordScopes =
     [KeywordScopeTitle, KeywordScopeShortTitle, KeywordScopeRichTitle, KeywordScopeKeyword,
      KeywordScopeDesc, KeywordScopeBody]"

definition InspectionMatchTypes :: "string list" where
  "InspectionMatchTypes = [MatchTypeContains, MatchTypeExact, MatchTypeRegex]"

definition InspectionRiskLevels :: "string list" where
  "InspectionRiskLevels = [RiskLevelLow, RiskLevelMedium, RiskLevelHigh]"

definition InspectionSuggestActions :: "string list" where
  "InspectionSuggestActions = [SuggestActionIgnore, SuggestActionProcess, SuggestActionOffline]"

section \<open>Tables\<close>

record InspectionCategory =
  cat_ID :: uint64
  cat_OrgID :: uint64
  cat_Name :: string
  cat_Enabled :: bool
  cat_Sort :: int64
  cat_CreatorID :: uint64
  cat_CreatorName :: string
  cat_UpdaterID :: uint64
  cat_UpdaterName :: string
  cat_CreateAt :: instant
  cat_UpdateAt :: instant

record InspectionKeyword =
  kw_ID :: uint64
  kw_OrgID :: uint64
  kw_Name :: string
  kw_CategoryID :: uint64
  kw_MatchType :: string
  kw_RiskLevel :: string
  kw_SuggestAction :: string
  kw_Enabled :: bool
  kw_Remark :: string
  kw_CreatorID :: uint64
  kw_CreatorName :: string
  kw_UpdaterID :: uint64
  kw_UpdaterName :: string
  kw_CreateAt :: instant
  kw_UpdateAt :: instant

record InspectionKeywordScope =
  ks_ID :: uint64
  ks_OrgID :: uint64
  ks_KeywordID :: uint64
  ks_Scope :: string
  ks_CreateAt :: instant
  ks_UpdateAt :: instant

record InspectionTask =
  task_ID :: uint64
  task_OrgID :: uint64
  task_TaskNo :: string
  task_Status :: string
  task_ArticleStateFilter :: string
  task_PublishTimeStart :: "instant option"
  task_PublishTimeEnd :: "instant option"
  task_ArticleID :: uint64
  task_TitleLike :: string
  task_IncludeBody :: bool
  task_ScopeOverrideMode :: string
  task_ScopeSnapshot :: string
  task_RequestSnapshot :: string
  task_RuleSnapshot :: string
  task_TotalScanned :: int64
  task_HitArticles :: int64
  task_HitCount :: int64
  task_SkipCount :: int64
  task_FailCount :: int64
  task_BatchCount :: int64
  task_StartedAt :: "instant option"
  task_FinishedAt :: "instant option"
  task_DurationMS :: int64
  task_ErrorMessage :: string
  task_CreatorID :: uint64
  task_CreatorName :: string
  task_CreateAt :: instant
  task_UpdateAt :: instant

record InspectionTaskKeyword =
  tk_ID :: uint64
  tk_OrgID :: uint64
  tk_TaskID :: uint64
  tk_KeywordID :: uint64
  tk_CreateAt :: instant
  tk_UpdateAt :: instant

record InspectionTaskOutboxMessage =
  ob_ID :: uint64
  ob_OrgID :: uint64
  ob_TaskID :: uint64
  ob_MessageType :: string
  ob_Status :: string
  ob_Payload :: string
  ob_AttemptCount :: int64
  ob_ClaimedBy :: string
  ob_ClaimedAt :: "instant option"
  ob_ClaimUntil :: "instant option"
  ob_NextAttemptAt :: "instant option"
  ob_LastError :: string
  ob_LastErrorCode :: string
  ob_LastAttemptAt :: "instant option"
  ob_DeadLetteredAt :: "instant option"
  ob_DispatchedAt :: "instant option"
  ob_RetainedUntil :: "instant option"
  ob_CreateAt :: instant
  ob_UpdateAt :: instant

record InspectionResult =
  res_ID :: uint64
  res_OrgID :: uint64
  res_TaskID :: uint64
  res_ArticleID :: uint64
  res_ArticleTitle :: string
  res_ArticleState :: int8
  res_PublishAtTime :: "instant option"
  res_RiskLevel :: string
  res_SuggestAction :: string
  res_HitFieldsCount :: int64
  res_HitKeywordsCount :: int64
  res_HitCount :: int64
  res_DispositionStatus :: string
  res_LatestActionID :: uint64
  res_LatestOperatorID :: uint64
  res_LatestOperatorName :: string
  res_LatestActionAt :: "instant option"
  res_CreateAt :: instant
  res_UpdateAt :: instant

record InspectionResultHit =
  hit_ID :: uint64
  hit_OrgID :: uint64
  hit_TaskID :: uint64
  hit_ResultID :: uint64
  hit_ArticleID :: uint64
  hit_KeywordID :: uint64
  hit_KeywordText :: string
  hit_Category :: string
  hit_FieldName :: string
  hit_MatchType :: string
  hit_RiskLevel :: string
  hit_SuggestAction :: string
  hit_MatchedText :: string
  hit_Snippet :: string
  hit_PositionStart :: int64
  hit_PositionEnd :: int64
  hit_RuleSnapshot :: string
  hit_CreateAt :: instant
  hit_UpdateAt :: instant

record InspectionAction =
  act_ID :: uint64
  act_OrgID :: uint64
  act_ActionNo :: string
  act_ActionType :: string
  act_TaskID :: uint64
  act_BatchScope :: string
  act_TargetCount :: int64
  act_SuccessCount :: int64
  act_FailCount :: int64
  act_SkipCount :: int64
  act_Status :: string
  act_Reason :: string
  act_RequestSnapshot :: string
  act_OperatorID :: uint64
  act_OperatorName :: string
  act_RequestID :: string
  act_SourceIP :: string
  act_StartedAt :: "instant option"
  act_FinishedAt :: "instant option"
  act_CreateAt :: instant
  act_UpdateAt :: instant

record InspectionOperationLog =
  log_ID :: uint64
  log_OrgID :: uint64
  log_ActionID :: uint64
  log_TaskID :: uint64
  log_ResultID :: uint64
  log_ArticleID :: uint64
  log_OperationType :: string
  log_BeforeState :: string
  log_AfterState :: string
  log_Status :: string
  log_Reason :: string
  log_Summary :: string
  log_RequestSnapshot :: string
  log_OperatorID :: uint64
  log_OperatorName :: string
  log_RequestID :: string
  log_SourceIP :: string
  log_CreateAt :: instant
  log_UpdateAt :: instant

record InspectionFieldChangeLog =
  fcl_ID :: uint64
  fcl_OrgID :: uint64
  fcl_ActionID :: uint64
  fcl_TaskID :: uint64
  fcl_ResultID :: uint64
  fcl_ArticleID :: uint64
  fcl_FieldName :: string
  fcl_BeforeValue :: string
  fcl_AfterValue :: string
  fcl_DiffSummary :: string
  fcl_OperatorID :: uint64
  fcl_OperatorName :: string
  fcl_RequestID :: string
  fcl_SourceIP :: string
  fcl_CreateAt :: instant
  fcl_UpdateAt :: instant

record ChuangqiOrg =
  org_ID :: uint64
  org_Name :: string
  org_CateID :: uint64
  org_Enabled :: bool
  org_Sort :: int64
  org_CreateAt :: instant
  org_UpdateAt :: instant

record Article =
  art_ID :: uint64
  art_OrgID :: uint64
  art_Title :: string
  art_ShortTitle :: "string option"
  art_RichTitle :: string
  art_Keyword :: string
  art_Desc :: string
  art_Thumbnail :: string
  art_State :: int8
  art_PublishAtUnix :: int64
  art_UpdateAtUnix :: int64

record ArticleInfo =
  info_ID :: uint64
  info_OrgID :: uint64
  info_Body :: string
  info_Media :: string
  info_Relate :: string
  info_ShareInfo :: string

text \<open>An entry of the table \<open>posts\<close> (\<open>internal/modules/post/model.go\<close>).\<close>

record Post =
  post_ID :: uint64
  post_Title :: string
  post_Slug :: string
  post_Summary :: string
  post_Content :: string
  post_CreatedAt :: instant
  post_UpdatedAt :: instant

text \<open>The payload of a queued inspection task (\<open>internal/queue/tasks/articleinspect.go\<close>).\<close>

record ArticleInspectTaskPayload =
  pl_TaskID :: uint64
  pl_OrgID :: uint64
  pl_TriggerSource :: string
  pl_OperatorID :: uint64
  pl_OperatorName :: string

section \<open>Trimming the constants\<close>

text \<open>The status columns are compared after \<open>strings.TrimSpace\<close>; the constants are trimmed.\<close>

lemma TrimSpace_outbox_status [simp]:
  "TrimSpace ''pending'' = ''pending''" "TrimSpace ''claimed'' = ''claimed''"
  "TrimSpace ''dispatched'' = ''dispatched''" "TrimSpace ''dead_letter'' = ''dead_letter''"
  "TrimSpace ''articleinspect.task.run'' = ''articleinspect.task.run''"
  by (simp_all add: TrimSpace_graphic graphic_def byte_def)

lemma TrimSpace_task_status [simp]:
  "TrimSpace ''running'' = ''running''" "TrimSpace ''success'' = ''success''"
  "TrimSpace ''failed'' = ''failed''" "TrimSpace ''partial_success'' = ''partial_success''"
  by (simp_all add: TrimSpace_graphic graphic_def byte_def)

end
