(* ===== verification/Store.thy ===== *)
theory Store
  imports Domain
begin

text \<open>
  The state the services work on: the tables of the database, the auto-increment counters,
  the task queue, and the environment a run meets (the clock, the failures of the database
  and the comparison rules of its collation). Every call of \<open>gorm\<close> is one statement: it may
  fail, in which case the tables stay as they are, or it runs with the meaning SQL gives it.
  \<open>Transaction\<close> restores the tables when its body or its commit fails.

  An operation is a function from a world to a result (\<open>Inl\<close> an error, \<open>Inr\<close> a value) and
  the next world. \<open>go_try\<close> is the idiom \<open>x, err := f(); if err != nil { return err }\<close>.

  \<open>keeps\<close> and \<open>preserves\<close> state which part of the tables an operation leaves alone and
  which invariant it maintains; their rules are collected in \<open>frame\<close>. The locale
  \<open>db_table\<close> is the interface of one table; it is interpreted for every table of the
  model.
\<close>

section \<open>The world\<close>

datatype tbl =
    TOrgs | TArticles | TInfos | TCategories | TKeywords | TScopes | TTasks | TTaskKeywords
  | TOutbox | TResults | THits | TActions | TOpLogs | TFieldLogs | TPosts

record db =
  t_orgs :: "ChuangqiOrg list"
  t_articles :: "Article list"
  t_infos :: "ArticleInfo list"
  t_categories :: "InspectionCategory list"
  t_keywords :: "InspectionKeyword list"
  t_scopes :: "InspectionKeywordScope list"
  t_tasks :: "InspectionTask list"
  t_taskkws :: "InspectionTaskKeyword list"
  t_outbox :: "InspectionTaskOutboxMessage list"
  t_results :: "InspectionResult list"
  t_hits :: "InspectionResultHit list"
  t_actions :: "InspectionAction list"
  t_oplogs :: "InspectionOperationLog list"
  t_fcls :: "InspectionFieldChangeLog list"
  t_posts :: "Post list"

text \<open>A task in the queue: its task id, its type and its payload.\<close>

record queued =
  q_TaskID :: string
  q_Type :: string
  q_Payload :: string

record world =
  store :: db
  autoinc :: "tbl \<Rightarrow> nat"
  queue :: "queued list"
  tick :: nat
  clock :: "nat \<Rightarrow> instant"
  faults :: "nat \<Rightarrow> string option"
  sql_like :: "string \<Rightarrow> string \<Rightarrow> bool"
  sql_eq :: "string \<Rightarrow> string \<Rightarrow> bool"

type_synonym 'a res = "(goerr + 'a) \<times> world"

definition no_faults :: "world \<Rightarrow> bool" where
  "no_faults w = (\<forall>n. faults w n = None)"

section \<open>Statements\<close>

definition advance :: "world \<Rightarrow> world" where
  "advance w = w\<lparr>tick := Suc (tick w)\<rparr>"

definition time_now :: "world \<Rightarrow> instant \<times> world" where
  "time_now w = (clock w (tick w), advance w)"

definition db_stmt :: "(world \<Rightarrow> 'a res) \<Rightarrow> world \<Rightarrow> 'a res" where
  "db_stmt f w =
     (case faults w (tick w) of
        Some e \<Rightarrow> (Inl (Plain e), advance w)
      | None \<Rightarrow> f (advance w))"

definition go_try :: "'a res \<Rightarrow> ('a \<Rightarrow> world \<Rightarrow> 'b res) \<Rightarrow> 'b res" where
  "go_try r k = (case r of (Inl e, w) \<Rightarrow> (Inl e, w) | (Inr x, w) \<Rightarrow> k x w)"

definition rows_update :: "('r \<Rightarrow> bool) \<Rightarrow> ('r \<Rightarrow> 'r) \<Rightarrow> 'r list \<Rightarrow> 'r list" where
  "rows_update P f rs = map (\<lambda>r. if P r then f r else r) rs"

definition rows_delete :: "('r \<Rightarrow> bool) \<Rightarrow> 'r list \<Rightarrow> 'r list" where
  "rows_delete P rs = filter (\<lambda>r. \<not> P r) rs"

text \<open>\<open>Find\<close>, \<open>Count\<close>, \<open>Pluck\<close>, \<open>Scan\<close>: a query on the tables.\<close>

definition db_query :: "(db \<Rightarrow> 'x) \<Rightarrow> world \<Rightarrow> 'x res" where
  "db_query q = db_stmt (\<lambda>w. (Inr (q (store w)), w))"

text \<open>\<open>First\<close>: the matching row with the least primary key, or \<open>gorm.ErrRecordNotFound\<close>.\<close>

definition first_row :: "('r \<Rightarrow> nat) \<Rightarrow> ('r \<Rightarrow> bool) \<Rightarrow> 'r list \<Rightarrow> 'r option" where
  "first_row key P rs = (case sort_key key (filter P rs) of [] \<Rightarrow> None | r # _ \<Rightarrow> Some r)"

definition db_first :: "(db \<Rightarrow> 'r list) \<Rightarrow> ('r \<Rightarrow> nat) \<Rightarrow> ('r \<Rightarrow> bool) \<Rightarrow> world \<Rightarrow> 'r res" where
  "db_first sel key P =
     db_stmt (\<lambda>w. case first_row key P (sel (store w)) of
                    None \<Rightarrow> (Inl (Sentinel ErrRecordNotFound), w)
                  | Some r \<Rightarrow> (Inr r, w))"

text \<open>
  \<open>Updates\<close>: the update is applied to every matching row and gets the instant that
  \<open>gorm\<close> writes to \<open>update_at\<close>. The result is the number of affected rows; since
  \<open>update_at\<close> is always written, a matched row is an affected row.
\<close>

definition db_update ::
    "(db \<Rightarrow> 'r list) \<Rightarrow> (('r list \<Rightarrow> 'r list) \<Rightarrow> db \<Rightarrow> db) \<Rightarrow> ('r \<Rightarrow> bool) \<Rightarrow>
     (instant \<Rightarrow> 'r \<Rightarrow> 'r) \<Rightarrow> world \<Rightarrow> nat res" where
  "db_update sel upd P f =
     db_stmt (\<lambda>w. (Inr (length (filter P (sel (store w)))),
                   w\<lparr>store := upd (rows_update P (f (clock w (tick w)))) (store w)\<rparr>))"

definition db_delete ::
    "(db \<Rightarrow> 'r list) \<Rightarrow> (('r list \<Rightarrow> 'r list) \<Rightarrow> db \<Rightarrow> db) \<Rightarrow> ('r \<Rightarrow> bool) \<Rightarrow> world \<Rightarrow> nat res" where
  "db_delete sel upd P =
     db_stmt (\<lambda>w. (Inr (length (filter P (sel (store w)))),
                   w\<lparr>store := upd (rows_delete P) (store w)\<rparr>))"

text \<open>
  \<open>Create\<close> of one row or of a slice of rows: the rows are built from their ids, taken from
  the auto-increment counter, and the instant of the statement. A row that conflicts with a
  unique index is refused. The counter is not part of the tables: a rollback keeps it.
\<close>

definition take_ids :: "tbl \<Rightarrow> nat \<Rightarrow> world \<Rightarrow> world" where
  "take_ids t n w = w\<lparr>autoinc := (autoinc w)(t := autoinc w t + n)\<rparr>"

definition db_create_all ::
    "tbl \<Rightarrow> (db \<Rightarrow> 'r list) \<Rightarrow> (('r list \<Rightarrow> 'r list) \<Rightarrow> db \<Rightarrow> db) \<Rightarrow> ('r \<Rightarrow> 'r \<Rightarrow> bool) \<Rightarrow>
     (nat \<Rightarrow> instant \<Rightarrow> 'r) list \<Rightarrow> world \<Rightarrow> 'r list res" where
  "db_create_all t sel upd conflict mks =
     db_stmt (\<lambda>w.
       let rs = map (\<lambda>i. (mks ! i) (Suc (autoinc w t + i)) (clock w (tick w))) [0..<length mks];
           w1 = take_ids t (length mks) w
       in if list_ex (\<lambda>r. list_ex (conflict r) (sel (store w))) rs
          then (Inl (Plain ''duplicate entry''), w1)
          else (Inr rs, w1\<lparr>store := upd (\<lambda>old. old @ rs) (store w)\<rparr>))"

definition db_create ::
    "tbl \<Rightarrow> (db \<Rightarrow> 'r list) \<Rightarrow> (('r list \<Rightarrow> 'r list) \<Rightarrow> db \<Rightarrow> db) \<Rightarrow> ('r \<Rightarrow> 'r \<Rightarrow> bool) \<Rightarrow>
     (nat \<Rightarrow> instant \<Rightarrow> 'r) \<Rightarrow> world \<Rightarrow> 'r res" where
  "db_create t sel upd conflict mk =
     db_stmt (\<lambda>w.
       let r = mk (Suc (autoinc w t)) (clock w (tick w)); w1 = take_ids t 1 w
       in if list_ex (conflict r) (sel (store w))
          then (Inl (Plain ''duplicate entry''), w1)
          else (Inr r, w1\<lparr>store := upd (\<lambda>old. old @ [r]) (store w)\<rparr>))"

definition no_unique :: "'r \<Rightarrow> 'r \<Rightarrow> bool" where
  "no_unique r x = False"

text \<open>\<open>Transaction\<close>: begin, body, commit or roll back.\<close>

definition db_transaction :: "(world \<Rightarrow> 'a res) \<Rightarrow> world \<Rightarrow> 'a res" where
  "db_transaction body w =
     (case db_stmt (\<lambda>w. (Inr (), w)) w of
        (Inl e, w1) \<Rightarrow> (Inl e, w1)
      | (Inr _, w1) \<Rightarrow>
          (case body w1 of
             (Inl e, w2) \<Rightarrow> (Inl e, w2\<lparr>store := store w1\<rparr>)
           | (Inr x, w2) \<Rightarrow>
               (case db_stmt (\<lambda>w. (Inr (), w)) w2 of
                  (Inl e, w3) \<Rightarrow> (Inl e, w3\<lparr>store := store w1\<rparr>)
                | (Inr _, w3) \<Rightarrow> (Inr x, w3))))"

text \<open>
  A column with a non-zero default: \<open>gorm\<close> writes the default in place of the zero value
  when it creates a row, so \<open>false\<close> cannot be stored by \<open>Create\<close> in a column declared
  \<open>default:true\<close>.
\<close>

definition default_true :: "bool \<Rightarrow> bool" where
  "default_true b = (if b = False then True else b)"

lemma default_true_eq [simp]: "default_true b"
  by (simp add: default_true_def)

section \<open>Evaluation\<close>

lemma advance_simps [simp]:
  "store (advance w) = store w" "autoinc (advance w) = autoinc w" "queue (advance w) = queue w"
  "tick (advance w) = Suc (tick w)" "clock (advance w) = clock w" "faults (advance w) = faults w"
  "sql_like (advance w) = sql_like w" "sql_eq (advance w) = sql_eq w"
  by (simp_all add: advance_def)

lemma take_ids_simps [simp]:
  "store (take_ids t n w) = store w" "queue (take_ids t n w) = queue w"
  "tick (take_ids t n w) = tick w" "clock (take_ids t n w) = clock w"
  "faults (take_ids t n w) = faults w" "autoinc (take_ids t n w) t = autoinc w t + n"
  "sql_like (take_ids t n w) = sql_like w" "sql_eq (take_ids t n w) = sql_eq w"
  by (simp_all add: take_ids_def)

lemma no_faults_advance [simp]: "no_faults (advance w) = no_faults w"
  by (simp add: no_faults_def)

lemma no_faults_take_ids [simp]: "no_faults (take_ids t n w) = no_faults w"
  by (simp add: no_faults_def)

lemma no_faults_store [simp]: "no_faults (w\<lparr>store := d\<rparr>) = no_faults w"
  by (simp add: no_faults_def)

lemma no_faults_queue [simp]: "no_faults (w\<lparr>queue := q\<rparr>) = no_faults w"
  by (simp add: no_faults_def)

lemma go_try_simps [simp]:
  "go_try (Inl e, w) k = (Inl e, w)"
  "go_try (Inr x, w) k = k x w"
  by (simp_all add: go_try_def)

lemma go_try_split:
  "P (go_try r k) \<longleftrightarrow>
     (\<forall>e w. r = (Inl e, w) \<longrightarrow> P (Inl e, w)) \<and> (\<forall>x w. r = (Inr x, w) \<longrightarrow> P (k x w))"
  by (auto simp: go_try_def split: prod.splits sum.splits)

lemma go_try_split_asm:
  "P (go_try r k) \<longleftrightarrow>
     \<not> ((\<exists>e w. r = (Inl e, w) \<and> \<not> P (Inl e, w)) \<or> (\<exists>x w. r = (Inr x, w) \<and> \<not> P (k x w)))"
  by (auto simp: go_try_def split: prod.splits sum.splits)

lemma db_stmt_ok [stmt_simps]: "no_faults w \<Longrightarrow> db_stmt f w = f (advance w)"
  by (simp add: db_stmt_def no_faults_def)

lemma db_query_ok [stmt_simps]: "no_faults w \<Longrightarrow> db_query q w = (Inr (q (store w)), advance w)"
  by (simp add: db_query_def db_stmt_ok)

lemma db_first_ok [stmt_simps]:
  "no_faults w \<Longrightarrow> db_first sel key P w =
     (case first_row key P (sel (store w)) of
        None \<Rightarrow> (Inl (Sentinel ErrRecordNotFound), advance w) | Some r \<Rightarrow> (Inr r, advance w))"
  by (simp add: db_first_def db_stmt_ok)

lemma db_update_ok [stmt_simps]:
  "no_faults w \<Longrightarrow> db_update sel upd P f w =
     (Inr (length (filter P (sel (store w)))),
      (advance w)\<lparr>store := upd (rows_update P (f (clock w (Suc (tick w))))) (store w)\<rparr>)"
  by (simp add: db_update_def db_stmt_ok)

lemma db_delete_ok [stmt_simps]:
  "no_faults w \<Longrightarrow> db_delete sel upd P w =
     (Inr (length (filter P (sel (store w)))), (advance w)\<lparr>store := upd (rows_delete P) (store w)\<rparr>)"
  by (simp add: db_delete_def db_stmt_ok)

lemma db_query_Inr: "db_query q w = (Inr x, w') \<Longrightarrow> x = q (store w) \<and> w' = advance w"
  by (auto simp: db_query_def db_stmt_def split: option.splits)

lemma db_query_Inl: "db_query q w = (Inl e, w') \<Longrightarrow> w' = advance w"
  by (auto simp: db_query_def db_stmt_def split: option.splits)

lemma first_row_Some: "first_row key P rs = Some r \<Longrightarrow> r \<in> set rs \<and> P r"
proof -
  assume "first_row key P rs = Some r"
  then obtain l where "sort_key key (filter P rs) = r # l"
    by (auto simp: first_row_def split: list.splits)
  then have "r \<in> set (sort_key key (filter P rs))" by simp
  then show ?thesis by simp
qed

lemma first_row_None: "first_row key P rs = None \<longleftrightarrow> (\<forall>r \<in> set rs. \<not> P r)"
proof -
  have "first_row key P rs = None \<longleftrightarrow> sort_key key (filter P rs) = []"
    by (simp add: first_row_def split: list.splits)
  also have "\<dots> \<longleftrightarrow> filter P rs = []"
    by (metis length_0_conv length_sort)
  finally show ?thesis by (simp add: filter_empty_conv)
qed

lemma first_row_singleton: "filter P rs = [r] \<Longrightarrow> first_row key P rs = Some r"
  by (simp add: first_row_def)

lemma db_first_Inr:
  "db_first sel key P w = (Inr r, w') \<Longrightarrow>
     first_row key P (sel (store w)) = Some r \<and> w' = advance w"
  by (auto simp: db_first_def db_stmt_def split: option.splits)

lemma db_first_Inl: "db_first sel key P w = (Inl e, w') \<Longrightarrow> w' = advance w"
  by (auto simp: db_first_def db_stmt_def split: option.splits)

lemma go_try_drop: "snd (go_try r (\<lambda>_ w. (y, w))) = snd r"
  by (auto simp: go_try_def split: prod.split sum.split)

lemma go_try_Inr_iff: "go_try r k = (Inr y, w') \<longleftrightarrow> (\<exists>x w. r = (Inr x, w) \<and> k x w = (Inr y, w'))"
  by (auto simp: go_try_def split: prod.split sum.split)

lemma go_try_Inl_iff:
  "go_try r k = (Inl e, w') \<longleftrightarrow> r = (Inl e, w') \<or> (\<exists>x w. r = (Inr x, w) \<and> k x w = (Inl e, w'))"
  by (auto simp: go_try_def split: prod.split sum.split)

lemma db_update_Inl: "db_update sel upd P f w = (Inl e, w') \<Longrightarrow> store w' = store w"
  by (auto simp: db_update_def db_stmt_def split: option.splits)

lemma db_update_Inr: "db_update sel upd P f w = (Inr n, w') \<Longrightarrow>
    store w' = upd (rows_update P (f (clock w (Suc (tick w))))) (store w) \<and> n = length (filter P (sel (store w)))"
  by (auto simp: db_update_def db_stmt_def split: option.splits)

lemma db_delete_Inr: "db_delete sel upd P w = (Inr n, w') \<Longrightarrow>
    store w' = upd (rows_delete P) (store w) \<and> n = length (filter P (sel (store w)))"
  by (auto simp: db_delete_def db_stmt_def split: option.splits)

lemma db_create_Inr: "db_create t sel upd c mk w = (Inr r, w') \<Longrightarrow>
    store w' = upd (\<lambda>old. old @ [r]) (store w) \<and> r = mk (Suc (autoinc w t)) (clock w (Suc (tick w)))"
  by (auto simp: db_create_def db_stmt_def Let_def split: option.splits if_splits)

lemma db_create_all_Inr: "db_create_all t sel upd c mks w = (Inr rs, w') \<Longrightarrow>
    store w' = upd (\<lambda>old. old @ rs) (store w) \<and>
    rs = map (\<lambda>i. (mks ! i) (Suc (autoinc w t + i)) (clock w (Suc (tick w)))) [0..<length mks]"
  by (auto simp: db_create_all_def db_stmt_def Let_def split: option.splits if_splits)

lemma transaction_Inl: "db_transaction f w = (Inl e, w') \<Longrightarrow> store w' = store w"
  by (auto simp: db_transaction_def db_stmt_def split: option.splits prod.splits sum.splits)

lemma transaction_Inr:
  assumes "db_transaction f w = (Inr x, w')"
  obtains w1 where "f (advance w) = (Inr x, w1)" and "store w' = store w1"
  using assms by (auto simp: db_transaction_def db_stmt_def split: option.splits prod.splits sum.splits)

section \<open>Frame rules\<close>

text \<open>\<open>keeps g f\<close>: the observation \<open>g\<close> of the tables is the same before and after \<open>f\<close>.\<close>

definition keeps :: "(db \<Rightarrow> 'x) \<Rightarrow> (world \<Rightarrow> 'a \<times> world) \<Rightarrow> bool" where
  "keeps g f = (\<forall>w. g (store (snd (f w))) = g (store w))"

lemma keepsI: "(\<And>w. g (store (snd (f w))) = g (store w)) \<Longrightarrow> keeps g f"
  by (simp add: keeps_def)

lemma keepsD: "keeps g f \<Longrightarrow> f w = (x, w') \<Longrightarrow> g (store w') = g (store w)"
  by (metis keeps_def snd_conv)

lemma keeps_pure [frame]: "keeps g (\<lambda>w. (x, w))"
  by (simp add: keeps_def)

lemma keeps_stmt: "keeps g f \<Longrightarrow> keeps g (db_stmt f)"
  by (auto simp: keeps_def db_stmt_def split: option.splits)

lemma keeps_query [frame]: "keeps g (db_query q)"
  unfolding db_query_def by (rule keeps_stmt) (simp add: keeps_def)

lemma keeps_first [frame]: "keeps g (db_first sel key P)"
  unfolding db_first_def by (rule keeps_stmt) (auto simp: keeps_def split: option.splits)

lemma keeps_update [frame]: "(\<And>f d. g (upd f d) = g d) \<Longrightarrow> keeps g (db_update sel upd P h)"
  unfolding db_update_def by (rule keeps_stmt) (simp add: keeps_def)

lemma keeps_delete [frame]: "(\<And>f d. g (upd f d) = g d) \<Longrightarrow> keeps g (db_delete sel upd P)"
  unfolding db_delete_def by (rule keeps_stmt) (simp add: keeps_def)

lemma keeps_create [frame]: "(\<And>f d. g (upd f d) = g d) \<Longrightarrow> keeps g (db_create t sel upd c mk)"
  unfolding db_create_def by (rule keeps_stmt) (simp add: keeps_def Let_def)

lemma keeps_create_all [frame]:
  "(\<And>f d. g (upd f d) = g d) \<Longrightarrow> keeps g (db_create_all t sel upd c mks)"
  unfolding db_create_all_def by (rule keeps_stmt) (simp add: keeps_def Let_def)

lemma keeps_try [frame]: "keeps g f \<Longrightarrow> (\<And>x. keeps g (k x)) \<Longrightarrow> keeps g (\<lambda>w. go_try (f w) k)"
  unfolding keeps_def go_try_def by (metis (mono_tags, lifting) old.prod.case old.sum.exhaust
    old.sum.simps(5,6) prod.exhaust_sel snd_conv)

lemma keeps_if [frame]: "(b \<Longrightarrow> keeps g f) \<Longrightarrow> (\<not> b \<Longrightarrow> keeps g h) \<Longrightarrow> keeps g (\<lambda>w. if b then f w else h w)"
  by (simp add: keeps_def)

lemma keeps_transaction [frame]: "keeps g f \<Longrightarrow> keeps g (db_transaction f)"
  unfolding keeps_def db_transaction_def db_stmt_def
  by (auto split: option.splits prod.splits sum.splits) (metis advance_simps(1) snd_conv)+

text \<open>\<open>preserves I f\<close>: \<open>f\<close> maintains the invariant \<open>I\<close> of the world.\<close>

definition preserves :: "(world \<Rightarrow> bool) \<Rightarrow> (world \<Rightarrow> 'a \<times> world) \<Rightarrow> bool" where
  "preserves I f = (\<forall>w. I w \<longrightarrow> I (snd (f w)))"

lemma preservesI: "(\<And>w. I w \<Longrightarrow> I (snd (f w))) \<Longrightarrow> preserves I f"
  by (simp add: preserves_def)

lemma preservesD: "preserves I f \<Longrightarrow> I w \<Longrightarrow> f w = (x, w') \<Longrightarrow> I w'"
  by (metis preserves_def snd_conv)

lemma preserves_pure: "preserves I (\<lambda>w. (x, w))"
  by (simp add: preserves_def)

lemma preserves_if:
  "(b \<Longrightarrow> preserves I f) \<Longrightarrow> (\<not> b \<Longrightarrow> preserves I g) \<Longrightarrow> preserves I (\<lambda>w. if b then f w else g w)"
  by (simp add: preserves_def)

lemma preserves_try: "preserves I f \<Longrightarrow> (\<And>x. preserves I (k x)) \<Longrightarrow> preserves I (\<lambda>w. go_try (f w) k)"
  unfolding preserves_def go_try_def by (metis (mono_tags, lifting) old.prod.case old.sum.exhaust
    old.sum.simps(5,6) prod.exhaust_sel snd_conv)

text \<open>The auto-increment counters never go back, whatever becomes of the rows.\<close>

definition grows :: "(world \<Rightarrow> 'a \<times> world) \<Rightarrow> bool" where
  "grows f = (\<forall>w t. autoinc w t \<le> autoinc (snd (f w)) t)"

lemma grows_pure [frame]: "grows (\<lambda>w. (x, w))"
  by (simp add: grows_def)

lemma grows_stmt: "grows f \<Longrightarrow> grows (db_stmt f)"
  unfolding grows_def db_stmt_def by (metis (no_types, lifting) advance_simps(2) dual_order.refl
    option.case_eq_if snd_conv)

lemma grows_query [frame]: "grows (db_query q)"
  unfolding db_query_def by (rule grows_stmt) (simp add: grows_def)

lemma grows_first [frame]: "grows (db_first sel key P)"
  unfolding db_first_def by (rule grows_stmt) (auto simp: grows_def split: option.splits)

lemma grows_update [frame]: "grows (db_update sel upd P h)"
  unfolding db_update_def by (rule grows_stmt) (simp add: grows_def)

lemma grows_delete [frame]: "grows (db_delete sel upd P)"
  unfolding db_delete_def by (rule grows_stmt) (simp add: grows_def)

lemma grows_create [frame]: "grows (db_create t sel upd c mk)"
  unfolding db_create_def by (rule grows_stmt) (simp add: grows_def Let_def take_ids_def)

lemma grows_create_all [frame]: "grows (db_create_all t sel upd c mks)"
  unfolding db_create_all_def by (rule grows_stmt) (simp add: grows_def Let_def take_ids_def)

lemma grows_try [frame]:
  assumes "grows f" and "\<And>x. grows (k x)"
  shows "grows (\<lambda>w. go_try (f w) k)"
  unfolding grows_def
proof (intro allI)
  fix w t
  obtain r w1 where f: "f w = (r, w1)" by fastforce
  then have "autoinc w t \<le> autoinc w1 t" using assms(1) by (metis grows_def snd_conv)
  moreover have "autoinc w1 t \<le> autoinc (snd (k x w1)) t" for x using assms(2) by (simp add: grows_def)
  ultimately show "autoinc w t \<le> autoinc (snd (go_try (f w) k)) t"
    using f by (cases r) (auto intro: le_trans)
qed

lemma grows_if [frame]: "(b \<Longrightarrow> grows f) \<Longrightarrow> (\<not> b \<Longrightarrow> grows h) \<Longrightarrow> grows (\<lambda>w. if b then f w else h w)"
  by (simp add: grows_def)

lemma grows_transaction [frame]:
  assumes "grows f"
  shows "grows (db_transaction f)"
proof -
  have "autoinc w t \<le> autoinc (snd (f (advance w))) t" for w t
    using assms by (metis advance_simps(2) grows_def)
  then show ?thesis
    unfolding grows_def db_transaction_def db_stmt_def
    by (auto split: option.splits prod.splits sum.splits) (metis snd_conv)+
qed

text \<open>
  \<open>steady f\<close>: \<open>f\<close> leaves the environment (clock, failures, collation) as it is; so does every statement.
\<close>

definition same_env :: "world \<Rightarrow> world \<Rightarrow> bool" where
  "same_env w w' = (faults w' = faults w \<and> clock w' = clock w \<and> sql_like w' = sql_like w \<and> sql_eq w' = sql_eq w \<and> queue w' = queue w)"

definition steady :: "(world \<Rightarrow> 'a \<times> world) \<Rightarrow> bool" where
  "steady f = (\<forall>w. same_env w (snd (f w)))"

lemma same_env_refl [simp]: "same_env w w"
  by (simp add: same_env_def)

lemma same_env_trans: "same_env w w1 \<Longrightarrow> same_env w1 w2 \<Longrightarrow> same_env w w2"
  by (simp add: same_env_def)

lemma same_env_advance [simp]: "same_env w (advance w)"
  by (simp add: same_env_def)

lemma same_env_store [simp]: "same_env w (v\<lparr>store := d\<rparr>) = same_env w v"
  by (simp add: same_env_def)

lemma same_env_take_ids [simp]: "same_env w (take_ids t n v) = same_env w v"
  by (simp add: same_env_def)

lemma same_env_no_faults: "same_env w w' \<Longrightarrow> no_faults w' = no_faults w"
  by (simp add: same_env_def no_faults_def)

lemma steadyD: "steady f \<Longrightarrow> f w = (x, w') \<Longrightarrow> same_env w w'"
  by (metis steady_def snd_conv)

lemma steady_pure [frame]: "steady (\<lambda>w. (x, w))"
  by (simp add: steady_def)

lemma steady_stmt: "steady f \<Longrightarrow> steady (db_stmt f)"
  by (auto simp: steady_def db_stmt_def split: option.splits intro: same_env_trans [OF same_env_advance])

lemma steady_query [frame]: "steady (db_query q)"
  unfolding db_query_def by (rule steady_stmt) (simp add: steady_def)

lemma steady_first [frame]: "steady (db_first sel key P)"
  unfolding db_first_def by (rule steady_stmt) (auto simp: steady_def split: option.splits)

lemma steady_update [frame]: "steady (db_update sel upd P h)"
  unfolding db_update_def by (rule steady_stmt) (simp add: steady_def)

lemma steady_delete [frame]: "steady (db_delete sel upd P)"
  unfolding db_delete_def by (rule steady_stmt) (simp add: steady_def)

lemma steady_create [frame]: "steady (db_create t sel upd c mk)"
  unfolding db_create_def by (rule steady_stmt) (simp add: steady_def Let_def)

lemma steady_create_all [frame]: "steady (db_create_all t sel upd c mks)"
  unfolding db_create_all_def by (rule steady_stmt) (simp add: steady_def Let_def)

lemma steady_try [frame]:
  assumes "steady f" and "\<And>x. steady (k x)"
  shows "steady (\<lambda>w. go_try (f w) k)"
  unfolding steady_def
proof
  fix w
  obtain r w1 where f: "f w = (r, w1)" by fastforce
  then show "same_env w (snd (go_try (f w) k))"
    using steadyD [OF assms(1) f] assms(2) by (cases r) (auto simp: steady_def intro: same_env_trans)
qed

lemma steady_if [frame]: "(b \<Longrightarrow> steady f) \<Longrightarrow> (\<not> b \<Longrightarrow> steady h) \<Longrightarrow> steady (\<lambda>w. if b then f w else h w)"
  by (simp add: steady_def)

lemma steady_transaction [frame]:
  assumes "steady f"
  shows "steady (db_transaction f)"
  unfolding steady_def
proof
  fix w
  obtain r w1 where f: "f (advance w) = (r, w1)" by fastforce
  have "same_env w w1" using steadyD [OF assms f] same_env_trans [OF same_env_advance] by blast
  then show "same_env w (snd (db_transaction f w))"
    using f by (auto simp: db_transaction_def db_stmt_def split: option.splits sum.splits intro: same_env_trans)
qed

section \<open>The interface of a table\<close>

text \<open>
  The ids of a table are distinct and below the counter. Every statement that keeps the
  ids of the rows it changes maintains this.
\<close>

definition keys_ok :: "tbl \<Rightarrow> (db \<Rightarrow> 'r list) \<Rightarrow> ('r \<Rightarrow> nat) \<Rightarrow> world \<Rightarrow> bool" where
  "keys_ok t sel key w =
     (distinct (map key (sel (store w))) \<and> list_all (\<lambda>r. key r \<le> autoinc w t) (sel (store w)))"

lemma keys_ok_advance [simp]: "keys_ok t sel key (advance w) = keys_ok t sel key w"
  by (simp add: keys_ok_def)

lemma keys_ok_grows:
  assumes "keys_ok t sel key w" and "sel (store w') = sel (store w)" and "autoinc w t \<le> autoinc w' t"
  shows "keys_ok t sel key w'"
  using assms by (auto simp: keys_ok_def list_all_iff intro: order_trans)

lemma keys_ok_map:
  assumes "map key (sel (store w')) = map key (sel (store w))" and "autoinc w' = autoinc w"
  shows "keys_ok t sel key w' = keys_ok t sel key w"
proof -
  have "list_all (\<lambda>r. key r \<le> n) rs = list_all (\<lambda>k. k \<le> n) (map key rs)" for n rs
    by (simp add: list.pred_map comp_def)
  with assms show ?thesis by (simp add: keys_ok_def)
qed

lemma preserves_keys_frame:
  "keeps sel f \<Longrightarrow> grows f \<Longrightarrow> preserves (keys_ok t sel key) f"
  by (auto simp: preserves_def keeps_def grows_def intro: keys_ok_grows)

lemma preserves_keys_transaction:
  assumes "preserves (keys_ok t sel key) f" and "grows f"
  shows "preserves (keys_ok t sel key) (db_transaction f)"
proof (rule preservesI)
  fix w assume ok: "keys_ok t sel key w"
  obtain r w2 where f: "f (advance w) = (r, w2)" by fastforce
  have "keys_ok t sel key w2"
    using assms(1) ok f by (metis keys_ok_advance preserves_def snd_conv)
  moreover have "autoinc w t \<le> autoinc w2 t"
    using assms(2) f by (metis advance_simps(2) grows_def snd_conv)
  then have "keys_ok t sel key (w2\<lparr>store := store w\<rparr>)"
    by (intro keys_ok_grows [OF ok]) auto
  ultimately show "keys_ok t sel key (snd (db_transaction f w))"
    using ok f unfolding db_transaction_def db_stmt_def
    by (auto simp: keys_ok_def split: option.splits sum.splits)
qed

locale db_table =
  fixes t :: tbl
    and sel :: "db \<Rightarrow> 'r list"
    and upd :: "('r list \<Rightarrow> 'r list) \<Rightarrow> db \<Rightarrow> db"
    and key :: "'r \<Rightarrow> nat"
  assumes sel_upd: "sel (upd f d) = f (sel d)"
begin

lemma update_Inr:
  assumes "db_update sel upd P f w = (Inr n, w')"
  shows "sel (store w') = rows_update P (f (clock w (Suc (tick w)))) (sel (store w))"
    and "n = length (filter P (sel (store w)))"
  using assms by (auto simp: db_update_def db_stmt_def sel_upd split: option.splits)

lemma delete_Inr:
  assumes "db_delete sel upd P w = (Inr n, w')"
  shows "sel (store w') = rows_delete P (sel (store w))"
    and "n = length (filter P (sel (store w)))"
  using assms by (auto simp: db_delete_def db_stmt_def sel_upd split: option.splits)

lemma create_Inr:
  assumes "db_create t sel upd c mk w = (Inr r, w')"
  shows "r = mk (Suc (autoinc w t)) (clock w (Suc (tick w)))"
    and "sel (store w') = sel (store w) @ [r]"
    and "autoinc w' t = Suc (autoinc w t)"
  using assms
  by (auto simp: db_create_def db_stmt_def sel_upd Let_def split: option.splits if_splits)

lemma update_keys:
  assumes "\<And>i r. key (f i r) = key r"
  shows "preserves (keys_ok t sel key) (db_update sel upd P f)"
proof (rule preservesI)
  fix w assume ok: "keys_ok t sel key w"
  have k: "map key (rows_update P (f i) rs) = map key rs" for i rs
    by (simp add: rows_update_def assms)
  have "list_all (\<lambda>r. key r \<le> n) (rows_update P (f i) rs) = list_all (\<lambda>r. key r \<le> n) rs" for i rs n
    by (induction rs) (simp_all add: rows_update_def assms)
  with ok k show "keys_ok t sel key (snd (db_update sel upd P f w))"
    by (simp add: keys_ok_def db_update_def db_stmt_def sel_upd split: option.splits)
qed

lemma delete_keys: "preserves (keys_ok t sel key) (db_delete sel upd P)"
  by (rule preservesI)
     (auto simp: keys_ok_def db_delete_def db_stmt_def sel_upd rows_delete_def list_all_iff
       distinct_map_filterI split: option.splits)

lemma create_keys:
  assumes "\<And>i n. key (mk i n) = i"
  shows "preserves (keys_ok t sel key) (db_create t sel upd c mk)"
proof (rule preservesI)
  fix w assume ok: "keys_ok t sel key w"
  then have "Suc (autoinc w t) \<notin> key ` set (sel (store w))"
    by (auto simp: keys_ok_def list_all_iff)
  with ok show "keys_ok t sel key (snd (db_create t sel upd c mk w))"
    by (auto simp: keys_ok_def db_create_def db_stmt_def sel_upd Let_def list_all_iff assms
        split: option.splits)
qed

text \<open>What a lookup by id returns.\<close>

lemma first_by_key:
  assumes "keys_ok t sel key w" and "r \<in> set (sel (store w))" and "Q r"
  shows "first_row key (\<lambda>x. Q x \<and> key x = key r) (sel (store w)) = Some r"
proof (rule first_row_singleton)
  have "filter (\<lambda>x. key x = key r) (sel (store w)) = [r]"
    using assms(1,2) by (simp add: keys_ok_def filter_key_unique)
  then have "filter Q (filter (\<lambda>x. key x = key r) (sel (store w))) = [r]" using assms(3) by simp
  then show "filter (\<lambda>x. Q x \<and> key x = key r) (sel (store w)) = [r]"
    by (simp add: conj_commute)
qed

lemma create_then_first:
  assumes "keys_ok t sel key w" and "db_create t sel upd c mk w = (Inr r, w')"
    and "\<And>i n. key (mk i n) = i" and "Q r"
  shows "first_row key (\<lambda>x. Q x \<and> key x = key r) (sel (store w')) = Some r"
proof (rule first_by_key)
  show "keys_ok t sel key w'"
    using create_keys [OF assms(3)] assms(1,2) by (rule preservesD)
  show "r \<in> set (sel (store w'))" by (simp add: create_Inr(2) [OF assms(2)])
  show "Q r" by fact
qed

end

interpretation tb_orgs: db_table TOrgs t_orgs t_orgs_update org_ID by unfold_locales simp
interpretation tb_articles: db_table TArticles t_articles t_articles_update art_ID by unfold_locales simp
interpretation tb_infos: db_table TInfos t_infos t_infos_update info_ID by unfold_locales simp
interpretation tb_categories: db_table TCategories t_categories t_categories_update cat_ID by unfold_locales simp
interpretation tb_keywords: db_table TKeywords t_keywords t_keywords_update kw_ID by unfold_locales simp
interpretation tb_scopes: db_table TScopes t_scopes t_scopes_update ks_ID by unfold_locales simp
interpretation tb_tasks: db_table TTasks t_tasks t_tasks_update task_ID by unfold_locales simp
interpretation tb_taskkws: db_table TTaskKeywords t_taskkws t_taskkws_update tk_ID by unfold_locales simp
interpretation tb_outbox: db_table TOutbox t_outbox t_outbox_update ob_ID by unfold_locales simp
interpretation tb_results: db_table TResults t_results t_results_update res_ID by unfold_locales simp
interpretation tb_hits: db_table THits t_hits t_hits_update hit_ID by unfold_locales simp
interpretation tb_actions: db_table TActions t_actions t_actions_update act_ID by unfold_locales simp
interpretation tb_oplogs: db_table TOpLogs t_oplogs t_oplogs_update log_ID by unfold_locales simp
interpretation tb_fcls: db_table TFieldLogs t_fcls t_fcls_update fcl_ID by unfold_locales simp
interpretation tb_posts: db_table TPosts t_posts t_posts_update post_ID by unfold_locales simp

text \<open>An empty database, and a world around given tables in which no statement fails.\<close>

definition empty_db :: db where
  "empty_db = \<lparr>t_orgs = [], t_articles = [], t_infos = [], t_categories = [], t_keywords = [], t_scopes = [],
     t_tasks = [], t_taskkws = [], t_outbox = [], t_results = [], t_hits = [], t_actions = [], t_oplogs = [], t_fcls = [], t_posts = []\<rparr>"

definition calm_world :: "db \<Rightarrow> world" where
  "calm_world d =
     \<lparr>store = d, autoinc = (\<lambda>_. 100), queue = [], tick = 0, clock = (\<lambda>n. 600000000000 * int n),
      faults = (\<lambda>_. None), sql_like = (\<lambda>s p. str_contains s p), sql_eq = (\<lambda>s t. s = t)\<rparr>"

lemma calm_world_simps [simp]:
  "store (calm_world d) = d" "autoinc (calm_world d) t = 100" "queue (calm_world d) = []" "tick (calm_world d) = 0"
  "clock (calm_world d) n = 600000000000 * int n" "no_faults (calm_world d)" "faults (calm_world d) n = None"
  "sql_like (calm_world d) x y = str_contains x y" "sql_eq (calm_world d) x y = (x = y)"
  by (simp_all add: calm_world_def no_faults_def)

lemma empty_db_simps [simp]:
  "t_orgs empty_db = []" "t_articles empty_db = []" "t_infos empty_db = []" "t_categories empty_db = []"
  "t_keywords empty_db = []" "t_scopes empty_db = []" "t_tasks empty_db = []" "t_taskkws empty_db = []"
  "t_outbox empty_db = []" "t_results empty_db = []" "t_hits empty_db = []" "t_actions empty_db = []"
  "t_oplogs empty_db = []" "t_fcls empty_db = []" "t_posts empty_db = []"
  by (simp_all add: empty_db_def)

end
