(* ===== verification/Shared.thy ===== *)
theory Shared
  imports Store
begin

text \<open>
  What the feature packages share: the identities a request context carries
  (\<open>internal/identity\<close>), the operator resolved from them, the page bounds, the query
  parameters and the response envelope (\<open>internal/modules/articleinspect/shared\<close>,
  \<open>internal/api/response\<close>), and the listing contract that every paged query of the service
  follows (locale \<open>paged_listing\<close>).
\<close>

section \<open>Request context\<close>

record Actor =
  ac_ID :: nat
  ac_Username :: string
  ac_Role :: string
  ac_Status :: string

record Principal =
  pr_Kind :: string
  pr_UserID :: nat
  pr_Username :: string
  pr_Role :: string
  pr_Status :: string

record RequestMetadata =
  rm_RequestID :: string
  rm_SourceIP :: string

record AdminSession =
  as_UserID :: uint64
  as_OrgID :: uint64
  as_OrgName :: string
  as_Platform :: string
  as_Priv :: string
  as_RoleID :: string
  as_Nickname :: string
  as_Avatar :: string
  as_DepartmentID :: uint64
  as_IsOpenEdu :: bool
  as_Status :: string

text \<open>The values of a \<open>context.Context\<close> under the four keys of the package \<open>identity\<close>.\<close>

record gocontext =
  cx_principal :: "Principal option"
  cx_actor :: "Actor option"
  cx_metadata :: "RequestMetadata option"
  cx_session :: "AdminSession option"

definition background :: gocontext where
  "background = \<lparr>cx_principal = None, cx_actor = None, cx_metadata = None, cx_session = None\<rparr>"

definition NewActor :: "nat \<Rightarrow> string \<Rightarrow> string \<Rightarrow> string \<Rightarrow> Actor" where
  "NewActor i username role status =
     \<lparr>ac_ID = i, ac_Username = TrimSpace username, ac_Role = TrimSpace role, ac_Status = TrimSpace status\<rparr>"

definition HasRole :: "unicode_tables \<Rightarrow> Actor \<Rightarrow> string \<Rightarrow> bool" where
  "HasRole ut a role = (let r = TrimSpace role in r \<noteq> '''' \<and> EqualFold ut (ac_Role a) r)"

definition ContextWithActor :: "gocontext \<Rightarrow> Actor \<Rightarrow> gocontext" where
  "ContextWithActor cx a = cx\<lparr>cx_actor := Some a\<rparr>"

definition ActorFromContext :: "gocontext \<Rightarrow> Actor option" where
  "ActorFromContext cx = cx_actor cx"

definition PrincipalFromActor :: "Actor \<Rightarrow> Principal" where
  "PrincipalFromActor a =
     \<lparr>pr_Kind = ac_Role a, pr_UserID = ac_ID a, pr_Username = ac_Username a, pr_Role = ac_Role a,
      pr_Status = ac_Status a\<rparr>"

definition ContextWithPrincipal :: "gocontext \<Rightarrow> Principal \<Rightarrow> gocontext" where
  "ContextWithPrincipal cx p = cx\<lparr>cx_principal := Some p\<rparr>"

definition PrincipalFromContext :: "gocontext \<Rightarrow> Principal option" where
  "PrincipalFromContext cx =
     (case cx_principal cx of
        Some p \<Rightarrow> Some p
      | None \<Rightarrow> (case ActorFromContext cx of None \<Rightarrow> None | Some a \<Rightarrow> Some (PrincipalFromActor a)))"

definition RequestMetadataFromContext :: "gocontext \<Rightarrow> RequestMetadata option" where
  "RequestMetadataFromContext cx =
     (case cx_metadata cx of
        None \<Rightarrow> None
      | Some m \<Rightarrow> if rm_RequestID m = '''' \<and> rm_SourceIP m = '''' then None else Some m)"

definition ContextWithRequestMetadata :: "gocontext \<Rightarrow> RequestMetadata \<Rightarrow> gocontext" where
  "ContextWithRequestMetadata cx m =
     (let cur = (case RequestMetadataFromContext cx of
                   None \<Rightarrow> \<lparr>rm_RequestID = '''', rm_SourceIP = ''''\<rparr> | Some c \<Rightarrow> c);
          m1 = (if rm_RequestID m = '''' then m\<lparr>rm_RequestID := rm_RequestID cur\<rparr> else m);
          m2 = (if rm_SourceIP m1 = '''' then m1\<lparr>rm_SourceIP := rm_SourceIP cur\<rparr> else m1)
      in cx\<lparr>cx_metadata := Some m2\<rparr>)"

definition ContextWithAdminSession :: "gocontext \<Rightarrow> AdminSession \<Rightarrow> gocontext" where
  "ContextWithAdminSession cx s = cx\<lparr>cx_session := Some s\<rparr>"

definition AdminSessionFromContext :: "gocontext \<Rightarrow> AdminSession option" where
  "AdminSessionFromContext cx = cx_session cx"

definition session_Actor :: "AdminSession \<Rightarrow> Actor" where
  "session_Actor s =
     (let nick = TrimSpace (as_Nickname s);
          username = (if nick = '''' then nat_str (as_UserID s) else nick);
          st = TrimSpace (as_Status s);
          status = (if st = '''' then ''active'' else st)
      in NewActor (as_UserID s) username (TrimSpace (as_Priv s)) status)"

section \<open>The operator of a request\<close>

record Operator =
  op_ID :: uint64
  op_Name :: string
  op_Role :: string
  op_RequestID :: string
  op_SourceIP :: string

definition zero_operator :: Operator where
  "zero_operator = \<lparr>op_ID = 0, op_Name = '''', op_Role = '''', op_RequestID = '''', op_SourceIP = ''''\<rparr>"

definition operator_from_actor :: "Actor option \<Rightarrow> Operator \<Rightarrow> Operator" where
  "operator_from_actor a op =
     (case a of
        None \<Rightarrow> op
      | Some ac \<Rightarrow> op\<lparr>op_ID := ac_ID ac, op_Name := TrimSpace (ac_Username ac), op_Role := TrimSpace (ac_Role ac)\<rparr>)"

definition operator_from_principal :: "Principal option \<Rightarrow> Operator \<Rightarrow> Operator" where
  "operator_from_principal p op =
     (case p of
        None \<Rightarrow> op
      | Some pr \<Rightarrow>
          (let op1 = (if op_ID op = 0 then op\<lparr>op_ID := pr_UserID pr\<rparr> else op);
               op2 = (if op_Name op1 = '''' then op1\<lparr>op_Name := TrimSpace (pr_Username pr)\<rparr> else op1)
           in if op_Role op2 = '''' then op2\<lparr>op_Role := TrimSpace (pr_Role pr)\<rparr> else op2))"

definition operator_from_metadata :: "RequestMetadata option \<Rightarrow> Operator \<Rightarrow> Operator" where
  "operator_from_metadata m op =
     (case m of
        None \<Rightarrow> op
      | Some md \<Rightarrow> op\<lparr>op_RequestID := TrimSpace (rm_RequestID md), op_SourceIP := TrimSpace (rm_SourceIP md)\<rparr>)"

definition ResolveOperator :: "gocontext \<Rightarrow> Operator" where
  "ResolveOperator cx =
     operator_from_metadata (RequestMetadataFromContext cx)
       (operator_from_principal (PrincipalFromContext cx)
         (operator_from_actor (ActorFromContext cx) zero_operator))"

definition EnrichActionWithOperator :: "gocontext \<Rightarrow> InspectionAction \<Rightarrow> InspectionAction" where
  "EnrichActionWithOperator cx a =
     (let op = ResolveOperator cx;
          a1 = (if act_OperatorID a = 0 then a\<lparr>act_OperatorID := op_ID op\<rparr> else a);
          a2 = (if TrimSpace (act_OperatorName a1) = '''' then a1\<lparr>act_OperatorName := op_Name op\<rparr> else a1)
      in a2\<lparr>act_RequestID := op_RequestID op, act_SourceIP := op_SourceIP op\<rparr>)"

definition EnrichOperationLogWithOperator :: "gocontext \<Rightarrow> InspectionOperationLog \<Rightarrow> InspectionOperationLog" where
  "EnrichOperationLogWithOperator cx l =
     (let op = ResolveOperator cx;
          l1 = (if log_OperatorID l = 0 then l\<lparr>log_OperatorID := op_ID op\<rparr> else l);
          l2 = (if TrimSpace (log_OperatorName l1) = '''' then l1\<lparr>log_OperatorName := op_Name op\<rparr> else l1)
      in l2\<lparr>log_RequestID := op_RequestID op, log_SourceIP := op_SourceIP op\<rparr>)"

definition EnrichFieldChangeLogsWithOperator ::
    "gocontext \<Rightarrow> InspectionFieldChangeLog list \<Rightarrow> InspectionFieldChangeLog list" where
  "EnrichFieldChangeLogsWithOperator cx logs =
     (let op = ResolveOperator cx in
      map (\<lambda>l. let l1 = (if fcl_OperatorID l = 0 then l\<lparr>fcl_OperatorID := op_ID op\<rparr> else l);
                   l2 = (if TrimSpace (fcl_OperatorName l1) = '''' then l1\<lparr>fcl_OperatorName := op_Name op\<rparr> else l1)
               in l2\<lparr>fcl_RequestID := op_RequestID op, fcl_SourceIP := op_SourceIP op\<rparr>) logs)"

section \<open>The organisation of a request\<close>

definition CurrentOrgID :: "gocontext \<Rightarrow> goerr + uint64" where
  "CurrentOrgID cx =
     (case AdminSessionFromContext cx of
        None \<Rightarrow> Inl (Sentinel ErrUnauthorized)
      | Some s \<Rightarrow> if as_OrgID s = 0 then Inl (Sentinel ErrUnauthorized) else Inr (as_OrgID s))"

lemma CurrentOrgID_nonzero: "CurrentOrgID cx = Inr i \<Longrightarrow> i \<noteq> 0"
  by (auto simp: CurrentOrgID_def split: option.splits if_splits)

section \<open>Query parameters\<close>

record param =
  pa_Raw :: string
  pa_IsSet :: bool

definition Uint64Param_Parse :: "string \<Rightarrow> uint64 option" where
  "Uint64Param_Parse raw = ParseUint64 (TrimSpace raw)"

definition OptionalUint64Param_Value :: "param \<Rightarrow> uint64 option" where
  "OptionalUint64Param_Value p = (if \<not> pa_IsSet p then Some 0 else ParseUint64 (TrimSpace (pa_Raw p)))"

definition OptionalIntParam_Value :: "param \<Rightarrow> int option" where
  "OptionalIntParam_Value p = (if \<not> pa_IsSet p then Some 0 else Atoi (TrimSpace (pa_Raw p)))"

definition OptionalBoolParam_Ptr :: "param \<Rightarrow> bool option option" where
  "OptionalBoolParam_Ptr p =
     (if \<not> pa_IsSet p then Some None else map_option Some (ParseBool (TrimSpace (pa_Raw p))))"

definition OptionalInt8Param_Ptr :: "param \<Rightarrow> int8 option option" where
  "OptionalInt8Param_Ptr p =
     (if \<not> pa_IsSet p then Some None else map_option Some (ParseInt8 (TrimSpace (pa_Raw p))))"

definition OptionalTimeParam_Ptr :: "param \<Rightarrow> gotime option option" where
  "OptionalTimeParam_Ptr p =
     (if \<not> pa_IsSet p then Some None else map_option Some (parse_rfc3339 (TrimSpace (pa_Raw p))))"

text \<open>
  How huma fills a parameter: it writes the text through \<open>Receiver\<close>, which is the first field, and
  tells the parameter by \<open>OnParamSet\<close> whether the request had it.
\<close>

definition Uint64Param_Receiver :: "string \<Rightarrow> string \<Rightarrow> string" where
  "Uint64Param_Receiver raw p = raw"

definition OptionalUint64Param_Receiver :: "string \<Rightarrow> param \<Rightarrow> param" where
  "OptionalUint64Param_Receiver raw p = p\<lparr>pa_Raw := raw\<rparr>"

definition OptionalUint64Param_OnParamSet :: "bool \<Rightarrow> param \<Rightarrow> param" where
  "OptionalUint64Param_OnParamSet isSet p = p\<lparr>pa_IsSet := isSet\<rparr>"

definition OptionalIntParam_Receiver :: "string \<Rightarrow> param \<Rightarrow> param" where
  "OptionalIntParam_Receiver raw p = p\<lparr>pa_Raw := raw\<rparr>"

definition OptionalIntParam_OnParamSet :: "bool \<Rightarrow> param \<Rightarrow> param" where
  "OptionalIntParam_OnParamSet isSet p = p\<lparr>pa_IsSet := isSet\<rparr>"

definition OptionalBoolParam_Receiver :: "string \<Rightarrow> param \<Rightarrow> param" where
  "OptionalBoolParam_Receiver raw p = p\<lparr>pa_Raw := raw\<rparr>"

definition OptionalBoolParam_OnParamSet :: "bool \<Rightarrow> param \<Rightarrow> param" where
  "OptionalBoolParam_OnParamSet isSet p = p\<lparr>pa_IsSet := isSet\<rparr>"

definition OptionalInt8Param_Receiver :: "string \<Rightarrow> param \<Rightarrow> param" where
  "OptionalInt8Param_Receiver raw p = p\<lparr>pa_Raw := raw\<rparr>"

definition OptionalInt8Param_OnParamSet :: "bool \<Rightarrow> param \<Rightarrow> param" where
  "OptionalInt8Param_OnParamSet isSet p = p\<lparr>pa_IsSet := isSet\<rparr>"

definition OptionalTimeParam_Receiver :: "string \<Rightarrow> param \<Rightarrow> param" where
  "OptionalTimeParam_Receiver raw p = p\<lparr>pa_Raw := raw\<rparr>"

definition OptionalTimeParam_OnParamSet :: "bool \<Rightarrow> param \<Rightarrow> param" where
  "OptionalTimeParam_OnParamSet isSet p = p\<lparr>pa_IsSet := isSet\<rparr>"

text \<open>A parameter the request does not have never fails and reads as its default, whatever text it holds.\<close>

lemma unset_params:
  "OptionalUint64Param_Value (OptionalUint64Param_OnParamSet False p) = Some 0"
  "OptionalIntParam_Value (OptionalIntParam_OnParamSet False p) = Some 0"
  "OptionalBoolParam_Ptr (OptionalBoolParam_OnParamSet False p) = Some None"
  "OptionalInt8Param_Ptr (OptionalInt8Param_OnParamSet False p) = Some None"
  "OptionalTimeParam_Ptr (OptionalTimeParam_OnParamSet False p) = Some None"
  by (simp_all add: OptionalUint64Param_Value_def OptionalUint64Param_OnParamSet_def OptionalIntParam_Value_def
      OptionalIntParam_OnParamSet_def OptionalBoolParam_Ptr_def OptionalBoolParam_OnParamSet_def OptionalInt8Param_Ptr_def
      OptionalInt8Param_OnParamSet_def OptionalTimeParam_Ptr_def OptionalTimeParam_OnParamSet_def)

text \<open>\<open>ValidateOptionalOrgID\<close>: \<open>True\<close> stands for the nil error.\<close>

definition ValidateOptionalOrgID :: "string \<Rightarrow> bool" where
  "ValidateOptionalOrgID raw = (TrimSpace raw = '''' \<or> Uint64Param_Parse raw \<noteq> None)"

section \<open>Response envelope\<close>

record 'a Envelope =
  en_Code :: int
  en_Message :: string
  en_Data :: "'a option"

record 'a EnvelopeOutput =
  out_Status :: int
  out_Body :: "'a Envelope"

definition response_OK :: "string \<Rightarrow> 'a \<Rightarrow> 'a Envelope" where
  "response_OK message d = \<lparr>en_Code = 0, en_Message = message, en_Data = Some d\<rparr>"

definition response_Fail :: "int \<Rightarrow> string \<Rightarrow> 'a Envelope" where
  "response_Fail code message = \<lparr>en_Code = code, en_Message = message, en_Data = None\<rparr>"

definition SuccessOKEnvelope :: "int \<Rightarrow> string \<Rightarrow> 'a \<Rightarrow> 'a EnvelopeOutput" where
  "SuccessOKEnvelope status message d = \<lparr>out_Status = status, out_Body = response_OK message d\<rparr>"

definition SuccessCreatedEnvelope :: "string \<Rightarrow> 'a \<Rightarrow> 'a EnvelopeOutput" where
  "SuccessCreatedEnvelope message d = \<lparr>out_Status = 201, out_Body = response_OK message d\<rparr>"

definition FailureOKEnvelope :: "int \<Rightarrow> string \<Rightarrow> 'a EnvelopeOutput" where
  "FailureOKEnvelope status message = \<lparr>out_Status = status, out_Body = response_Fail status message\<rparr>"

definition FailureCreatedEnvelope :: "int \<Rightarrow> string \<Rightarrow> 'a EnvelopeOutput" where
  "FailureCreatedEnvelope status message = \<lparr>out_Status = status, out_Body = response_Fail status message\<rparr>"

section \<open>Pages\<close>

definition NormalizePage :: "int \<Rightarrow> int \<Rightarrow> int \<times> int" where
  "NormalizePage page pageSize =
     (let page1 = (if page \<le> 0 then 1 else page);
          size1 = (if pageSize \<le> 0 then 20 else pageSize);
          size2 = (if size1 > 100 then 100 else size1)
      in (page1, size2))"

text \<open>
  \<open>Offset((page - 1) * pageSize).Limit(pageSize)\<close>. The product is an \<open>int\<close> of 64 bits and
  wraps; \<open>gorm\<close> writes no \<open>OFFSET\<close> for a value that is not positive.
\<close>

definition wrap64 :: "int \<Rightarrow> int" where
  "wrap64 x = (x + 2 ^ 63) mod 2 ^ 64 - 2 ^ 63"

definition page_rows :: "int \<Rightarrow> int \<Rightarrow> 'r list \<Rightarrow> 'r list" where
  "page_rows page pageSize rs = take (nat pageSize) (drop (nat (wrap64 ((page - 1) * pageSize))) rs)"

lemma NormalizePage_bounds:
  "NormalizePage page pageSize = (p, s) \<Longrightarrow> 1 \<le> p \<and> 1 \<le> s \<and> s \<le> 100"
  by (auto simp: NormalizePage_def Let_def split: if_splits)

lemma NormalizePage_id: "1 \<le> p \<Longrightarrow> 1 \<le> s \<Longrightarrow> s \<le> 100 \<Longrightarrow> NormalizePage p s = (p, s)"
  by (simp add: NormalizePage_def)

lemma NormalizePage_idem: "NormalizePage (fst (NormalizePage p s)) (snd (NormalizePage p s)) = NormalizePage p s"
  by (cases "NormalizePage p s") (auto dest: NormalizePage_bounds intro: NormalizePage_id)

lemma wrap64_id: "- (2 ^ 63) \<le> x \<Longrightarrow> x < 2 ^ 63 \<Longrightarrow> wrap64 x = x"
  by (simp add: wrap64_def)

lemma length_page_rows: "length (page_rows p s rs) \<le> nat s"
  by (simp add: page_rows_def)

lemma set_page_rows: "set (page_rows p s rs) \<subseteq> set rs"
  unfolding page_rows_def by (meson set_drop_subset set_take_subset subset_trans)

lemma page_rows_eq:
  assumes "1 \<le> s" and "s \<le> 100" and "int k < 2 ^ 56"
  shows "page_rows (int k + 1) s rs = take (nat s) (drop (k * nat s) rs)"
proof -
  have "int k * s < 2 ^ 56 * 2 ^ 7"
    using assms by (intro mult_strict_mono) auto
  then have "wrap64 (int k * s) = int k * s"
    using assms(1) by (intro wrap64_id) (auto intro: order_trans [of _ 0])
  with assms(1) show ?thesis by (simp add: page_rows_def nat_mult_distrib)
qed

lemma concat_slices: "concat (map (\<lambda>k. take n (drop (k * n) xs)) [0..<m]) = take (m * n) xs"
proof (induction m)
  case (Suc m)
  have "take (m * n) xs @ take n (drop (m * n) xs) = take (m * n + n) xs"
    by (simp add: take_add)
  with Suc show ?case by (simp add: add.commute)
qed simp

text \<open>
  The contract of a paged query: with no database failure it returns the requested page of
  the matching rows, in their order, and their number, and changes no table.
\<close>

locale paged_listing =
  fixes lister :: "int \<Rightarrow> int \<Rightarrow> world \<Rightarrow> ('r list \<times> int) res"
    and matching :: "world \<Rightarrow> 'r list"
  assumes lister_ok:
      "no_faults w \<Longrightarrow> NormalizePage p s = (p', s') \<Longrightarrow>
         \<exists>w'. lister p s w = (Inr (page_rows p' s' (matching w), int (length (matching w))), w')
              \<and> store w' = store w"
begin

lemma page_result:
  assumes "no_faults w" and "1 \<le> s" and "s \<le> 100" and "int k < 2 ^ 56"
  shows "fst (lister (int k + 1) s w) =
           Inr (take (nat s) (drop (k * nat s) (matching w)), int (length (matching w)))"
proof -
  have "NormalizePage (int k + 1) s = (int k + 1, s)" using assms(2,3) by (simp add: NormalizePage_id)
  from lister_ok [OF assms(1) this] show ?thesis
    using page_rows_eq [OF assms(2,3,4)] by auto
qed

text \<open>Reading the pages one after the other yields every matching row exactly once.\<close>

lemma pages_cover:
  assumes "no_faults w" and "1 \<le> s" and "s \<le> 100" and "int m \<le> 2 ^ 56"
    and "length (matching w) \<le> m * nat s"
  shows "concat (map (\<lambda>k. case fst (lister (int k + 1) s w) of Inl e \<Rightarrow> [] | Inr (rs, _) \<Rightarrow> rs) [0..<m]) =
           matching w"
proof -
  have eq: "map (\<lambda>k. case fst (lister (int k + 1) s w) of Inl e \<Rightarrow> [] | Inr (rs, _) \<Rightarrow> rs) [0..<m] =
        map (\<lambda>k. take (nat s) (drop (k * nat s) (matching w))) [0..<m]"
    using assms(1,2,3,4) by (intro map_cong) (auto simp: page_result)
  show ?thesis unfolding eq using assms(5) by (simp add: concat_slices)
qed

end

text \<open>
  \<open>Count\<close> followed by \<open>Offset(...).Limit(...).Find(...)\<close> on the same query, as every listing of
  the service does it, and the order \<open>create_at DESC, id DESC\<close>.
\<close>

definition count_and_page :: "(db \<Rightarrow> 'r list) \<Rightarrow> int \<Rightarrow> int \<Rightarrow> world \<Rightarrow> ('r list \<times> int) res" where
  "count_and_page q page pageSize w =
     go_try (db_query (\<lambda>d. int (length (q d))) w) (\<lambda>total w.
       go_try (db_query (\<lambda>d. page_rows page pageSize (q d)) w) (\<lambda>items w.
         (Inr (items, total), w)))"

definition newest_first :: "('r \<Rightarrow> instant) \<Rightarrow> ('r \<Rightarrow> uint64) \<Rightarrow> 'r list \<Rightarrow> 'r list" where
  "newest_first at key rs = sort_key (\<lambda>r. - at r) (sort_key (\<lambda>r. - int (key r)) rs)"

lemma newest_first_set [simp]: "set (newest_first at key rs) = set rs"
  by (simp add: newest_first_def)

lemma newest_first_length [simp]: "length (newest_first at key rs) = length rs"
  by (simp add: newest_first_def)

lemma newest_first_sorted: "sorted (map (\<lambda>r. - at r) (newest_first at key rs))"
  by (simp add: newest_first_def)

lemma count_and_page_ok [stmt_simps]:
  "no_faults w \<Longrightarrow> count_and_page q p s w =
     (Inr (page_rows p s (q (store w)), int (length (q (store w)))), advance (advance w))"
  by (simp add: count_and_page_def stmt_simps)

lemma count_and_page_Inr:
  "count_and_page q p s w = (Inr (items, n), w') \<Longrightarrow>
     items = page_rows p s (q (store w)) \<and> n = int (length (q (store w))) \<and> store w' = store w"
  by (auto simp: count_and_page_def go_try_def dest!: db_query_Inr split: prod.splits sum.splits)

lemma count_and_page_keeps [frame]: "keeps g (count_and_page q p s)"
  unfolding count_and_page_def by (intro frame)

lemma paged_listing_by_count:
  assumes "\<And>p s p' s' w. NormalizePage p s = (p', s') \<Longrightarrow> lister p s w = count_and_page (q w) p' s' w"
  shows "paged_listing lister (\<lambda>w. q w (store w))"
  by unfold_locales (auto simp: assms count_and_page_ok)

section \<open>Identifiers of a request\<close>

text \<open>The loop that starts \<open>uniqueUint64s\<close>, in \<open>tasks\<close> and in \<open>actions\<close>; \<open>seen\<close> are the values kept so far, in order.\<close>

fun collect_unique :: "uint64 list \<Rightarrow> uint64 list \<Rightarrow> uint64 list" where
  "collect_unique [] seen = seen"
| "collect_unique (v # vs) seen =
     (if v = 0 then collect_unique vs seen
      else if v \<in> set seen then collect_unique vs seen
      else collect_unique vs (seen @ [v]))"

lemma collect_unique_facts:
  "distinct seen \<Longrightarrow> 0 \<notin> set seen \<Longrightarrow> distinct (collect_unique vs seen) \<and> set (collect_unique vs seen) = set seen \<union> (set vs - {0})"
  by (induction vs seen rule: collect_unique.induct) auto

section \<open>Replies\<close>

text \<open>
  The two idioms of the route handlers: a parameter that does not parse answers 400, and an
  error of the service answers what \<open>statusFromError\<close> makes of it.
\<close>

definition or_bad_request ::
    "'x option \<Rightarrow> string \<Rightarrow> ('x \<Rightarrow> world \<Rightarrow> 'o EnvelopeOutput \<times> world) \<Rightarrow> world \<Rightarrow> 'o EnvelopeOutput \<times> world" where
  "or_bad_request v message k w =
     (case v of None \<Rightarrow> (FailureOKEnvelope 400 message, w) | Some x \<Rightarrow> k x w)"

definition or_failure ::
    "(goerr \<Rightarrow> int \<times> string) \<Rightarrow> 'x res \<Rightarrow> ('x \<Rightarrow> world \<Rightarrow> 'o EnvelopeOutput \<times> world) \<Rightarrow> 'o EnvelopeOutput \<times> world" where
  "or_failure statusFromError r k =
     (case r of
        (Inl e, w) \<Rightarrow> (FailureOKEnvelope (fst (statusFromError e)) (snd (statusFromError e)), w)
      | (Inr x, w) \<Rightarrow> k x w)"

definition guard_true :: "bool \<Rightarrow> unit option" where
  "guard_true b = (if b then Some () else None)"

lemma or_bad_request_Some:
  assumes "or_bad_request v message k w = (out, w')" and "out_Status out < 400"
  obtains x where "v = Some x" and "k x w = (out, w')"
  using assms by (auto simp: or_bad_request_def FailureOKEnvelope_def split: option.splits)

section \<open>Confinement to an organisation\<close>

lemma go_try_pure_store:
  "(\<And>x v. store (snd (k x v)) = store v) \<Longrightarrow> store (snd (go_try r k)) = store (snd r)"
  by (auto simp: go_try_def split: prod.split sum.split)

lemma count_and_page_store [simp]: "store (snd (count_and_page q p s w)) = store w"
  using count_and_page_keeps [of "\<lambda>d. d" q p s] by (simp add: keeps_def)

definition session_org :: "gocontext \<Rightarrow> uint64 option" where
  "session_org cx = (case CurrentOrgID cx of Inl _ \<Rightarrow> None | Inr i \<Rightarrow> Some i)"

definition reply_items :: "('o \<Rightarrow> 'r list) \<Rightarrow> 'o EnvelopeOutput \<Rightarrow> 'r list" where
  "reply_items sel out = (case en_Data (out_Body out) of None \<Rightarrow> [] | Some d \<Rightarrow> sel d)"

lemma reply_items_simps [simp]:
  "reply_items sel (FailureOKEnvelope st msg) = []" "reply_items sel (SuccessOKEnvelope st msg d) = sel d"
  by (simp_all add: reply_items_def FailureOKEnvelope_def SuccessOKEnvelope_def response_Fail_def response_OK_def)

text \<open>A handler keeps the tables and answers only with rows of one organisation.\<close>

definition confined :: "('r \<Rightarrow> uint64) \<Rightarrow> ('o \<Rightarrow> 'r list) \<Rightarrow> uint64 option \<Rightarrow> (world \<Rightarrow> 'o EnvelopeOutput \<times> world) \<Rightarrow> bool" where
  "confined org sel owner h =
     (\<forall>w. store (snd (h w)) = store w \<and> (\<forall>r \<in> set (reply_items sel (fst (h w))). Some (org r) = owner))"

lemma confined_bad_request: "(\<And>x. v = Some x \<Longrightarrow> confined org sel owner (k x)) \<Longrightarrow> confined org sel owner (or_bad_request v msg k)"
  by (auto simp: confined_def or_bad_request_def split: option.split)

lemma confined_failure:
  assumes "\<And>w. store (snd (f w)) = store w"
    and "\<And>x w w'. f w = (Inr x, w') \<Longrightarrow> store (snd (k x w')) = store w' \<and> (\<forall>r \<in> set (reply_items sel (fst (k x w'))). Some (org r) = owner)"
  shows "confined org sel owner (\<lambda>w. or_failure sfe (f w) k)"
  unfolding confined_def
proof (intro allI)
  fix w
  show "store (snd (or_failure sfe (f w) k)) = store w \<and> (\<forall>r \<in> set (reply_items sel (fst (or_failure sfe (f w) k))). Some (org r) = owner)"
    using assms(1) [of w] assms(2) [of w] by (auto simp: or_failure_def split: prod.split sum.split)
qed

lemma confined_org:
  "(\<And>i. CurrentOrgID cx = Inr i \<Longrightarrow> confined org sel (Some i) (k i)) \<Longrightarrow>
   confined org sel (session_org cx) (\<lambda>w. or_failure sfe (CurrentOrgID cx, w) k)"
  by (auto simp: confined_def or_failure_def session_org_def split: sum.split)

text \<open>
  The same for a service call: it keeps the tables and what it returns belongs to one
  organisation. A route that answers with the result of such a call is confined.
\<close>

definition owned :: "('r \<Rightarrow> uint64) \<Rightarrow> ('o \<Rightarrow> 'r list) \<Rightarrow> uint64 \<Rightarrow> (world \<Rightarrow> 'o res) \<Rightarrow> bool" where
  "owned org sel i f =
     (\<forall>w. store (snd (f w)) = store w \<and> (case fst (f w) of Inl e \<Rightarrow> True | Inr x \<Rightarrow> (\<forall>r \<in> set (sel x). org r = i)))"

lemma ownedI:
  assumes "\<And>w. store (snd (f w)) = store w" and "\<And>x r w w'. f w = (Inr x, w') \<Longrightarrow> r \<in> set (sel x) \<Longrightarrow> org r = i"
  shows "owned org sel i f"
  unfolding owned_def
proof (intro allI conjI)
  fix w
  show "store (snd (f w)) = store w" by (rule assms(1))
  show "case fst (f w) of Inl e \<Rightarrow> True | Inr x \<Rightarrow> \<forall>r\<in>set (sel x). org r = i"
    using assms(2) [of w] by (cases "f w") (auto split: sum.split)
qed

lemma confined_service:
  "owned org sel i f \<Longrightarrow> confined org sel (Some i) (\<lambda>w. or_failure sfe (f w) (\<lambda>result w. (SuccessOKEnvelope st msg result, w)))"
proof (rule confined_failure)
  assume "owned org sel i f"
  then show "store (snd (f w)) = store w" for w by (simp add: owned_def)
  fix x w w'
  assume f: "f w = (Inr x, w')"
  have "case fst (f w) of Inl e \<Rightarrow> True | Inr x \<Rightarrow> \<forall>r \<in> set (sel x). org r = i"
    using \<open>owned org sel i f\<close> by (simp only: owned_def)
  with f have "\<forall>r \<in> set (sel x). org r = i" by simp
  then show "store (snd (SuccessOKEnvelope st msg x, w')) = store w' \<and>
      (\<forall>r \<in> set (reply_items sel (fst (SuccessOKEnvelope st msg x, w'))). Some (org r) = Some i)" by simp
qed

end
