(* ===== verification/GoJson.thy ===== *)
theory GoJson
  imports GoConv
begin

text \<open>
  \<open>encoding/json\<close> as the sources use it. \<open>marshal\<close> prints a value the way
  \<open>json.Marshal\<close> does (no white space, HTML-safe escapes, invalid UTF-8 replaced);
  \<open>json_parse\<close> accepts exactly one JSON value surrounded by white space, as
  \<open>json.Unmarshal\<close> does before it fills the destination. The round trip
  \<open>json_parse (marshal j) = Some j\<close> holds for every value whose strings are valid UTF-8.

  The parser recurses on a fuel argument. Opening a bracket spends two units and a byte, a
  further element or field one unit and a byte, so twice the length of the text plus one
  is enough; \<open>json_parse\<close> starts with that. The nesting limit of 10000 of the Go decoder is
  far above what the service stores and is left out.
\<close>

section \<open>Values and printing\<close>

datatype json =
    JNull
  | JBool bool
  | JNum string
  | JStr string
  | JArr "json list"
  | JObj "(string \<times> json) list"

definition hex_digit :: "nat \<Rightarrow> char" where
  "hex_digit n = (if n < 10 then chr (48 + n) else chr (87 + n))"

text \<open>The escape of one ASCII byte; \<open>CHR 0x5C\<close> is the backslash, \<open>CHR 0x22\<close> the quote.\<close>

definition esc_ascii :: "char \<Rightarrow> string" where
  "esc_ascii c =
     (let b = byte c in
      if b = 34 \<or> b = 92 then [CHR 0x5C, c]
      else if b = 8 then [CHR 0x5C, CHR ''b'']
      else if b = 12 then [CHR 0x5C, CHR ''f'']
      else if b = 10 then [CHR 0x5C, CHR ''n'']
      else if b = 13 then [CHR 0x5C, CHR ''r'']
      else if b = 9 then [CHR 0x5C, CHR ''t'']
      else if b < 32 \<or> b = 60 \<or> b = 62 \<or> b = 38
        then [CHR 0x5C, CHR ''u'', CHR ''0'', CHR ''0'', hex_digit (b div 16), hex_digit (b mod 16)]
      else [c])"

function json_escape :: "string \<Rightarrow> string" where
  "json_escape [] = []"
| "json_escape (c # cs) =
     (let (r, n) = DecodeRune (c # cs) in
      if byte c < 128 then esc_ascii c @ json_escape cs
      else if r = RuneError \<and> n = 1 then [CHR 0x5C, CHR ''u'', CHR ''f'', CHR ''f'', CHR ''f'', CHR ''d''] @ json_escape cs
      else if r = 8232 \<or> r = 8233
        then [CHR 0x5C, CHR ''u'', CHR ''2'', CHR ''0'', CHR ''2'', hex_digit (r mod 16)] @ json_escape (drop n (c # cs))
      else take n (c # cs) @ json_escape (drop n (c # cs)))"
  by pat_completeness auto
termination
proof (relation "measure length")
  fix c cs x r n
  assume "x = DecodeRune (c # cs)" and "(r, n) = x"
  then have "1 \<le> n" using DecodeRune_width [of "c # cs"] by (metis list.discI snd_conv)
  then show "(drop n (c # cs), c # cs) \<in> measure length"
    and "(drop n (c # cs), c # cs) \<in> measure length" by simp_all
qed simp_all

declare json_escape.simps(2) [simp del]

definition quote :: "string \<Rightarrow> string" where
  "quote s = CHR 0x22 # json_escape s @ [CHR 0x22]"

fun marshal :: "json \<Rightarrow> string"
  and marshal_elems :: "json list \<Rightarrow> string"
  and marshal_fields :: "(string \<times> json) list \<Rightarrow> string" where
  "marshal JNull = ''null''"
| "marshal (JBool b) = (if b then ''true'' else ''false'')"
| "marshal (JNum l) = l"
| "marshal (JStr s) = quote s"
| "marshal (JArr js) = CHR ''['' # marshal_elems js @ '']''"
| "marshal (JObj kvs) = CHR ''{'' # marshal_fields kvs @ ''}''"
| "marshal_elems [] = []"
| "marshal_elems [j] = marshal j"
| "marshal_elems (j # j2 # js) = marshal j @ '','' @ marshal_elems (j2 # js)"
| "marshal_fields [] = []"
| "marshal_fields [(k, j)] = quote k @ '':'' @ marshal j"
| "marshal_fields ((k, j) # kv2 # kvs) = quote k @ '':'' @ marshal j @ '','' @ marshal_fields (kv2 # kvs)"

section \<open>Parsing\<close>

fun skip_ws :: "string \<Rightarrow> string" where
  "skip_ws [] = []"
| "skip_ws (c # cs) = (if byte c \<in> {32, 9, 10, 13} then skip_ws cs else c # cs)"

definition hex_val :: "char \<Rightarrow> nat option" where
  "hex_val c =
     (let b = byte c in
      if 48 \<le> b \<and> b \<le> 57 then Some (b - 48)
      else if 97 \<le> b \<and> b \<le> 102 then Some (b - 87)
      else if 65 \<le> b \<and> b \<le> 70 then Some (b - 55)
      else None)"

fun hex4 :: "string \<Rightarrow> (nat \<times> string) option" where
  "hex4 (a # b # c # d # rest) =
     (case (hex_val a, hex_val b, hex_val c, hex_val d) of
        (Some w, Some x, Some y, Some z) \<Rightarrow> Some (w * 4096 + x * 256 + y * 16 + z, rest)
      | _ \<Rightarrow> None)"
| "hex4 _ = None"

text \<open>
  The rune of a \<open>\\u\<close> escape: two surrogates that form a pair are one rune, any other
  surrogate is the replacement rune.
\<close>

definition unicode_escape :: "string \<Rightarrow> (string \<times> string) option" where
  "unicode_escape s =
     (case hex4 s of
        None \<Rightarrow> None
      | Some (r, rest) \<Rightarrow>
          if 55296 \<le> r \<and> r \<le> 57343 then
            (case rest of
               b # u # rest2 \<Rightarrow>
                 (case (if b = CHR 0x5C \<and> u = CHR ''u'' then hex4 rest2 else None) of
                    Some (r2, rest3) \<Rightarrow>
                      if r < 56320 \<and> 56320 \<le> r2 \<and> r2 \<le> 57343
                      then Some (EncodeRune ((r - 55296) * 1024 + (r2 - 56320) + 65536), rest3)
                      else Some (EncodeRune RuneError, rest)
                  | None \<Rightarrow> Some (EncodeRune RuneError, rest))
             | _ \<Rightarrow> Some (EncodeRune RuneError, rest))
          else Some (EncodeRune r, rest))"

fun parse_escape :: "string \<Rightarrow> (string \<times> string) option" where
  "parse_escape [] = None"
| "parse_escape (c # cs) =
     (if c = CHR 0x22 \<or> c = CHR 0x5C \<or> c = CHR ''/'' then Some ([c], cs)
      else if c = CHR ''b'' then Some ([CHR 0x08], cs)
      else if c = CHR ''f'' then Some ([CHR 0x0C], cs)
      else if c = CHR ''n'' then Some ([CHR 0x0A], cs)
      else if c = CHR ''r'' then Some ([CHR 0x0D], cs)
      else if c = CHR ''t'' then Some ([CHR 0x09], cs)
      else if c = CHR ''u'' then unicode_escape cs
      else None)"

lemma hex4_shorter: "hex4 s = Some (r, rest) \<Longrightarrow> length rest < length s"
  by (induction s rule: hex4.induct) (auto split: option.splits)

lemma unicode_escape_shorter: "unicode_escape s = Some (out, rest) \<Longrightarrow> length rest < length s"
  by (auto simp: unicode_escape_def split: option.splits prod.splits if_splits list.splits
      dest!: hex4_shorter)

lemma parse_escape_shorter: "parse_escape s = Some (out, rest) \<Longrightarrow> length rest < length s"
  by (cases s) (auto split: if_splits dest: unicode_escape_shorter)

text \<open>The characters of a string up to its closing quote.\<close>

function parse_str :: "string \<Rightarrow> (string \<times> string) option" where
  "parse_str [] = None"
| "parse_str (c # cs) =
     (if c = CHR 0x22 then Some ([], cs)
      else if byte c < 32 then None
      else if c = CHR 0x5C then
        (case parse_escape cs of
           None \<Rightarrow> None
         | Some (out, rest) \<Rightarrow> map_option (\<lambda>(s, t). (out @ s, t)) (parse_str rest))
      else (let (r, n) = DecodeRune (c # cs) in
            map_option (\<lambda>(s, t). (EncodeRune r @ s, t)) (parse_str (drop n (c # cs)))))"
  by pat_completeness auto
termination
proof (relation "measure length")
  fix c :: char and cs x r n
  assume "x = DecodeRune (c # cs)" and "(r, n) = x"
  then have "1 \<le> n" using DecodeRune_width [of "c # cs"] by (metis list.discI snd_conv)
  then show "(drop n (c # cs), c # cs) \<in> measure length" by simp
next
  fix c :: char and cs :: string and x and out rest :: string
  assume "parse_escape cs = Some x" and "(out, rest) = x"
  then show "(rest, c # cs) \<in> measure length" using parse_escape_shorter [of cs out rest] by simp
qed simp

declare parse_str.simps(2) [simp del]

text \<open>Numbers: an optional minus sign, an integer part, optional fraction and exponent.\<close>

definition take_digits :: "string \<Rightarrow> string \<times> string" where
  "take_digits s = (takeWhile is_digit s, dropWhile is_digit s)"

definition parse_int_part :: "string \<Rightarrow> (string \<times> string) option" where
  "parse_int_part s =
     (case s of
        [] \<Rightarrow> None
      | c # cs \<Rightarrow> if c = CHR ''0'' then Some ([c], cs)
                 else if is_digit c then Some (take_digits s) else None)"

definition parse_frac :: "string \<Rightarrow> (string \<times> string) option" where
  "parse_frac s =
     (case s of
        c # d # cs \<Rightarrow> if c = CHR ''.'' then
             (if is_digit d then (let (ds, rest) = take_digits (d # cs) in Some (c # ds, rest)) else None)
           else Some ([], s)
      | [c] \<Rightarrow> if c = CHR ''.'' then None else Some ([], s)
      | [] \<Rightarrow> Some ([], s))"

definition parse_exp :: "string \<Rightarrow> (string \<times> string) option" where
  "parse_exp s =
     (case s of
        [] \<Rightarrow> Some ([], s)
      | c # cs \<Rightarrow>
          if c = CHR ''e'' \<or> c = CHR ''E'' then
            (let (sg, ds) = (case cs of d # r \<Rightarrow> if d = CHR ''+'' \<or> d = CHR ''-'' then ([d], r) else ([], cs)
                                     | [] \<Rightarrow> ([], cs));
                 (digits, rest) = take_digits ds
             in if digits = [] then None else Some (c # sg @ digits, rest))
          else Some ([], s))"

definition parse_num :: "string \<Rightarrow> (string \<times> string) option" where
  "parse_num s =
     (let (sg, s1) = (case s of c # cs \<Rightarrow> if c = CHR ''-'' then ([c], cs) else ([], s) | [] \<Rightarrow> ([], s))
      in case parse_int_part s1 of
           None \<Rightarrow> None
         | Some (i, s2) \<Rightarrow>
             (case parse_frac s2 of
                None \<Rightarrow> None
              | Some (f, s3) \<Rightarrow>
                  (case parse_exp s3 of
                     None \<Rightarrow> None
                   | Some (e, s4) \<Rightarrow> Some (sg @ i @ f @ e, s4))))"

fun parse_value :: "nat \<Rightarrow> string \<Rightarrow> (json \<times> string) option"
  and parse_elems :: "nat \<Rightarrow> string \<Rightarrow> (json list \<times> string) option"
  and parse_fields :: "nat \<Rightarrow> string \<Rightarrow> ((string \<times> json) list \<times> string) option" where
  "parse_value 0 s = None"
| "parse_value (Suc n) s =
     (case skip_ws s of
        [] \<Rightarrow> None
      | c # cs \<Rightarrow>
          if c = CHR 0x22 then map_option (\<lambda>(t, r). (JStr t, r)) (parse_str cs)
          else if c = CHR ''['' then
            (case skip_ws cs of
               [] \<Rightarrow> None
             | d # ds \<Rightarrow> if d = CHR '']'' then Some (JArr [], ds)
                        else map_option (\<lambda>(js, r). (JArr js, r)) (parse_elems n cs))
          else if c = CHR ''{'' then
            (case skip_ws cs of
               [] \<Rightarrow> None
             | d # ds \<Rightarrow> if d = CHR ''}'' then Some (JObj [], ds)
                        else map_option (\<lambda>(kvs, r). (JObj kvs, r)) (parse_fields n cs))
          else if has_prefix ''null'' (c # cs) then Some (JNull, drop 4 (c # cs))
          else if has_prefix ''true'' (c # cs) then Some (JBool True, drop 4 (c # cs))
          else if has_prefix ''false'' (c # cs) then Some (JBool False, drop 5 (c # cs))
          else map_option (\<lambda>(l, r). (JNum l, r)) (parse_num (c # cs)))"
| "parse_elems 0 s = None"
| "parse_elems (Suc n) s =
     (case parse_value n s of
        None \<Rightarrow> None
      | Some (j, rest) \<Rightarrow>
          (case skip_ws rest of
             [] \<Rightarrow> None
           | d # ds \<Rightarrow> if d = CHR '']'' then Some ([j], ds)
                      else if d = CHR '','' then map_option (\<lambda>(js, r). (j # js, r)) (parse_elems n ds)
                      else None))"
| "parse_fields 0 s = None"
| "parse_fields (Suc n) s =
     (case skip_ws s of
        [] \<Rightarrow> None
      | q # qs \<Rightarrow>
          if q \<noteq> CHR 0x22 then None
          else (case parse_str qs of
             None \<Rightarrow> None
           | Some (k, rest) \<Rightarrow>
               (case skip_ws rest of
                  [] \<Rightarrow> None
                | col # rest2 \<Rightarrow>
                    if col \<noteq> CHR '':'' then None
                    else (case parse_value n rest2 of
                       None \<Rightarrow> None
                     | Some (j, rest3) \<Rightarrow>
                         (case skip_ws rest3 of
                            [] \<Rightarrow> None
                          | d # ds \<Rightarrow> if d = CHR ''}'' then Some ([(k, j)], ds)
                                     else if d = CHR '','' then
                                       map_option (\<lambda>(kvs, r). ((k, j) # kvs, r)) (parse_fields n ds)
                                     else None)))))"

definition json_parse :: "string \<Rightarrow> json option" where
  "json_parse s =
     (case parse_value (Suc (2 * length s)) s of
        Some (j, rest) \<Rightarrow> if skip_ws rest = [] then Some j else None
      | None \<Rightarrow> None)"

section \<open>Strings survive the round trip\<close>

function valid_utf8 :: "string \<Rightarrow> bool" where
  "valid_utf8 [] = True"
| "valid_utf8 (c # cs) =
     (let (r, n) = DecodeRune (c # cs) in \<not> (r = RuneError \<and> n = 1) \<and> valid_utf8 (drop n (c # cs)))"
  by pat_completeness auto
termination
proof (relation "measure length")
  fix c cs x r n
  assume "x = DecodeRune (c # cs)" and "(r, n) = x"
  then have "1 \<le> n" using DecodeRune_width [of "c # cs"] by (metis list.discI snd_conv)
  then show "(drop n (c # cs), c # cs) \<in> measure length" by simp
qed simp

declare valid_utf8.simps(2) [simp del]

lemma valid_utf8_ascii: "list_all ascii s \<Longrightarrow> valid_utf8 s"
  by (induction s) (auto simp: valid_utf8.simps(2) ascii_def RuneError_def)

lemma byte_eq_iff: "n < 256 \<Longrightarrow> byte c = n \<longleftrightarrow> c = chr n"
  by auto

lemma hex_val_digit [simp]: "n < 16 \<Longrightarrow> hex_val (hex_digit n) = Some n"
  by (auto simp: hex_val_def hex_digit_def Let_def)

lemma hex_val_zero [simp]: "hex_val (CHR ''0'') = Some 0"
  by (simp add: hex_val_def byte_def)

lemma decode_two:
  assumes "194 \<le> byte c" "byte c \<le> 223" "cont d"
  shows "EncodeRune ((byte c - 192) * 64 + low6 d) = [c, d]"
proof -
  have x: "byte c = 192 + (byte c - 192)" using assms by simp
  have y: "byte d = 128 + low6 d" "low6 d < 64" using assms by (auto simp: low6_def cont_def)
  have r: "128 \<le> (byte c - 192) * 64 + low6 d" "(byte c - 192) * 64 + low6 d < 2048"
    using assms(1,2) y(2) by linarith+
  have "chr (192 + (byte c - 192)) = c" using x by (metis chr_byte)
  moreover have "chr (128 + low6 d) = d" using y by (metis chr_byte)
  ultimately show ?thesis using r y(2) by (simp add: EncodeRune_def)
qed

lemma base64_div [simp]: "a < 64 \<Longrightarrow> (q * 64 + a) div 64 = (q::nat)"
  by simp

lemma base64_mod [simp]: "a < 64 \<Longrightarrow> (q * 64 + a) mod 64 = (a::nat)"
  by simp

lemma div_4096: "(r::nat) div 4096 = r div 64 div 64"
  by (simp flip: div_mult2_eq)

lemma div_262144: "(r::nat) div 262144 = r div 64 div 64 div 64"
  by (simp flip: div_mult2_eq)

lemma decode_three:
  assumes "224 \<le> byte c" "byte c \<le> 239" "second_ok (byte c) d" "cont e"
  shows "EncodeRune ((byte c - 224) * 4096 + low6 d * 64 + low6 e) = [c, d, e]"
proof -
  define x where "x = byte c - 224"
  have d: "128 \<le> byte d" "byte d \<le> 191"
    using assms(3) by (auto simp: second_ok_def second_lo_def second_hi_def split: if_splits)
  have y: "byte d = 128 + low6 d" "low6 d < 64" using d by (auto simp: low6_def)
  have z: "byte e = 128 + low6 e" "low6 e < 64" using assms(4) by (auto simp: low6_def cont_def)
  let ?r = "x * 4096 + low6 d * 64 + low6 e"
  have cx: "byte c = 224 + x" "x < 16" using assms(1,2) by (auto simp: x_def)
  have lo: "x = 0 \<Longrightarrow> 32 \<le> low6 d" using assms(3) cx by (auto simp: second_ok_def second_lo_def low6_def)
  have sur: "x = 13 \<Longrightarrow> low6 d < 32" using assms(3) cx y by (auto simp: second_ok_def second_hi_def)
  have "2048 \<le> ?r" using lo by (cases "x = 0") auto
  moreover have "?r < 65536" using cx(2) y(2) z(2) by linarith
  moreover have "\<not> (55296 \<le> ?r \<and> ?r \<le> 57343)"
  proof
    assume a: "55296 \<le> ?r \<and> ?r \<le> 57343"
    then have "x = 13" using y(2) z(2) by linarith
    with sur a z(2) show False by linarith
  qed
  moreover have r: "?r = (x * 64 + low6 d) * 64 + low6 e" by simp
  have "?r div 4096 = x" "?r div 64 mod 64 = low6 d" "?r mod 64 = low6 e"
    unfolding r div_4096 using y(2) z(2) by (simp_all only: base64_div base64_mod)
  moreover have "chr (224 + x) = c" "chr (128 + low6 d) = d" "chr (128 + low6 e) = e"
    using cx y z by (metis chr_byte)+
  ultimately show ?thesis by (auto simp add: EncodeRune_def simp flip: x_def)
qed

lemma decode_four:
  assumes "240 \<le> byte c" "byte c \<le> 244" "second_ok (byte c) d" "cont e" "cont f"
  shows "EncodeRune ((byte c - 240) * 262144 + low6 d * 4096 + low6 e * 64 + low6 f) = [c, d, e, f]"
proof -
  define x where "x = byte c - 240"
  have d: "128 \<le> byte d" "byte d \<le> 191"
    using assms(3) by (auto simp: second_ok_def second_lo_def second_hi_def split: if_splits)
  have y: "byte d = 128 + low6 d" "low6 d < 64" using d by (auto simp: low6_def)
  have z: "byte e = 128 + low6 e" "low6 e < 64" using assms(4) by (auto simp: low6_def cont_def)
  have v: "byte f = 128 + low6 f" "low6 f < 64" using assms(5) by (auto simp: low6_def cont_def)
  let ?r = "x * 262144 + low6 d * 4096 + low6 e * 64 + low6 f"
  have cx: "byte c = 240 + x" "x \<le> 4" using assms(1,2) by (auto simp: x_def)
  have lo: "x = 0 \<Longrightarrow> 16 \<le> low6 d" using assms(3) cx by (auto simp: second_ok_def second_lo_def low6_def)
  have hi: "x = 4 \<Longrightarrow> low6 d < 16" using assms(3) cx y by (auto simp: second_ok_def second_hi_def)
  have "65536 \<le> ?r" using lo by (cases "x = 0") auto
  moreover have "?r \<le> 1114111"
    using hi cx(2) y(2) z(2) v(2) by (cases "x = 4") linarith+
  moreover have r: "?r = ((x * 64 + low6 d) * 64 + low6 e) * 64 + low6 f" by simp
  have "?r div 262144 = x" "?r div 4096 mod 64 = low6 d" "?r div 64 mod 64 = low6 e" "?r mod 64 = low6 f"
    unfolding r div_4096 div_262144 using y(2) z(2) v(2) by (simp_all only: base64_div base64_mod)
  moreover have "chr (240 + x) = c" "chr (128 + low6 d) = d" "chr (128 + low6 e) = e" "chr (128 + low6 f) = f"
    using cx y z v by (metis chr_byte)+
  ultimately show ?thesis by (simp add: EncodeRune_def flip: x_def)
qed

lemma DecodeRune_valid:
  assumes "DecodeRune (c # cs) = (r, n)" and "128 \<le> byte c" and "\<not> (r = RuneError \<and> n = 1)"
  shows "EncodeRune r = take n (c # cs)" and "DecodeRune (take n (c # cs) @ t) = (r, n)"
    and "drop n (take n (c # cs) @ t) = t"
  using assms
  by (auto simp: Let_def decode_two decode_three decode_four split: if_splits list.splits)

lemma byte_escapes:
  "byte (CHR 0x08) = 8" "byte (CHR 0x0C) = 12" "byte (CHR 0x0A) = 10" "byte (CHR 0x0D) = 13"
  "byte (CHR 0x09) = 9" "byte (CHR 0x22) = 34" "byte (CHR 0x5C) = 92"
  by (simp_all add: byte_def)

lemma parse_str_esc_ascii:
  assumes "byte c < 128"
  shows "parse_str (esc_ascii c @ t) = map_option (\<lambda>(s, r). (c # s, r)) (parse_str t)"
proof -
  have hex: "unicode_escape (CHR ''0'' # CHR ''0'' # hex_digit (byte c div 16) # hex_digit (byte c mod 16) # t) = Some ([c], t)"
    using assms by (simp add: unicode_escape_def EncodeRune_def)
  have c: "byte c = 8 \<Longrightarrow> c = CHR 0x08" "byte c = 12 \<Longrightarrow> c = CHR 0x0C" "byte c = 10 \<Longrightarrow> c = CHR 0x0A"
    "byte c = 13 \<Longrightarrow> c = CHR 0x0D" "byte c = 9 \<Longrightarrow> c = CHR 0x09" "byte c = 34 \<longleftrightarrow> c = CHR 0x22"
    "byte c = 92 \<longleftrightarrow> c = CHR 0x5C"
    by (simp_all add: byte_escapes flip: byte_inject)
  have enc: "EncodeRune (byte c) = [c]" using assms by (simp add: EncodeRune_def)
  have bsl: "byte (CHR 0x5C) = 92" by (simp add: byte_def)
  show ?thesis
    using assms hex c enc bsl
    by (auto simp: esc_ascii_def Let_def parse_str.simps(2) split: option.splits)
qed

lemma parse_str_quote: "parse_str (CHR 0x22 # t) = Some ([], t)"
  by (simp add: parse_str.simps(2))

lemma parse_str_valid:
  assumes "DecodeRune (c # cs) = (r, n)" and "128 \<le> byte c" and "\<not> (r = RuneError \<and> n = 1)"
  shows "parse_str (take n (c # cs) @ t) = map_option (\<lambda>(s, u). (take n (c # cs) @ s, u)) (parse_str t)"
proof -
  note v = DecodeRune_valid [OF assms]
  have "n \<noteq> 0" using DecodeRune_width [of "c # cs"] assms(1) by auto
  then obtain l where l: "take n (c # cs) = c # l" by (cases n) auto
  have "c \<noteq> CHR 0x22" "c \<noteq> CHR 0x5C" "\<not> byte c < 32" using assms(2) by (auto simp: byte_def)
  with v l show ?thesis by (simp add: parse_str.simps(2))
qed

lemma parse_str_line_sep:
  assumes "DecodeRune (c # cs) = (r, n)" and "r = 8232 \<or> r = 8233" and "128 \<le> byte c"
  shows "parse_str ([CHR 0x5C, CHR ''u'', CHR ''2'', CHR ''0'', CHR ''2'', hex_digit (r mod 16)] @ t) =
    map_option (\<lambda>(s, u). (take n (c # cs) @ s, u)) (parse_str t)"
proof -
  have "EncodeRune r = take n (c # cs)"
    using assms by (intro DecodeRune_valid(1)) (auto simp: RuneError_def)
  moreover have "hex_val (CHR ''2'') = Some 2" by (simp add: hex_val_def byte_def)
  ultimately have "unicode_escape (CHR ''2'' # CHR ''0'' # CHR ''2'' # hex_digit (r mod 16) # t) = Some (take n (c # cs), t)"
    using assms(2) by (auto simp: unicode_escape_def)
  moreover have "byte (CHR 0x5C) = 92" by (simp add: byte_def)
  ultimately show ?thesis by (simp add: parse_str.simps(2))
qed

lemma parse_str_json_escape:
  "valid_utf8 s \<Longrightarrow> parse_str (json_escape s @ CHR 0x22 # t) = Some (s, t)"
proof (induction s rule: json_escape.induct)
  case 1
  show ?case by (simp add: parse_str_quote)
next
  case (2 c cs)
  obtain r n where d: "DecodeRune (c # cs) = (r, n)" by fastforce
  with "2.prems" have ok: "\<not> (r = RuneError \<and> n = 1)" and v: "valid_utf8 (drop n (c # cs))"
    by (simp_all add: valid_utf8.simps(2))
  show ?case
  proof (cases "byte c < 128")
    case True
    with d have "n = 1" by auto
    with v have "valid_utf8 cs" by simp
    with True d "2.IH"(1) show ?thesis by (simp add: json_escape.simps(2) parse_str_esc_ascii)
  next
    case False
    then have b: "128 \<le> byte c" by simp
    have IH: "parse_str (json_escape (drop n (c # cs)) @ CHR 0x22 # t) = Some (drop n (c # cs), t)"
      using "2.IH"(3,4) [OF d [symmetric] refl] False ok v by blast
    show ?thesis
    proof (cases "r = 8232 \<or> r = 8233")
      case True
      with d False ok IH parse_str_line_sep [OF d True b] show ?thesis
        by (auto simp add: json_escape.simps(2) simp flip: append.simps)
    next
      case sep: False
      have "json_escape (c # cs) = take n (c # cs) @ json_escape (drop n (c # cs))"
        using d False ok sep by (simp add: json_escape.simps(2))
      with IH parse_str_valid [OF d b ok] show ?thesis by simp
    qed
  qed
qed

section \<open>Numbers survive the round trip\<close>

text \<open>What may follow a number: anything that cannot continue it.\<close>

fun num_stop :: "string \<Rightarrow> bool" where
  "num_stop [] = True"
| "num_stop (c # _) = (\<not> is_digit c \<and> c \<noteq> CHR ''.'' \<and> c \<noteq> CHR ''e'' \<and> c \<noteq> CHR ''E'')"

lemma take_digits_stop:
  "list_all is_digit ds \<Longrightarrow> num_stop rest \<Longrightarrow> take_digits (ds @ rest) = (ds, rest)"
  by (cases rest) (auto simp: take_digits_def takeWhile_append2 dropWhile_append2 list_all_iff)

lemma digit_eq_zero_iff: "n < 10 \<Longrightarrow> digit n = CHR ''0'' \<longleftrightarrow> n = 0"
  by (simp add: byte_digit byte_def [of "CHR ''0''"] flip: byte_inject)

lemma nat_str_0: "nat_str 0 = ''0''"
  by (simp add: nat_str.simps [of 0] digit_eq_zero_iff)

lemma nat_str_no_leading_zero: "0 < n \<Longrightarrow> hd (nat_str n) \<noteq> CHR ''0''"
proof (induction n rule: nat_str.induct)
  case (1 n)
  then show ?case
    by (cases "n < 10") (simp_all add: nat_str.simps [of n] digit_eq_zero_iff)
qed

lemma parse_int_part_nat_str:
  assumes "num_stop rest"
  shows "parse_int_part (nat_str n @ rest) = Some (nat_str n, rest)"
proof (cases "n = 0")
  case True
  then show ?thesis by (simp add: parse_int_part_def nat_str_0)
next
  case False
  obtain c cs where s: "nat_str n = c # cs" by (cases "nat_str n") auto
  with False nat_str_no_leading_zero [of n] nat_str_digits [of n]
  have "c \<noteq> CHR ''0''" "is_digit c" by auto
  moreover have "take_digits ((c # cs) @ rest) = (c # cs, rest)"
    using assms nat_str_digits [of n] s by (intro take_digits_stop) simp_all
  ultimately show ?thesis by (simp add: parse_int_part_def s)
qed

lemma parse_frac_exp_stop: "num_stop rest \<Longrightarrow> parse_frac rest = Some ([], rest) \<and> parse_exp rest = Some ([], rest)"
  by (cases rest) (auto simp: parse_frac_def parse_exp_def split: list.splits)

lemma parse_num_Itoa:
  assumes "num_stop rest"
  shows "parse_num (Itoa i @ rest) = Some (Itoa i, rest)"
proof (cases "i < 0")
  case True
  then show ?thesis
    using assms by (simp add: parse_num_def Itoa_def parse_int_part_nat_str parse_frac_exp_stop)
next
  case False
  obtain c cs where s: "nat_str (nat i) = c # cs" by (cases "nat_str (nat i)") auto
  then have "c \<noteq> CHR ''-''" using nat_str_digits [of "nat i"] digit_not_sign by auto
  moreover have "parse_int_part (c # cs @ rest) = Some (c # cs, rest)"
    using parse_int_part_nat_str [OF assms, of "nat i"] s by simp
  ultimately show ?thesis
    using assms False by (simp add: parse_num_def Itoa_def s parse_frac_exp_stop)
qed

section \<open>Values survive the round trip\<close>

definition int_literal :: "string \<Rightarrow> bool" where
  "int_literal l = (case signed_val l of None \<Rightarrow> False | Some i \<Rightarrow> l = Itoa i)"

fun wf_json :: "json \<Rightarrow> bool"
  and wf_elems :: "json list \<Rightarrow> bool"
  and wf_fields :: "(string \<times> json) list \<Rightarrow> bool" where
  "wf_json JNull = True"
| "wf_json (JBool b) = True"
| "wf_json (JNum l) = int_literal l"
| "wf_json (JStr s) = valid_utf8 s"
| "wf_json (JArr js) = wf_elems js"
| "wf_json (JObj kvs) = wf_fields kvs"
| "wf_elems [] = True"
| "wf_elems (j # js) = (wf_json j \<and> wf_elems js)"
| "wf_fields [] = True"
| "wf_fields ((k, j) # kvs) = (valid_utf8 k \<and> wf_json j \<and> wf_fields kvs)"

text \<open>The fuel a value needs.\<close>

fun need :: "json \<Rightarrow> nat"
  and need_elems :: "json list \<Rightarrow> nat"
  and need_fields :: "(string \<times> json) list \<Rightarrow> nat" where
  "need (JArr js) = Suc (need_elems js)"
| "need (JObj kvs) = Suc (need_fields kvs)"
| "need _ = 1"
| "need_elems [] = 0"
| "need_elems (j # js) = Suc (max (need j) (need_elems js))"
| "need_fields [] = 0"
| "need_fields ((k, j) # kvs) = Suc (max (need j) (need_fields kvs))"

lemma need_bound:
  "wf_json j \<Longrightarrow> need j \<le> 2 * length (marshal j) + 1"
  "wf_elems js \<Longrightarrow> need_elems js \<le> 2 * length (marshal_elems js) + 2"
  "wf_fields kvs \<Longrightarrow> need_fields kvs \<le> 2 * length (marshal_fields kvs) + 2"
  by (induction j and js and kvs rule: marshal_marshal_elems_marshal_fields.induct) auto

lemma int_literalD: "int_literal l \<Longrightarrow> \<exists>i. l = Itoa i"
  by (auto simp: int_literal_def split: option.splits)

lemma int_literal_Itoa [simp]: "int_literal (Itoa i)"
  by (simp add: int_literal_def)

lemma Itoa_head: "\<exists>c cs. Itoa i = c # cs \<and> (is_digit c \<or> c = CHR ''-'')"
  using nat_str_digits [of "nat i"] by (cases "nat_str (nat i)") (auto simp: Itoa_def)

lemma marshal_head:
  assumes "wf_json j"
  shows "\<exists>c cs. marshal j = c # cs \<and> byte c \<notin> {32, 9, 10, 13} \<and> c \<noteq> CHR '']''"
proof (cases j)
  case (JNum l)
  with assms obtain i where "l = Itoa i" using int_literalD by auto
  with JNum Itoa_head [of i] show ?thesis by (auto simp: is_digit_def byte_def)
qed (auto simp: quote_def byte_def)

lemma skip_ws_marshal: "wf_json j \<Longrightarrow> skip_ws (marshal j @ t) = marshal j @ t"
  using marshal_head [of j] by auto

lemma parse_value_num:
  assumes "num_stop rest"
  shows "parse_value (Suc n) (Itoa i @ rest) = Some (JNum (Itoa i), rest)"
proof -
  obtain c cs where s: "Itoa i = c # cs" and c: "is_digit c \<or> c = CHR ''-''" using Itoa_head by blast
  then have "c \<notin> {CHR 0x22, CHR ''['', CHR ''{'', CHR ''n'', CHR ''t'', CHR ''f''}" "byte c \<notin> {32, 9, 10, 13}"
    by (auto simp: is_digit_def byte_def)
  with parse_num_Itoa [OF assms, of i] s show ?thesis by auto
qed

lemma marshal_elems_head:
  assumes "wf_elems js" and "js \<noteq> []"
  shows "\<exists>c cs. marshal_elems js = c # cs \<and> byte c \<notin> {32, 9, 10, 13} \<and> c \<noteq> CHR '']''"
proof -
  obtain j js' where js: "js = j # js'" using assms(2) by (cases js) auto
  then obtain t where "marshal_elems js = marshal j @ t" by (cases js') auto
  with assms(1) js marshal_head [of j] show ?thesis by auto
qed

lemma marshal_fields_head: "kvs \<noteq> [] \<Longrightarrow> \<exists>cs. marshal_fields kvs = CHR 0x22 # cs"
proof -
  assume "kvs \<noteq> []"
  then obtain k j kvs' where "kvs = (k, j) # kvs'" by (cases kvs) auto
  then show ?thesis by (cases kvs') (auto simp: quote_def)
qed

lemma skip_ws_nonspace [simp]: "byte c \<notin> {32, 9, 10, 13} \<Longrightarrow> skip_ws (c # cs) = c # cs"
  by simp

lemma byte_punct [simp]:
  "byte (CHR ''['') = 91" "byte (CHR '']'') = 93" "byte (CHR ''{'') = 123" "byte (CHR ''}'') = 125"
  "byte (CHR '','') = 44" "byte (CHR '':'') = 58" "byte (CHR 0x22) = 34"
  by (simp_all add: byte_def)

lemma not_digit_punct [simp]:
  "\<not> is_digit (CHR '']'')" "\<not> is_digit (CHR ''}'')" "\<not> is_digit (CHR '','')"
  by (simp_all add: is_digit_def)

lemma parse_marshal:
  "wf_json j \<Longrightarrow> need j \<le> n \<Longrightarrow> num_stop rest \<Longrightarrow> parse_value n (marshal j @ rest) = Some (j, rest)"
  "wf_elems js \<Longrightarrow> js \<noteq> [] \<Longrightarrow> need_elems js \<le> n \<Longrightarrow>
     parse_elems n (marshal_elems js @ CHR '']'' # rest) = Some (js, rest)"
  "wf_fields kvs \<Longrightarrow> kvs \<noteq> [] \<Longrightarrow> need_fields kvs \<le> n \<Longrightarrow>
     parse_fields n (marshal_fields kvs @ CHR ''}'' # rest) = Some (kvs, rest)"
proof (induction j and js and kvs arbitrary: n rest and n rest and n rest
    rule: marshal_marshal_elems_marshal_fields.induct)
  case 1
  then show ?case by (cases n) (simp_all add: byte_def)
next
  case (2 b)
  then show ?case by (cases n) (simp_all add: byte_def)
next
  case (3 l)
  then obtain i where "l = Itoa i" using int_literalD [of l] by auto
  moreover obtain m where "n = Suc m" using 3 by (cases n) auto
  ultimately show ?case using 3 by (simp add: parse_value_num del: parse_value.simps)
next
  case (4 s)
  then show ?case by (cases n) (simp_all add: quote_def parse_str_json_escape)
next
  case (5 js)
  then obtain m where n: "n = Suc m" by (cases n) auto
  show ?case
  proof (cases "js = []")
    case False
    with 5 marshal_elems_head [of js] obtain c cs where
      "marshal_elems js = c # cs" "byte c \<notin> {32, 9, 10, 13}" "c \<noteq> CHR '']''" by auto
    with 5 n False show ?thesis by simp
  qed (simp add: n)
next
  case (6 kvs)
  then obtain m where n: "n = Suc m" by (cases n) auto
  show ?case
  proof (cases "kvs = []")
    case False
    with marshal_fields_head obtain cs where "marshal_fields kvs = CHR 0x22 # cs" by blast
    with 6 n False show ?thesis by simp
  qed (simp add: n)
next
  case (8 j)
  then show ?case by (cases n) simp_all
next
  case (9 j j2 js)
  then show ?case by (cases n) simp_all
next
  case (11 k j)
  then show ?case by (cases n) (simp_all add: quote_def parse_str_json_escape)
next
  case (12 k j kv2 kvs)
  then show ?case by (cases n) (simp_all add: quote_def parse_str_json_escape)
qed simp_all

lemma json_parse_marshal: "wf_json j \<Longrightarrow> json_parse (marshal j) = Some j"
  using parse_marshal(1) [of j "Suc (2 * length (marshal j))" "[]"] need_bound(1) [of j]
  by (simp add: json_parse_def del: parse_value.simps)

section \<open>Filling Go values\<close>

text \<open>
  \<open>json.Unmarshal\<close> into a struct: a key selects the field with that name, else the first
  field whose name is equal under case folding, else it is ignored. \<open>null\<close> leaves a value as
  it is. A value of the wrong kind is an error (\<open>None\<close>).
\<close>

definition match_field :: "unicode_tables \<Rightarrow> string list \<Rightarrow> string \<Rightarrow> string option" where
  "match_field ut names k =
     (if k \<in> set names then Some k else find (\<lambda>n. EqualFold ut n k) names)"

fun decode_fields ::
    "unicode_tables \<Rightarrow> string list \<Rightarrow> (string \<Rightarrow> json \<Rightarrow> 's \<Rightarrow> 's option) \<Rightarrow>
     (string \<times> json) list \<Rightarrow> 's \<Rightarrow> 's option" where
  "decode_fields ut names put [] s = Some s"
| "decode_fields ut names put ((k, j) # kvs) s =
     (case match_field ut names k of
        None \<Rightarrow> decode_fields ut names put kvs s
      | Some n \<Rightarrow>
          (case put n j s of
             None \<Rightarrow> None
           | Some s' \<Rightarrow> decode_fields ut names put kvs s'))"

definition decode_struct ::
    "unicode_tables \<Rightarrow> string list \<Rightarrow> (string \<Rightarrow> json \<Rightarrow> 's \<Rightarrow> 's option) \<Rightarrow> json \<Rightarrow> 's \<Rightarrow> 's option" where
  "decode_struct ut names put j s =
     (case j of
        JNull \<Rightarrow> Some s
      | JObj kvs \<Rightarrow> decode_fields ut names put kvs s
      | _ \<Rightarrow> None)"

definition decode_uint64 :: "json \<Rightarrow> uint64 \<Rightarrow> uint64 option" where
  "decode_uint64 j old = (case j of JNull \<Rightarrow> Some old | JNum l \<Rightarrow> ParseUint64 l | _ \<Rightarrow> None)"

definition decode_string :: "json \<Rightarrow> string \<Rightarrow> string option" where
  "decode_string j old = (case j of JNull \<Rightarrow> Some old | JStr s \<Rightarrow> Some s | _ \<Rightarrow> None)"

fun decode_all :: "(json \<Rightarrow> 'a option) \<Rightarrow> json list \<Rightarrow> 'a list option" where
  "decode_all f [] = Some []"
| "decode_all f (j # js) =
     (case f j of None \<Rightarrow> None | Some x \<Rightarrow> map_option ((#) x) (decode_all f js))"

definition decode_slice :: "(json \<Rightarrow> 'a option) \<Rightarrow> json \<Rightarrow> 'a list option" where
  "decode_slice f j = (case j of JNull \<Rightarrow> Some [] | JArr js \<Rightarrow> decode_all f js | _ \<Rightarrow> None)"

definition JUint :: "uint64 \<Rightarrow> json" where
  "JUint n = JNum (Itoa (int n))"

lemma wf_JUint [simp]: "wf_json (JUint n)"
  by (simp add: JUint_def)

lemma decode_JUint: "n < 2 ^ 64 \<Longrightarrow> decode_uint64 (JUint n) old = Some n"
  by (simp add: decode_uint64_def JUint_def Itoa_def ParseUint64_nat_str)

lemma decode_JStr [simp]: "decode_string (JStr s) old = Some s"
  by (simp add: decode_string_def)

lemma decode_all_map: "(\<And>x. x \<in> set xs \<Longrightarrow> f (g x) = Some x) \<Longrightarrow> decode_all f (map g xs) = Some xs"
  by (induction xs) simp_all

lemma wf_elems_iff: "wf_elems js \<longleftrightarrow> (\<forall>j \<in> set js. wf_json j)"
  by (induction js) simp_all

end
