(* ===== verification/QueueTasks.thy ===== *)
theory QueueTasks
  imports GoJson Store
begin

text \<open>
  The queue side of the service: the payload of an inspection task and its JSON form
  (\<open>internal/queue/tasks\<close>), and the Asynq client that enqueues it
  (\<open>internal/queue/asynq\<close>). The Asynq library itself is a parameter: an \<open>enqueue\<close> function
  that takes the task, its task id and an optional queue name.
\<close>

section \<open>Payloads\<close>

definition zero_payload :: ArticleInspectTaskPayload where
  "zero_payload = \<lparr>pl_TaskID = 0, pl_OrgID = 0, pl_TriggerSource = '''', pl_OperatorID = 0, pl_OperatorName = ''''\<rparr>"

definition payload_json :: "ArticleInspectTaskPayload \<Rightarrow> json" where
  "payload_json p =
     JObj [(''task_id'', JUint (pl_TaskID p)), (''orgid'', JUint (pl_OrgID p)),
           (''trigger_source'', JStr (pl_TriggerSource p)),
           (''operator_id'', JUint (pl_OperatorID p)), (''operator_name'', JStr (pl_OperatorName p))]"

definition marshal_payload :: "ArticleInspectTaskPayload \<Rightarrow> string" where
  "marshal_payload p = marshal (payload_json p)"

definition payload_fields :: "string list" where
  "payload_fields = [''task_id'', ''orgid'', ''trigger_source'', ''operator_id'', ''operator_name'']"

definition put_payload_field ::
    "string \<Rightarrow> json \<Rightarrow> ArticleInspectTaskPayload \<Rightarrow> ArticleInspectTaskPayload option" where
  "put_payload_field n j p =
     (if n = ''task_id'' then map_option (\<lambda>v. p\<lparr>pl_TaskID := v\<rparr>) (decode_uint64 j (pl_TaskID p))
      else if n = ''orgid'' then map_option (\<lambda>v. p\<lparr>pl_OrgID := v\<rparr>) (decode_uint64 j (pl_OrgID p))
      else if n = ''trigger_source'' then map_option (\<lambda>v. p\<lparr>pl_TriggerSource := v\<rparr>) (decode_string j (pl_TriggerSource p))
      else if n = ''operator_id'' then map_option (\<lambda>v. p\<lparr>pl_OperatorID := v\<rparr>) (decode_uint64 j (pl_OperatorID p))
      else map_option (\<lambda>v. p\<lparr>pl_OperatorName := v\<rparr>) (decode_string j (pl_OperatorName p)))"

definition unmarshal_payload :: "unicode_tables \<Rightarrow> string \<Rightarrow> ArticleInspectTaskPayload option" where
  "unmarshal_payload ut raw =
     (case json_parse raw of
        None \<Rightarrow> None
      | Some j \<Rightarrow> decode_struct ut payload_fields put_payload_field j zero_payload)"

definition payload_ok :: "ArticleInspectTaskPayload \<Rightarrow> bool" where
  "payload_ok p =
     (pl_TaskID p < 2 ^ 64 \<and> pl_OrgID p < 2 ^ 64 \<and> pl_OperatorID p < 2 ^ 64 \<and>
      valid_utf8 (pl_TriggerSource p) \<and> valid_utf8 (pl_OperatorName p))"

lemma field_names_valid [simp]:
  "valid_utf8 ''task_id''" "valid_utf8 ''orgid''" "valid_utf8 ''trigger_source''"
  "valid_utf8 ''operator_id''" "valid_utf8 ''operator_name''"
  by (simp_all add: valid_utf8_ascii ascii_def byte_def)

lemma wf_payload_json: "payload_ok p \<Longrightarrow> wf_json (payload_json p)"
  by (simp add: payload_ok_def payload_json_def)

lemma unmarshal_marshal_payload:
  assumes "payload_ok p"
  shows "unmarshal_payload ut (marshal_payload p) = Some p"
proof -
  have "json_parse (marshal_payload p) = Some (payload_json p)"
    using wf_payload_json [OF assms] by (simp add: marshal_payload_def json_parse_marshal)
  moreover have "decode_struct ut payload_fields put_payload_field (payload_json p) zero_payload = Some p"
    using assms
    by (simp add: decode_struct_def payload_json_def match_field_def payload_fields_def
        put_payload_field_def decode_JUint payload_ok_def zero_payload_def)
  ultimately show ?thesis by (simp add: unmarshal_payload_def)
qed

section \<open>Tasks of the queue\<close>

definition TypeArticleInspectRunTask :: string where
  "TypeArticleInspectRunTask = ''articleinspect:run-task''"

text \<open>
  A new Asynq task: its type and payload. \<open>json.Marshal\<close> of this struct cannot fail, so the
  error branch of the source is unreachable.
\<close>

definition NewArticleInspectTask :: "ArticleInspectTaskPayload \<Rightarrow> string \<times> string" where
  "NewArticleInspectTask p = (TypeArticleInspectRunTask, marshal_payload p)"

definition DecodeArticleInspectTaskPayload ::
    "unicode_tables \<Rightarrow> (string \<times> string) option \<Rightarrow> goerr + ArticleInspectTaskPayload" where
  "DecodeArticleInspectTaskPayload ut task =
     (case task of
        None \<Rightarrow> Inl (Plain ''task is required'')
      | Some (_, body) \<Rightarrow>
          (case unmarshal_payload ut body of
             None \<Rightarrow> Inl (Wrapf ''decode article inspect payload: '' (JsonError body) '''')
           | Some p \<Rightarrow> Inr p))"

definition articleInspectTaskID :: "ArticleInspectTaskPayload \<Rightarrow> string" where
  "articleInspectTaskID p = ''articleinspect-task-'' @ nat_str (pl_TaskID p)"

text \<open>What \<open>Enqueue\<close> answers: accepted, a task with this id is already there, or an error.\<close>

datatype enqueue_result = Enqueued | TaskIDConflict | EnqueueError goerr

type_synonym enqueuer = "string \<times> string \<Rightarrow> string \<Rightarrow> string option \<Rightarrow> world \<Rightarrow> enqueue_result \<times> world"

definition EnqueueArticleInspectTask ::
    "enqueuer option \<Rightarrow> string \<Rightarrow> ArticleInspectTaskPayload \<Rightarrow> world \<Rightarrow> enqueue_result \<times> world" where
  "EnqueueArticleInspectTask client queueName p w =
     (case client of
        None \<Rightarrow> (EnqueueError (Plain ''enqueuer is required''), w)
      | Some enqueue \<Rightarrow>
          (let q = TrimSpace queueName in
           enqueue (NewArticleInspectTask p) (articleInspectTaskID p) (if q = '''' then None else Some q) w))"

type_synonym dispatcher = "ArticleInspectTaskPayload \<Rightarrow> world \<Rightarrow> goerr option \<times> world"

definition DispatchArticleInspectTask ::
    "enqueuer \<Rightarrow> string \<Rightarrow> dispatcher" where
  "DispatchArticleInspectTask client queueName p w =
     (case EnqueueArticleInspectTask (Some client) queueName p w of
        (Enqueued, w1) \<Rightarrow> (None, w1)
      | (TaskIDConflict, w1) \<Rightarrow> (None, w1)
      | (EnqueueError e, w1) \<Rightarrow> (Some e, w1))"

definition NewArticleInspectTaskDispatcher :: "enqueuer option \<Rightarrow> string \<Rightarrow> dispatcher option" where
  "NewArticleInspectTaskDispatcher client queueName =
     (case client of None \<Rightarrow> None | Some c \<Rightarrow> Some (DispatchArticleInspectTask c queueName))"

text \<open>
  A queue that refuses a task id it holds already, as Asynq documents for the option
  \<open>TaskID\<close>; and a queue that cannot be reached.
\<close>

definition dedup_enqueue :: enqueuer where
  "dedup_enqueue task tid q w =
     (if tid \<in> set (map q_TaskID (queue w)) then (TaskIDConflict, w)
      else (Enqueued, w\<lparr>queue := queue w @ [\<lparr>q_TaskID = tid, q_Type = fst task, q_Payload = snd task\<rparr>]\<rparr>))"

definition failing_enqueue :: enqueuer where
  "failing_enqueue task tid q w = (EnqueueError (Plain ''redis unavailable''), w)"

end
