(* ===== verification/Outbox.thy ===== *)
theory Outbox
  imports Shared QueueTasks
begin

text \<open>
  The transactional outbox (\<open>internal/modules/articleinspect/outbox\<close>): settings, the test
  whether a message may be dispatched, the relay that claims a message under a lease,
  decodes it, hands it to the dispatcher and records the outcome, the batch relay and the
  cleanup of terminal messages.
\<close>

section \<open>Settings\<close>

record OutboxConfig =
  oc_Enabled :: bool
  oc_RelaySpec :: string
  oc_CleanupSpec :: string
  oc_BatchSize :: int
  oc_LeaseDurationSeconds :: int
  oc_MaxAttempts :: int
  oc_DispatchedRetentionHours :: int
  oc_DeadLetterRetentionHours :: int

record TaskOutboxSettings =
  st_LeaseDuration :: duration
  st_MaxAttempts :: int
  st_DispatchedRetention :: duration
  st_DeadLetterRetention :: duration

definition defaultTaskOutboxSettings :: TaskOutboxSettings where
  "defaultTaskOutboxSettings =
     \<lparr>st_LeaseDuration = 30 * Second, st_MaxAttempts = 10,
      st_DispatchedRetention = 7 * 24 * Hour, st_DeadLetterRetention = 30 * 24 * Hour\<rparr>"

text \<open>A product of durations is an \<open>int64\<close> and wraps.\<close>

definition NewTaskOutboxSettings :: "OutboxConfig \<Rightarrow> TaskOutboxSettings" where
  "NewTaskOutboxSettings cfg =
     (let s0 = defaultTaskOutboxSettings;
          s1 = (if oc_LeaseDurationSeconds cfg > 0
                then s0\<lparr>st_LeaseDuration := wrap64 (oc_LeaseDurationSeconds cfg * Second)\<rparr> else s0);
          s2 = (if oc_MaxAttempts cfg > 0 then s1\<lparr>st_MaxAttempts := oc_MaxAttempts cfg\<rparr> else s1);
          s3 = (if oc_DispatchedRetentionHours cfg > 0
                then s2\<lparr>st_DispatchedRetention := wrap64 (oc_DispatchedRetentionHours cfg * Hour)\<rparr> else s2)
      in if oc_DeadLetterRetentionHours cfg > 0
         then s3\<lparr>st_DeadLetterRetention := wrap64 (oc_DeadLetterRetentionHours cfg * Hour)\<rparr> else s3)"

section \<open>Relay\<close>

text \<open>
  The relay of the source, with what it takes from its surroundings: the dispatcher (nil is
  \<open>None\<close>), the case tables and the error texts of the JSON decoder. The logger writes
  nowhere the program reads and is left out.
\<close>

record TaskOutboxRelay =
  rl_hasDB :: bool
  rl_dispatcher :: "dispatcher option"
  rl_settings :: TaskOutboxSettings
  rl_claimOwner :: string
  rl_unicode :: unicode_tables
  rl_jsonText :: "string \<Rightarrow> string"

definition defaultTaskOutboxClaimOwner :: "string option \<Rightarrow> string" where
  "defaultTaskOutboxClaimOwner hostname =
     (case hostname of
        None \<Rightarrow> ''articleinspect-outbox''
      | Some h \<Rightarrow> if TrimSpace h = '''' then ''articleinspect-outbox''
                 else ''articleinspect-outbox@'' @ TrimSpace h)"

definition NewTaskOutboxRelay ::
    "bool \<Rightarrow> dispatcher option \<Rightarrow> string option \<Rightarrow> unicode_tables \<Rightarrow> (string \<Rightarrow> string) \<Rightarrow> TaskOutboxRelay option" where
  "NewTaskOutboxRelay hasDB d hostname ut jt =
     (if \<not> hasDB then None
      else Some \<lparr>rl_hasDB = hasDB, rl_dispatcher = d, rl_settings = defaultTaskOutboxSettings,
                 rl_claimOwner = defaultTaskOutboxClaimOwner hostname, rl_unicode = ut, rl_jsonText = jt\<rparr>)"

definition WithSettings :: "TaskOutboxRelay option \<Rightarrow> TaskOutboxSettings \<Rightarrow> TaskOutboxRelay option" where
  "WithSettings relay s =
     (case relay of
        None \<Rightarrow> None
      | Some r \<Rightarrow>
          (let c0 = rl_settings r;
               c1 = (if st_LeaseDuration s > 0 then c0\<lparr>st_LeaseDuration := st_LeaseDuration s\<rparr> else c0);
               c2 = (if st_MaxAttempts s > 0 then c1\<lparr>st_MaxAttempts := st_MaxAttempts s\<rparr> else c1);
               c3 = (if st_DispatchedRetention s > 0 then c2\<lparr>st_DispatchedRetention := st_DispatchedRetention s\<rparr> else c2);
               c4 = (if st_DeadLetterRetention s > 0 then c3\<lparr>st_DeadLetterRetention := st_DeadLetterRetention s\<rparr> else c3)
           in Some (r\<lparr>rl_settings := c4\<rparr>)))"

definition CanDispatch :: "TaskOutboxRelay option \<Rightarrow> bool" where
  "CanDispatch relay =
     (case relay of None \<Rightarrow> False | Some r \<Rightarrow> rl_hasDB r \<and> \<not> Option.is_none (rl_dispatcher r))"

definition decodeTaskOutboxPayload ::
    "unicode_tables \<Rightarrow> string \<Rightarrow> goerr + ArticleInspectTaskPayload" where
  "decodeTaskOutboxPayload ut raw =
     (case unmarshal_payload ut raw of None \<Rightarrow> Inl (JsonError raw) | Some p \<Rightarrow> Inr p)"

definition retry_due :: "InspectionTaskOutboxMessage \<Rightarrow> instant \<Rightarrow> bool" where
  "retry_due m now = (case ob_NextAttemptAt m of None \<Rightarrow> True | Some t \<Rightarrow> t \<le> now)"

definition lease_over :: "InspectionTaskOutboxMessage \<Rightarrow> instant \<Rightarrow> bool" where
  "lease_over m now = (case ob_ClaimUntil m of None \<Rightarrow> True | Some t \<Rightarrow> t < now)"

definition isDispatchableMessage :: "InspectionTaskOutboxMessage \<Rightarrow> instant \<Rightarrow> bool" where
  "isDispatchableMessage m now =
     (let s = TrimSpace (ob_Status m) in
      if s = TaskOutboxStatusPending then retry_due m now
      else if s = TaskOutboxStatusClaimed then lease_over m now
      else False)"

definition classifyDispatchError :: "goerr option \<Rightarrow> string" where
  "classifyDispatchError err =
     (case err of
        None \<Rightarrow> ''''
      | Some e \<Rightarrow> if errors_is e ErrTaskOutboxDispatcherUnavailable
                 then TaskOutboxErrorDispatcherUnavailable else TaskOutboxErrorDispatch)"

definition backoffForAttempt :: "int64 \<Rightarrow> duration" where
  "backoffForAttempt n =
     (if n \<le> 3 then 15 * Second else if n \<le> 10 then Minute else 5 * Minute)"

definition shouldDeadLetter :: "TaskOutboxRelay \<Rightarrow> InspectionTaskOutboxMessage \<Rightarrow> string \<Rightarrow> bool" where
  "shouldDeadLetter r m code =
     (if code = TaskOutboxErrorPayloadDecode \<or> code = TaskOutboxErrorUnsupportedMessage then True
      else st_MaxAttempts (rl_settings r) > 0 \<and>
           ob_AttemptCount m + 1 \<ge> st_MaxAttempts (rl_settings r))"

text \<open>The statement of \<open>claimMessage\<close>: which rows it matches and what it writes.\<close>

definition claim_match :: "string \<Rightarrow> nat \<Rightarrow> instant \<Rightarrow> InspectionTaskOutboxMessage \<Rightarrow> bool" where
  "claim_match s i now m =
     (ob_ID m = i \<and> ob_Status m = s \<and>
      (if s = TaskOutboxStatusPending then retry_due m now else lease_over m now))"

definition set_claimed ::
    "TaskOutboxRelay \<Rightarrow> instant \<Rightarrow> InspectionTaskOutboxMessage \<Rightarrow> InspectionTaskOutboxMessage" where
  "set_claimed r now m =
     m\<lparr>ob_Status := TaskOutboxStatusClaimed, ob_ClaimedBy := rl_claimOwner r,
       ob_ClaimedAt := Some now, ob_ClaimUntil := Some (now + st_LeaseDuration (rl_settings r))\<rparr>"

definition claimMessage ::
    "TaskOutboxRelay \<Rightarrow> InspectionTaskOutboxMessage \<Rightarrow> instant \<Rightarrow> world \<Rightarrow>
     (bool \<times> InspectionTaskOutboxMessage) res" where
  "claimMessage r message now w =
     (if \<not> rl_hasDB r then (Inl (Sentinel OutboxErrInvalidTaskInput), w)
      else if \<not> isDispatchableMessage message now then (Inr (False, message), w)
      else
        (let s = TrimSpace (ob_Status message) in
         if s \<noteq> TaskOutboxStatusPending \<and> s \<noteq> TaskOutboxStatusClaimed then (Inr (False, message), w)
         else
           go_try (db_update t_outbox t_outbox_update (claim_match s (ob_ID message) now)
                     (\<lambda>at m. (set_claimed r now m)\<lparr>ob_UpdateAt := at\<rparr>) w)
             (\<lambda>n w. if n = 0 then (Inr (False, message), w)
                    else (Inr (True, set_claimed r now message), w))))"

definition set_dispatched ::
    "TaskOutboxRelay \<Rightarrow> int64 \<Rightarrow> instant \<Rightarrow> InspectionTaskOutboxMessage \<Rightarrow> InspectionTaskOutboxMessage" where
  "set_dispatched r attempts now m =
     m\<lparr>ob_Status := TaskOutboxStatusDispatched, ob_AttemptCount := attempts, ob_ClaimedBy := '''',
       ob_ClaimedAt := None, ob_ClaimUntil := None, ob_NextAttemptAt := None, ob_LastError := '''',
       ob_LastErrorCode := '''', ob_LastAttemptAt := Some now, ob_DeadLetteredAt := None,
       ob_DispatchedAt := Some now, ob_RetainedUntil := Some (now + st_DispatchedRetention (rl_settings r))\<rparr>"

definition markDispatched ::
    "TaskOutboxRelay \<Rightarrow> InspectionTaskOutboxMessage \<Rightarrow> instant \<Rightarrow> world \<Rightarrow> unit res" where
  "markDispatched r message now w =
     go_try (db_update t_outbox t_outbox_update (\<lambda>m. ob_ID m = ob_ID message)
               (\<lambda>at m. (set_dispatched r (ob_AttemptCount message + 1) now m)\<lparr>ob_UpdateAt := at\<rparr>) w)
       (\<lambda>_ w. (Inr (), w))"

definition error_or_code :: "TaskOutboxRelay \<Rightarrow> goerr \<Rightarrow> string \<Rightarrow> string" where
  "error_or_code r e code =
     (let t = TrimSpace (error_text (rl_jsonText r) e) in if t = '''' then code else t)"

definition set_retry ::
    "int64 \<Rightarrow> instant \<Rightarrow> string \<Rightarrow> string \<Rightarrow> InspectionTaskOutboxMessage \<Rightarrow> InspectionTaskOutboxMessage" where
  "set_retry attempts now code text m =
     m\<lparr>ob_Status := TaskOutboxStatusPending, ob_AttemptCount := attempts, ob_ClaimedBy := '''',
       ob_ClaimedAt := None, ob_ClaimUntil := None,
       ob_NextAttemptAt := Some (now + backoffForAttempt attempts), ob_LastError := text,
       ob_LastErrorCode := code, ob_LastAttemptAt := Some now, ob_DeadLetteredAt := None\<rparr>"

definition scheduleRetry ::
    "TaskOutboxRelay \<Rightarrow> InspectionTaskOutboxMessage \<Rightarrow> instant \<Rightarrow> string \<Rightarrow> goerr \<Rightarrow> world \<Rightarrow> int64 res" where
  "scheduleRetry r message now code e w =
     (let attempts = ob_AttemptCount message + 1 in
      go_try (db_update t_outbox t_outbox_update (\<lambda>m. ob_ID m = ob_ID message)
                (\<lambda>at m. (set_retry attempts now code (error_or_code r e code) m)\<lparr>ob_UpdateAt := at\<rparr>) w)
        (\<lambda>_ w. (Inr attempts, w)))"

definition set_dead ::
    "TaskOutboxRelay \<Rightarrow> int64 \<Rightarrow> instant \<Rightarrow> string \<Rightarrow> string \<Rightarrow>
     InspectionTaskOutboxMessage \<Rightarrow> InspectionTaskOutboxMessage" where
  "set_dead r attempts now code text m =
     m\<lparr>ob_Status := TaskOutboxStatusDeadLetter, ob_AttemptCount := attempts, ob_ClaimedBy := '''',
       ob_ClaimedAt := None, ob_ClaimUntil := None, ob_NextAttemptAt := None, ob_LastError := text,
       ob_LastErrorCode := code, ob_LastAttemptAt := Some now, ob_DeadLetteredAt := Some now,
       ob_RetainedUntil := Some (now + st_DeadLetterRetention (rl_settings r))\<rparr>"

definition moveToDeadLetter ::
    "TaskOutboxRelay \<Rightarrow> InspectionTaskOutboxMessage \<Rightarrow> instant \<Rightarrow> string \<Rightarrow> goerr \<Rightarrow> world \<Rightarrow> int64 res" where
  "moveToDeadLetter r message now code e w =
     (let attempts = ob_AttemptCount message + 1 in
      go_try (db_update t_outbox t_outbox_update (\<lambda>m. ob_ID m = ob_ID message)
                (\<lambda>at m. (set_dead r attempts now code (error_or_code r e code) m)\<lparr>ob_UpdateAt := at\<rparr>) w)
        (\<lambda>_ w. (Inr attempts, w)))"

text \<open>What \<open>DispatchMessage\<close> does with a message it has claimed.\<close>

definition deliverClaimed ::
    "TaskOutboxRelay \<Rightarrow> dispatcher \<Rightarrow> InspectionTaskOutboxMessage \<Rightarrow> instant \<Rightarrow> world \<Rightarrow> unit res" where
  "deliverClaimed r disp message now w =
     (case decodeTaskOutboxPayload (rl_unicode r) (ob_Payload message) of
        Inl err \<Rightarrow>
          go_try (moveToDeadLetter r message now TaskOutboxErrorPayloadDecode err w) (\<lambda>_ w. (Inl err, w))
      | Inr payload \<Rightarrow>
          if TrimSpace (ob_MessageType message) \<noteq> TaskOutboxMessageTypeRunTask then
            (let err = Plain ''unsupported outbox message type'' in
             go_try (moveToDeadLetter r message now TaskOutboxErrorUnsupportedMessage err w) (\<lambda>_ w. (Inl err, w)))
          else
            (case disp payload w of
               (Some err, w1) \<Rightarrow>
                 (let code = classifyDispatchError (Some err);
                      failed = (Inl (Wrapf ''dispatch article inspect task: '' err '''') :: goerr + unit)
                  in if shouldDeadLetter r message code
                     then go_try (moveToDeadLetter r message now code err w1) (\<lambda>_ w. (failed, w))
                     else go_try (scheduleRetry r message now code err w1) (\<lambda>_ w. (failed, w)))
             | (None, w1) \<Rightarrow> markDispatched r message now w1))"

definition DispatchMessage :: "TaskOutboxRelay option \<Rightarrow> uint64 \<Rightarrow> world \<Rightarrow> unit res" where
  "DispatchMessage relay outboxID w =
     (case relay of
        None \<Rightarrow> (Inl (Sentinel OutboxErrInvalidTaskInput), w)
      | Some r \<Rightarrow>
          if \<not> rl_hasDB r \<or> outboxID = 0 then (Inl (Sentinel OutboxErrInvalidTaskInput), w)
          else
            (case rl_dispatcher r of
               None \<Rightarrow> (Inl (Sentinel ErrTaskOutboxDispatcherUnavailable), w)
             | Some disp \<Rightarrow>
                 go_try (db_first t_outbox ob_ID (\<lambda>m. ob_ID m = outboxID) w) (\<lambda>message w.
                   let (now, w) = time_now w in
                   if \<not> isDispatchableMessage message now then (Inr (), w)
                   else go_try (claimMessage r message now w) (\<lambda>(claimed, cm) w.
                     if \<not> claimed then (Inr (), w) else deliverClaimed r disp cm now w))))"

definition TryDispatchMessage :: "TaskOutboxRelay option \<Rightarrow> uint64 \<Rightarrow> world \<Rightarrow> bool \<times> world" where
  "TryDispatchMessage relay outboxID w =
     (case relay of
        None \<Rightarrow> (False, w)
      | Some r \<Rightarrow>
          if \<not> rl_hasDB r then (False, w)
          else if Option.is_none (rl_dispatcher r) then (False, w)
          else (case DispatchMessage relay outboxID w of
                  (Inl _, w1) \<Rightarrow> (False, w1)
                | (Inr _, w1) \<Rightarrow> (True, w1)))"

section \<open>Batches\<close>

record TaskOutboxDispatchReport =
  rp_Scanned :: int
  rp_Claimed :: int
  rp_Dispatched :: int
  rp_Retried :: int
  rp_DeadLettered :: int
  rp_Failed :: int

definition zero_report :: TaskOutboxDispatchReport where
  "zero_report = \<lparr>rp_Scanned = 0, rp_Claimed = 0, rp_Dispatched = 0, rp_Retried = 0, rp_DeadLettered = 0, rp_Failed = 0\<rparr>"

definition due_messages :: "instant \<Rightarrow> nat \<Rightarrow> db \<Rightarrow> InspectionTaskOutboxMessage list" where
  "due_messages now limit d =
     take limit (sort_key ob_AttemptCount (sort_key ob_ID (filter (\<lambda>m.
       (ob_Status m = TaskOutboxStatusPending \<and> retry_due m now) \<or>
       (ob_Status m = TaskOutboxStatusClaimed \<and> lease_over m now)) (t_outbox d))))"

definition tally ::
    "InspectionTaskOutboxMessage \<Rightarrow> InspectionTaskOutboxMessage \<Rightarrow>
     TaskOutboxDispatchReport \<Rightarrow> TaskOutboxDispatchReport" where
  "tally item updated rp =
     (let rp1 = (if ob_AttemptCount updated > ob_AttemptCount item
                 then rp\<lparr>rp_Claimed := rp_Claimed rp + 1\<rparr> else rp);
          s = TrimSpace (ob_Status updated)
      in if s = TaskOutboxStatusDispatched then rp1\<lparr>rp_Dispatched := rp_Dispatched rp1 + 1\<rparr>
         else if s = TaskOutboxStatusPending then
           (if ob_AttemptCount updated > ob_AttemptCount item \<or>
               TrimSpace (ob_Status item) = TaskOutboxStatusClaimed
            then rp1\<lparr>rp_Retried := rp_Retried rp1 + 1\<rparr> else rp1)
         else if s = TaskOutboxStatusDeadLetter then rp1\<lparr>rp_DeadLettered := rp_DeadLettered rp1 + 1\<rparr>
         else rp1)"

text \<open>The loop of \<open>DispatchPending\<close>; it returns the report together with the error, if any.\<close>

fun dispatch_items ::
    "TaskOutboxRelay option \<Rightarrow> InspectionTaskOutboxMessage list \<Rightarrow> TaskOutboxDispatchReport \<Rightarrow> world \<Rightarrow>
     (TaskOutboxDispatchReport \<times> goerr option) \<times> world" where
  "dispatch_items relay [] rp w = ((rp, None), w)"
| "dispatch_items relay (item # items) rp w =
     (case DispatchMessage relay (ob_ID item) w of
        (r, w1) \<Rightarrow>
          (let rp1 = (case r of Inl _ \<Rightarrow> rp\<lparr>rp_Failed := rp_Failed rp + 1\<rparr> | Inr _ \<Rightarrow> rp) in
           case db_first t_outbox ob_ID (\<lambda>m. ob_ID m = ob_ID item) w1 of
             (Inl e, w2) \<Rightarrow> ((rp1, Some e), w2)
           | (Inr updated, w2) \<Rightarrow> dispatch_items relay items (tally item updated rp1) w2))"

definition DispatchPending ::
    "TaskOutboxRelay option \<Rightarrow> int \<Rightarrow> world \<Rightarrow> (TaskOutboxDispatchReport \<times> goerr option) \<times> world" where
  "DispatchPending relay limit w =
     (case relay of
        None \<Rightarrow> ((zero_report, Some (Sentinel OutboxErrInvalidTaskInput)), w)
      | Some r \<Rightarrow>
          if \<not> rl_hasDB r then ((zero_report, Some (Sentinel OutboxErrInvalidTaskInput)), w)
          else if Option.is_none (rl_dispatcher r) then
            ((zero_report, Some (Sentinel ErrTaskOutboxDispatcherUnavailable)), w)
          else
            (let lim = (if limit \<le> 0 then 20 else limit);
                 (now, w1) = time_now w
             in case db_query (due_messages now (nat lim)) w1 of
                  (Inl e, w2) \<Rightarrow> ((zero_report, Some e), w2)
                | (Inr items, w2) \<Rightarrow>
                    dispatch_items relay items (zero_report\<lparr>rp_Scanned := int (length items)\<rparr>) w2))"

definition RelayPendingArticleInspectTaskOutbox ::
    "TaskOutboxRelay option \<Rightarrow> int \<Rightarrow> world \<Rightarrow> int res" where
  "RelayPendingArticleInspectTaskOutbox relay limit w =
     (case DispatchPending relay limit w of
        ((rp, Some e), w1) \<Rightarrow> (Inl e, w1)
      | ((rp, None), w1) \<Rightarrow> (Inr (rp_Dispatched rp), w1))"

section \<open>Cleanup\<close>

definition expired :: "instant \<Rightarrow> InspectionTaskOutboxMessage \<Rightarrow> bool" where
  "expired now m =
     ((ob_Status m = TaskOutboxStatusDispatched \<or> ob_Status m = TaskOutboxStatusDeadLetter) \<and>
      (case ob_RetainedUntil m of None \<Rightarrow> False | Some t \<Rightarrow> t < now))"

definition expired_ids :: "instant \<Rightarrow> nat \<Rightarrow> db \<Rightarrow> nat list" where
  "expired_ids now limit d =
     map ob_ID (take limit (sort_key (\<lambda>m. the (ob_RetainedUntil m))
       (sort_key ob_ID (filter (expired now) (t_outbox d)))))"

definition CleanupArticleInspectTaskOutbox :: "TaskOutboxRelay option \<Rightarrow> int \<Rightarrow> world \<Rightarrow> int res" where
  "CleanupArticleInspectTaskOutbox relay limit w =
     (case relay of
        None \<Rightarrow> (Inl (Sentinel OutboxErrInvalidTaskInput), w)
      | Some r \<Rightarrow>
          if \<not> rl_hasDB r then (Inl (Sentinel OutboxErrInvalidTaskInput), w)
          else
            (let lim = (if limit \<le> 0 then 100 else limit);
                 (now, w1) = time_now w
             in go_try (db_query (expired_ids now (nat lim)) w1) (\<lambda>ids w.
                  if ids = [] then (Inr 0, w)
                  else go_try (db_delete t_outbox t_outbox_update (\<lambda>m. ob_ID m \<in> set ids) w) (\<lambda>n w.
                    (Inr (int n), w)))))"


section \<open>Claiming\<close>

abbreviation outbox_ok :: "world \<Rightarrow> bool" where
  "outbox_ok \<equiv> keys_ok TOutbox t_outbox ob_ID"

lemma set_claimed_simps [simp]:
  "ob_ID (set_claimed r now m) = ob_ID m"
  "ob_AttemptCount (set_claimed r now m) = ob_AttemptCount m"
  "ob_Payload (set_claimed r now m) = ob_Payload m"
  "ob_MessageType (set_claimed r now m) = ob_MessageType m"
  "ob_Status (set_claimed r now m) = TaskOutboxStatusClaimed"
  "ob_ClaimUntil (set_claimed r now m) = Some (now + st_LeaseDuration (rl_settings r))"
  by (simp_all add: set_claimed_def)

lemma claim_match_id: "claim_match s i now m \<Longrightarrow> ob_ID m = i"
  by (simp add: claim_match_def)

text \<open>On a table with distinct ids a claim matches the row it was made for and no other.\<close>

lemma claim_match_unique:
  assumes "outbox_ok w" and "m \<in> set (t_outbox (store w))" and "claim_match s (ob_ID m) now m"
    and "x \<in> set (t_outbox (store w))"
  shows "claim_match s (ob_ID m) now x \<longleftrightarrow> ob_ID x = ob_ID m"
proof
  assume "ob_ID x = ob_ID m"
  with assms(1,2,4) have "x = m"
    by (metis (no_types, lifting) inj_onD distinct_map keys_ok_def)
  with assms(3) show "claim_match s (ob_ID m) now x" by simp
qed (rule claim_match_id)

lemma claim_rows:
  assumes "outbox_ok w" and "m \<in> set (t_outbox (store w))" and "claim_match s (ob_ID m) now m"
  shows "rows_update (claim_match s (ob_ID m) now) f (t_outbox (store w)) =
           rows_update (\<lambda>x. ob_ID x = ob_ID m) f (t_outbox (store w))"
    and "length (filter (claim_match s (ob_ID m) now) (t_outbox (store w))) = 1"
proof -
  note u = claim_match_unique [OF assms]
  show "rows_update (claim_match s (ob_ID m) now) f (t_outbox (store w)) =
          rows_update (\<lambda>x. ob_ID x = ob_ID m) f (t_outbox (store w))"
    using u by (auto simp: rows_update_def)
  have "filter (claim_match s (ob_ID m) now) (t_outbox (store w)) =
        filter (\<lambda>x. ob_ID x = ob_ID m) (t_outbox (store w))"
    using u by (rule filter_cong [OF refl])
  also have "\<dots> = [m]" using assms(1,2) by (simp add: keys_ok_def filter_key_unique)
  finally show "length (filter (claim_match s (ob_ID m) now) (t_outbox (store w))) = 1" by simp
qed

text \<open>A message that the relay may take: it has a live status and is due.\<close>

definition takeable :: "InspectionTaskOutboxMessage \<Rightarrow> instant \<Rightarrow> bool" where
  "takeable m now =
     ((ob_Status m = TaskOutboxStatusPending \<and> retry_due m now) \<or>
      (ob_Status m = TaskOutboxStatusClaimed \<and> lease_over m now))"

lemma takeable_dispatchable: "takeable m now \<Longrightarrow> isDispatchableMessage m now"
  by (auto simp: takeable_def isDispatchableMessage_def)

lemma takeable_match: "takeable m now \<Longrightarrow> claim_match (TrimSpace (ob_Status m)) (ob_ID m) now m"
  by (auto simp: takeable_def claim_match_def)

lemma claimMessage_ok:
  assumes "no_faults w" and "outbox_ok w" and "m \<in> set (t_outbox (store w))" and "takeable m now"
    and "rl_hasDB r"
  shows "claimMessage r m now w =
    (Inr (True, set_claimed r now m),
     (advance w)\<lparr>store := t_outbox_update (rows_update (\<lambda>x. ob_ID x = ob_ID m)
        (\<lambda>x. (set_claimed r now x)\<lparr>ob_UpdateAt := clock w (Suc (tick w))\<rparr>)) (store w)\<rparr>)"
proof -
  note mt = takeable_match [OF assms(4)]
  note c = claim_rows [OF assms(2,3) mt]
  have s: "TrimSpace (ob_Status m) = ''pending'' \<or> TrimSpace (ob_Status m) = ''claimed''"
    using assms(4) by (auto simp: takeable_def)
  have upd: "t_outbox_update (rows_update (claim_match (TrimSpace (ob_Status m)) (ob_ID m) now) f) (store w) =
     t_outbox_update (rows_update (\<lambda>x. ob_ID x = ob_ID m) f) (store w)" for f
    using c(1) by (cases "store w") simp
  show ?thesis
    using assms takeable_dispatchable [OF assms(4)] s c(2)
    by (auto simp: claimMessage_def stmt_simps upd Let_def)
qed

section \<open>Delivery\<close>

text \<open>The dispatcher interface: it may change the queue and nothing else.\<close>

locale task_dispatcher =
  fixes disp :: dispatcher
  assumes only_queue: "\<exists>q. snd (disp p w) = w\<lparr>queue := q\<rparr>"
begin

lemma disp_frame:
  assumes "disp p w = (e, w')"
  shows "store w' = store w" "autoinc w' = autoinc w" "tick w' = tick w" "clock w' = clock w" "faults w' = faults w"
    "no_faults w' = no_faults w"
  using only_queue [of p w] assms by (auto simp: no_faults_def)

end

lemma DispatchArticleInspectTask_only_queue:
  assumes "\<And>t tid q w. \<exists>qq. snd (c t tid q w) = w\<lparr>queue := qq\<rparr>"
  shows "task_dispatcher (DispatchArticleInspectTask c qn)"
proof
  fix p w
  obtain e w' where "EnqueueArticleInspectTask (Some c) qn p w = (e, w')" by fastforce
  moreover from this have "\<exists>q. w' = w\<lparr>queue := q\<rparr>"
    using assms by (metis EnqueueArticleInspectTask_def option.simps(5) snd_conv)
  ultimately show "\<exists>q. snd (DispatchArticleInspectTask c qn p w) = w\<lparr>queue := q\<rparr>"
    by (auto simp: DispatchArticleInspectTask_def split: enqueue_result.splits)
qed

interpretation asynq: task_dispatcher "DispatchArticleInspectTask dedup_enqueue qn" for qn
proof (rule DispatchArticleInspectTask_only_queue)
  fix t tid q and w :: world
  have "w = w\<lparr>queue := queue w\<rparr>" by simp
  then show "\<exists>qq. snd (dedup_enqueue t tid q w) = w\<lparr>queue := qq\<rparr>"
    by (metis dedup_enqueue_def snd_conv)
qed


text \<open>A relay that is set up with a database and a dispatcher.\<close>

definition relay_ready :: "TaskOutboxRelay \<Rightarrow> dispatcher \<Rightarrow> bool" where
  "relay_ready r disp = (rl_hasDB r \<and> (case rl_dispatcher r of None \<Rightarrow> False | Some d \<Rightarrow> d = disp))"

lemma relay_readyD: "relay_ready r disp \<Longrightarrow> rl_hasDB r \<and> rl_dispatcher r = Some disp"
  by (auto simp: relay_ready_def split: option.splits)

text \<open>The world after a claim, and the dispatch as the claim followed by the delivery.\<close>

definition claimed_world :: "TaskOutboxRelay \<Rightarrow> InspectionTaskOutboxMessage \<Rightarrow> world \<Rightarrow> world" where
  "claimed_world r m w =
     (let now = clock w (Suc (tick w)); w2 = advance (advance w) in
      (advance w2)\<lparr>store := t_outbox_update (rows_update (\<lambda>x. ob_ID x = ob_ID m)
        (\<lambda>x. (set_claimed r now x)\<lparr>ob_UpdateAt := clock w2 (Suc (tick w2))\<rparr>)) (store w)\<rparr>)"

lemma first_outbox:
  "outbox_ok w \<Longrightarrow> m \<in> set (t_outbox (store w)) \<Longrightarrow>
     first_row ob_ID (\<lambda>x. ob_ID x = ob_ID m) (t_outbox (store w)) = Some m"
  using tb_outbox.first_by_key [of w m "\<lambda>_. True"] by simp

lemma DispatchMessage_takeable:
  assumes "no_faults w" and "outbox_ok w" and "m \<in> set (t_outbox (store w))" and "ob_ID m \<noteq> 0"
    and "takeable m (clock w (Suc (tick w)))" and "relay_ready r disp"
  shows "DispatchMessage (Some r) (ob_ID m) w =
    deliverClaimed r disp (set_claimed r (clock w (Suc (tick w))) m) (clock w (Suc (tick w))) (claimed_world r m w)"
proof -
  let ?now = "clock w (Suc (tick w))" and ?w2 = "advance (advance w)"
  have c: "claimMessage r m ?now ?w2 = (Inr (True, set_claimed r ?now m), claimed_world r m w)"
    using assms relay_readyD [OF assms(6)] by (subst claimMessage_ok) (simp_all add: claimed_world_def Let_def)
  show ?thesis
    using assms relay_readyD [OF assms(6)] takeable_dispatchable [OF assms(5)] c
    by (simp add: DispatchMessage_def stmt_simps first_outbox time_now_def)
qed

section \<open>The invariant of the outbox\<close>

text \<open>
  What every row of the outbox satisfies. The lease columns are filled exactly while a message
  is claimed, terminal messages carry the instant until which they are kept, a delivered
  message has no error and a dead one has an error code.
\<close>

definition no_lease :: "InspectionTaskOutboxMessage \<Rightarrow> bool" where
  "no_lease m = (ob_ClaimedBy m = '''' \<and> ob_ClaimedAt m = None \<and> ob_ClaimUntil m = None)"

definition ob_row_ok :: "InspectionTaskOutboxMessage \<Rightarrow> bool" where
  "ob_row_ok m =
     (0 \<le> ob_AttemptCount m \<and>
      ((ob_Status m = TaskOutboxStatusPending \<and> no_lease m) \<or>
       (ob_Status m = TaskOutboxStatusClaimed \<and> ob_ClaimedAt m \<noteq> None \<and> ob_ClaimUntil m \<noteq> None) \<or>
       (ob_Status m = TaskOutboxStatusDispatched \<and> no_lease m \<and> 0 < ob_AttemptCount m \<and>
        ob_LastErrorCode m = '''' \<and> ob_DispatchedAt m \<noteq> None \<and> ob_RetainedUntil m \<noteq> None) \<or>
       (ob_Status m = TaskOutboxStatusDeadLetter \<and> no_lease m \<and> 0 < ob_AttemptCount m \<and>
        ob_LastErrorCode m \<noteq> '''' \<and> ob_DeadLetteredAt m \<noteq> None \<and> ob_RetainedUntil m \<noteq> None)))"

definition outbox_inv :: "world \<Rightarrow> bool" where
  "outbox_inv w = (outbox_ok w \<and> list_all ob_row_ok (t_outbox (store w)))"

lemma outbox_inv_cong:
  "t_outbox (store w') = t_outbox (store w) \<Longrightarrow> autoinc w' = autoinc w \<Longrightarrow> outbox_inv w' = outbox_inv w"
  by (simp add: outbox_inv_def keys_ok_def)

lemma outbox_inv_row: "outbox_inv w \<Longrightarrow> m \<in> set (t_outbox (store w)) \<Longrightarrow> ob_row_ok m"
  by (simp add: outbox_inv_def list_all_iff)

lemma outbox_update_inv:
  assumes "\<And>i m. ob_ID (f i m) = ob_ID m"
    and "\<And>i m. ob_row_ok m \<Longrightarrow> ob_row_ok (f i m)"
  shows "preserves outbox_inv (db_update t_outbox t_outbox_update P f)"
proof (rule preservesI)
  fix w assume inv: "outbox_inv w"
  then have "outbox_ok (snd (db_update t_outbox t_outbox_update P f w))"
    using tb_outbox.update_keys [OF assms(1)] by (simp add: outbox_inv_def preserves_def)
  moreover have "list_all ob_row_ok (t_outbox (store (snd (db_update t_outbox t_outbox_update P f w))))"
    using inv assms(2)
    by (auto simp: outbox_inv_def db_update_def db_stmt_def rows_update_def list_all_iff split: option.splits)
  ultimately show "outbox_inv (snd (db_update t_outbox t_outbox_update P f w))" by (simp add: outbox_inv_def)
qed

lemma outbox_first_inv: "preserves outbox_inv (db_first sel key P)"
  by (auto simp: preserves_def db_first_def db_stmt_def outbox_inv_def split: option.splits)

lemma row_ok_settled:
  assumes "0 \<le> n"
  shows "ob_row_ok ((set_dispatched r (n + 1) now m)\<lparr>ob_UpdateAt := i\<rparr>)"
    and "ob_row_ok ((set_retry (n + 1) now code t m)\<lparr>ob_UpdateAt := i\<rparr>)"
    and "code \<noteq> '''' \<Longrightarrow> ob_row_ok ((set_dead r (n + 1) now code t m)\<lparr>ob_UpdateAt := i\<rparr>)"
  using assms by (auto simp: ob_row_ok_def no_lease_def set_dispatched_def set_retry_def set_dead_def)

lemma row_ok_claimed: "ob_row_ok m \<Longrightarrow> ob_row_ok ((set_claimed r now m)\<lparr>ob_UpdateAt := i\<rparr>)"
  by (auto simp: ob_row_ok_def set_claimed_def)

lemma claimMessage_inv: "preserves outbox_inv (claimMessage r m now)"
  unfolding claimMessage_def Let_def
  by (intro preserves_if preserves_try preserves_pure outbox_update_inv row_ok_claimed)
     (simp_all add: preserves_pure preserves_if)

lemma settle_inv:
  assumes "0 \<le> ob_AttemptCount m"
  shows "preserves outbox_inv (markDispatched r m now)"
    and "preserves outbox_inv (scheduleRetry r m now code e)"
    and "code \<noteq> '''' \<Longrightarrow> preserves outbox_inv (moveToDeadLetter r m now code e)"
  unfolding markDispatched_def scheduleRetry_def moveToDeadLetter_def Let_def
  using row_ok_settled [OF assms]
  by (intro preserves_try preserves_pure outbox_update_inv;
      simp add: set_dispatched_def set_retry_def set_dead_def)+

lemma classify_nonempty [simp]: "classifyDispatchError (Some e) \<noteq> ''''"
  by (simp add: classifyDispatchError_def)

context task_dispatcher
begin

lemma disp_inv: "outbox_inv w \<Longrightarrow> disp p w = (e, w') \<Longrightarrow> outbox_inv w'"
  using disp_frame by (metis outbox_inv_cong)

lemma deliver_inv:
  assumes "0 \<le> ob_AttemptCount m"
  shows "preserves outbox_inv (deliverClaimed r disp m now)"
proof (rule preservesI)
  fix w assume inv: "outbox_inv w"
  note s = settle_inv [OF assms]
  have "preserves outbox_inv (\<lambda>v. go_try (moveToDeadLetter r m now code e v) (\<lambda>_ w. (x, w)))"
    if "code \<noteq> ''''" for code e and x :: "goerr + unit"
    by (intro preserves_try preserves_pure s(3) that)
  then have dead: "outbox_inv (snd (go_try (moveToDeadLetter r m now code e v) (\<lambda>_ w. (x, w))))"
    if "outbox_inv v" "code \<noteq> ''''" for code e v and x :: "goerr + unit"
    using that by (simp add: preserves_def)
  have "preserves outbox_inv (\<lambda>v. go_try (scheduleRetry r m now code e v) (\<lambda>_ w. (x, w)))"
    for code e and x :: "goerr + unit"
    by (intro preserves_try preserves_pure s(2))
  then have retry: "outbox_inv (snd (go_try (scheduleRetry r m now code e v) (\<lambda>_ w. (x, w))))"
    if "outbox_inv v" for code e v and x :: "goerr + unit"
    using that by (simp add: preserves_def)
  have disp: "outbox_inv w1" if "disp p w = (e, w1)" for p e w1
    using inv that by (rule disp_inv)
  have fin: "outbox_inv (snd (markDispatched r m now v))" if "outbox_inv v" for v
    using s(1) that by (simp add: preserves_def)
  show "outbox_inv (snd (deliverClaimed r disp m now w))"
    using inv dead retry fin disp
    by (auto simp: deliverClaimed_def Let_def split: sum.split prod.split option.split)
qed

lemma DispatchMessage_inv:
  assumes "rl_dispatcher r = Some disp"
  shows "preserves outbox_inv (DispatchMessage (Some r) i)"
proof (rule preservesI)
  fix w assume inv: "outbox_inv w"
  obtain res w1 where first: "db_first t_outbox ob_ID (\<lambda>m. ob_ID m = i) w = (res, w1)" by fastforce
  have inv1: "outbox_inv w1" using outbox_first_inv inv first by (rule preservesD)
  have inv2: "outbox_inv (advance w1)" using inv1 by (simp add: outbox_inv_def)
  show "outbox_inv (snd (DispatchMessage (Some r) i w))"
  proof (cases res)
    case (Inl e)
    then show ?thesis using first inv inv1 assms by (simp add: DispatchMessage_def)
  next
    case (Inr m)
    have "0 \<le> ob_AttemptCount m"
      using db_first_Inr [OF first [unfolded Inr]] first_row_Some outbox_inv_row [OF inv]
      by (metis ob_row_ok_def)
    then have d: "outbox_inv (snd (deliverClaimed r disp (set_claimed r now m) now v))" if "outbox_inv v" for now v
      using deliver_inv that by (simp add: preserves_def)
    obtain cr w3 where cm: "claimMessage r m (clock w1 (tick w1)) (advance w1) = (cr, w3)" by fastforce
    have inv3: "outbox_inv w3" using claimMessage_inv inv2 cm by (rule preservesD)
    have cs: "cr = Inr (False, m) \<or> cr = Inr (True, set_claimed r (clock w1 (tick w1)) m) \<or> (\<exists>e. cr = Inl e)"
      using cm by (auto simp: claimMessage_def Let_def go_try_def split: if_splits prod.splits sum.splits)
    show ?thesis
      using Inr first inv inv2 inv3 assms cm cs d [OF inv3]
      by (auto simp: DispatchMessage_def time_now_def)
  qed
qed

end

lemma dispatch_items_inv:
  assumes "\<And>i. preserves outbox_inv (DispatchMessage relay i)" and "outbox_inv w"
  shows "outbox_inv (snd (dispatch_items relay items rp w))"
  using assms(2)
proof (induction items arbitrary: rp w)
  case (Cons item items)
  obtain x w1 where d: "DispatchMessage relay (ob_ID item) w = (x, w1)" by fastforce
  obtain y w2 where f: "db_first t_outbox ob_ID (\<lambda>m. ob_ID m = ob_ID item) w1 = (y, w2)" by fastforce
  have "outbox_inv w1" using assms(1) Cons.prems d by (rule preservesD)
  with outbox_first_inv have "outbox_inv w2" using f by (rule preservesD)
  with d f Cons.IH show ?case by (auto simp: Let_def split: sum.splits)
qed simp

lemma outbox_query_inv: "outbox_inv w \<Longrightarrow> db_query q w = (x, w') \<Longrightarrow> outbox_inv w'"
  by (cases x) (auto dest!: db_query_Inr db_query_Inl simp: outbox_inv_def)

context task_dispatcher
begin

lemma DispatchPending_inv:
  assumes "rl_dispatcher r = Some disp" and inv: "outbox_inv w"
  shows "outbox_inv (snd (DispatchPending (Some r) limit w))"
proof -
  let ?lim = "if limit \<le> 0 then 20 else limit"
  obtain x w1 where q: "db_query (due_messages (clock w (tick w)) (nat ?lim)) (advance w) = (x, w1)" by fastforce
  have "outbox_inv (advance w)" using inv by (simp add: outbox_inv_def)
  then have "outbox_inv w1" using q by (rule outbox_query_inv)
  with dispatch_items_inv [OF DispatchMessage_inv [OF assms(1)]]
  have "outbox_inv (snd (dispatch_items (Some r) items rp w1))" for items rp by blast
  then show ?thesis
    using inv assms(1) \<open>outbox_inv w1\<close> q
    by (cases x) (simp_all only: HOL.simp_thms DispatchPending_def time_now_def Let_def option.case prod.case sum.case
        if_True if_False snd_conv option.distinct is_none_code split: if_split)
qed

end

lemma outbox_delete_inv: "preserves outbox_inv (db_delete t_outbox t_outbox_update P)"
  using tb_outbox.delete_keys [of P]
  by (auto simp: outbox_inv_def preserves_def db_delete_def db_stmt_def rows_delete_def list_all_iff
      split: option.splits)

lemma outbox_db_query_inv: "preserves outbox_inv (db_query q)"
  by (rule preservesI) (metis outbox_query_inv prod.collapse)

lemma Cleanup_inv: "preserves outbox_inv (CleanupArticleInspectTaskOutbox (Some r) limit)"
proof (rule preservesI)
  fix w assume inv: "outbox_inv w"
  let ?lim = "if limit \<le> 0 then 100 else limit"
  have "preserves outbox_inv (\<lambda>v. go_try (db_query (expired_ids (clock w (tick w)) (nat ?lim)) v) (\<lambda>ids w.
      if ids = [] then (Inr 0, w)
      else go_try (db_delete t_outbox t_outbox_update (\<lambda>m. ob_ID m \<in> set ids) w) (\<lambda>n w. (Inr (int n), w))))"
    by (intro preserves_try preserves_if preserves_pure outbox_delete_inv outbox_db_query_inv)
  moreover have "outbox_inv (advance w)" using inv by (simp add: outbox_inv_def)
  ultimately show "outbox_inv (snd (CleanupArticleInspectTaskOutbox (Some r) limit w))"
    using inv
    by (simp only: preserves_def CleanupArticleInspectTaskOutbox_def time_now_def Let_def option.case prod.case
        snd_conv split: if_split) blast
qed

section \<open>What one dispatch does\<close>

text \<open>
  The specification of a dispatch: the row that a message becomes, given what the dispatcher
  answers, and the answer of the call.
\<close>

definition settled ::
    "TaskOutboxRelay \<Rightarrow> instant \<Rightarrow> goerr option \<Rightarrow> InspectionTaskOutboxMessage \<Rightarrow> InspectionTaskOutboxMessage" where
  "settled r now answer m =
     (let n = ob_AttemptCount m + 1 in
      case decodeTaskOutboxPayload (rl_unicode r) (ob_Payload m) of
        Inl e \<Rightarrow> set_dead r n now TaskOutboxErrorPayloadDecode (error_or_code r e TaskOutboxErrorPayloadDecode) m
      | Inr p \<Rightarrow>
          if TrimSpace (ob_MessageType m) \<noteq> TaskOutboxMessageTypeRunTask then
            set_dead r n now TaskOutboxErrorUnsupportedMessage ''unsupported outbox message type'' m
          else case answer of
            None \<Rightarrow> set_dispatched r n now m
          | Some e \<Rightarrow>
              (let code = classifyDispatchError (Some e) in
               if shouldDeadLetter r m code then set_dead r n now code (error_or_code r e code) m
               else set_retry n now code (error_or_code r e code) m))"

lemma set_after_claim [simp]:
  "(set_dispatched r n now ((set_claimed r' t m)\<lparr>ob_UpdateAt := i\<rparr>))\<lparr>ob_UpdateAt := j\<rparr> = (set_dispatched r n now m)\<lparr>ob_UpdateAt := j\<rparr>"
  "(set_retry n now code x ((set_claimed r' t m)\<lparr>ob_UpdateAt := i\<rparr>))\<lparr>ob_UpdateAt := j\<rparr> = (set_retry n now code x m)\<lparr>ob_UpdateAt := j\<rparr>"
  "(set_dead r n now code x ((set_claimed r' t m)\<lparr>ob_UpdateAt := i\<rparr>))\<lparr>ob_UpdateAt := j\<rparr> = (set_dead r n now code x m)\<lparr>ob_UpdateAt := j\<rparr>"
  by (simp_all add: set_dispatched_def set_retry_def set_dead_def set_claimed_def)

lemma shouldDeadLetter_claimed [simp]: "shouldDeadLetter r (set_claimed r' t m) = shouldDeadLetter r m"
  by (simp add: shouldDeadLetter_def fun_eq_iff)

text \<open>One row of the outbox replaced, every other row and table as it was.\<close>

definition put_message :: "nat \<Rightarrow> (InspectionTaskOutboxMessage \<Rightarrow> InspectionTaskOutboxMessage) \<Rightarrow> db \<Rightarrow> db" where
  "put_message i f = t_outbox_update (rows_update (\<lambda>x. ob_ID x = i) f)"

lemma put_message_twice:
  assumes "\<And>x. ob_ID (f x) = ob_ID x"
  shows "put_message i g (put_message i f d) = put_message i (\<lambda>x. g (f x)) d"
  using assms by (cases d) (simp add: put_message_def rows_update_def)

lemma settle_ok:
  assumes "no_faults w"
  shows "markDispatched r m now w = (Inr (), (advance w)\<lparr>store := put_message (ob_ID m)
      (\<lambda>x. (set_dispatched r (ob_AttemptCount m + 1) now x)\<lparr>ob_UpdateAt := clock w (Suc (tick w))\<rparr>) (store w)\<rparr>)"
    and "scheduleRetry r m now code e w = (Inr (ob_AttemptCount m + 1), (advance w)\<lparr>store := put_message (ob_ID m)
      (\<lambda>x. (set_retry (ob_AttemptCount m + 1) now code (error_or_code r e code) x)\<lparr>ob_UpdateAt := clock w (Suc (tick w))\<rparr>) (store w)\<rparr>)"
    and "moveToDeadLetter r m now code e w = (Inr (ob_AttemptCount m + 1), (advance w)\<lparr>store := put_message (ob_ID m)
      (\<lambda>x. (set_dead r (ob_AttemptCount m + 1) now code (error_or_code r e code) x)\<lparr>ob_UpdateAt := clock w (Suc (tick w))\<rparr>) (store w)\<rparr>)"
  using assms
  by (simp_all add: markDispatched_def scheduleRetry_def moveToDeadLetter_def stmt_simps put_message_def Let_def)

lemma claimed_world_simps [simp]:
  "no_faults (claimed_world r m w) = no_faults w" "queue (claimed_world r m w) = queue w"
  "clock (claimed_world r m w) = clock w" "tick (claimed_world r m w) = tick w + 3"
  "autoinc (claimed_world r m w) = autoinc w"
  "store (claimed_world r m w) = put_message (ob_ID m)
     (\<lambda>x. (set_claimed r (clock w (Suc (tick w))) x)\<lparr>ob_UpdateAt := clock w (tick w + 3)\<rparr>) (store w)"
  by (simp_all add: claimed_world_def Let_def put_message_def numeral_3_eq_3 flip: advance_def)

definition answer_of :: "TaskOutboxRelay \<Rightarrow> dispatcher \<Rightarrow> InspectionTaskOutboxMessage \<Rightarrow> world \<Rightarrow> goerr option" where
  "answer_of r disp m w =
     (case decodeTaskOutboxPayload (rl_unicode r) (ob_Payload m) of
        Inl e \<Rightarrow> Some e
      | Inr p \<Rightarrow>
          if TrimSpace (ob_MessageType m) \<noteq> TaskOutboxMessageTypeRunTask
          then Some (Plain ''unsupported outbox message type'')
          else fst (disp p (claimed_world r m w)))"

lemma error_or_code_plain [simp]:
  "error_or_code r (Plain ''unsupported outbox message type'') code = ''unsupported outbox message type''"
  by (simp add: error_or_code_def Let_def TrimSpace_graphic graphic_def byte_def)

lemma put_message_at:
  assumes "outbox_ok w" and "m \<in> set (t_outbox (store w))"
  shows "put_message (ob_ID m) f (store w) = put_message (ob_ID m) (\<lambda>_. f m) (store w)"
proof -
  have "x = m" if "x \<in> set (t_outbox (store w))" "ob_ID x = ob_ID m" for x
    using assms that by (metis (no_types, lifting) distinct_map inj_onD keys_ok_def)
  then have "rows_update (\<lambda>x. ob_ID x = ob_ID m) f (t_outbox (store w)) =
      rows_update (\<lambda>x. ob_ID x = ob_ID m) (\<lambda>_. f m) (t_outbox (store w))"
    by (auto simp: rows_update_def)
  then show ?thesis by (cases "store w") (simp add: put_message_def)
qed

context task_dispatcher
begin

text \<open>
  One call on a message that may be taken settles its row as specified and leaves every other
  row and every other table as it was; the call succeeds exactly when the dispatcher did.
\<close>

lemma DispatchMessage_settles:
  assumes "no_faults w" and "outbox_ok w" and "m \<in> set (t_outbox (store w))" and "ob_ID m \<noteq> 0"
    and "takeable m (clock w (Suc (tick w)))" and "relay_ready r disp"
    and call: "DispatchMessage (Some r) (ob_ID m) w = (res, w')"
  shows "store w' = put_message (ob_ID m)
           (\<lambda>_. (settled r (clock w (Suc (tick w))) (answer_of r disp m w) m)\<lparr>ob_UpdateAt := clock w (tick w + 4)\<rparr>) (store w)"
    and "tick w' = tick w + 4" and "clock w' = clock w" and "faults w' = faults w" and "autoinc w' = autoinc w"
    and "(res = Inr ()) = (answer_of r disp m w = None)"
proof -
  let ?now = "clock w (Suc (tick w))" and ?c = "claimed_world r m w"
  let ?cm = "set_claimed r ?now m"
  have d: "deliverClaimed r disp ?cm ?now ?c = (res, w')"
    using call DispatchMessage_takeable [OF assms(1-6)] by simp
  have f: "faults ?c = faults w" by (simp add: claimed_world_def Let_def)
  have at: "put_message (ob_ID m) g (put_message (ob_ID m) (\<lambda>x. (set_claimed r ?now x)\<lparr>ob_UpdateAt := i\<rparr>) (store w)) =
      put_message (ob_ID m) (\<lambda>_. g ((set_claimed r ?now m)\<lparr>ob_UpdateAt := i\<rparr>)) (store w)" for g i
    using put_message_at [OF assms(2,3)] by (simp add: put_message_twice)
  have "store w' = put_message (ob_ID m)
           (\<lambda>_. (settled r ?now (answer_of r disp m w) m)\<lparr>ob_UpdateAt := clock w (tick w + 4)\<rparr>) (store w) \<and>
        tick w' = tick w + 4 \<and> clock w' = clock w \<and> faults w' = faults w \<and> autoinc w' = autoinc w \<and>
        (res = Inr ()) = (answer_of r disp m w = None)"
  proof (cases "decodeTaskOutboxPayload (rl_unicode r) (ob_Payload m)")
    case (Inl e)
    with d assms(1) show ?thesis
      by (auto simp: deliverClaimed_def settled_def answer_of_def settle_ok at f ac_simps)
  next
    case (Inr p)
    obtain a w1 where a: "disp p ?c = (a, w1)" by fastforce
    note fr = disp_frame [OF a]
    show ?thesis
    proof (cases "TrimSpace (ob_MessageType m) = TaskOutboxMessageTypeRunTask")
      case False
      with Inr d assms(1) show ?thesis
        by (auto simp: deliverClaimed_def settled_def answer_of_def settle_ok at f Let_def ac_simps)
    next
      case True
      with Inr d assms(1) a fr show ?thesis
        by (cases a) (auto simp: deliverClaimed_def settled_def answer_of_def settle_ok at f Let_def ac_simps
            split: if_splits)
    qed
  qed
  then show "store w' = put_message (ob_ID m)
           (\<lambda>_. (settled r ?now (answer_of r disp m w) m)\<lparr>ob_UpdateAt := clock w (tick w + 4)\<rparr>) (store w)"
    and "tick w' = tick w + 4" and "clock w' = clock w" and "faults w' = faults w" and "autoinc w' = autoinc w"
    and "(res = Inr ()) = (answer_of r disp m w = None)"
    by simp_all
qed

end

section \<open>Repeated dispatch\<close>

primrec dispatch_times :: "nat \<Rightarrow> TaskOutboxRelay \<Rightarrow> nat \<Rightarrow> world \<Rightarrow> world" where
  "dispatch_times 0 r i w = w"
| "dispatch_times (Suc k) r i w = snd (DispatchMessage (Some r) i (dispatch_times k r i w))"

text \<open>A clock on which every reading is at least the longest backoff after the one before.\<close>

definition patient_clock :: "world \<Rightarrow> bool" where
  "patient_clock w = (\<forall>n. clock w n + 5 * Minute \<le> clock w (Suc n))"

text \<open>The message \<open>i\<close> waits in the table with a given number of attempts, and is due.\<close>

definition waiting :: "InspectionTaskOutboxMessage \<Rightarrow> int \<Rightarrow> world \<Rightarrow> bool" where
  "waiting m n w =
     list_ex (\<lambda>x. ob_ID x = ob_ID m \<and> ob_Payload x = ob_Payload m \<and> ob_MessageType x = ob_MessageType m \<and>
       ob_Status x = TaskOutboxStatusPending \<and> ob_AttemptCount x = n \<and>
       retry_due x (clock w (Suc (tick w)))) (t_outbox (store w))"

definition dead_with :: "InspectionTaskOutboxMessage \<Rightarrow> int \<Rightarrow> world \<Rightarrow> bool" where
  "dead_with m n w =
     list_ex (\<lambda>x. ob_ID x = ob_ID m \<and> ob_Status x = TaskOutboxStatusDeadLetter \<and> ob_AttemptCount x = n)
       (t_outbox (store w))"

lemma put_message_ids [simp]:
  assumes "\<And>x. ob_ID (f x) = i"
  shows "map ob_ID (t_outbox (put_message i f d)) = map ob_ID (t_outbox d)"
  using assms by (simp add: put_message_def rows_update_def)

lemma put_message_member:
  "m \<in> set (t_outbox d) \<Longrightarrow> f m \<in> set (t_outbox (put_message (ob_ID m) f d))"
  by (force simp: put_message_def rows_update_def)

lemma settled_fields [simp]:
  "ob_ID (settled r now a m) = ob_ID m" "ob_Payload (settled r now a m) = ob_Payload m"
  "ob_MessageType (settled r now a m) = ob_MessageType m" "ob_AttemptCount (settled r now a m) = ob_AttemptCount m + 1"
  by (auto simp: settled_def Let_def set_dead_def set_retry_def set_dispatched_def split: sum.split option.split)

lemma clock_ge: "patient_clock w \<Longrightarrow> clock w n + 5 * Minute * int k \<le> clock w (n + k)"
proof (induction k)
  case (Suc k)
  have "clock w (n + k) + 5 * Minute \<le> clock w (Suc (n + k))" using Suc.prems by (simp add: patient_clock_def)
  with Suc show ?case by (simp add: algebra_simps)
qed simp

lemma backoff_le: "backoffForAttempt n \<le> 5 * Minute" "0 < backoffForAttempt n"
  by (simp_all add: backoffForAttempt_def)

context task_dispatcher
begin

lemma failed_attempt:
  assumes "no_faults w" and "outbox_ok w" and "waiting m n w" and "ob_ID m \<noteq> 0"
    and "relay_ready r disp" and fails: "\<And>p v. fst (disp p v) \<noteq> None"
    and pl: "decodeTaskOutboxPayload (rl_unicode r) (ob_Payload m) = Inr p"
    and ty: "TrimSpace (ob_MessageType m) = TaskOutboxMessageTypeRunTask"
    and "patient_clock w" and max: "0 < st_MaxAttempts (rl_settings r)"
    and w': "w' = snd (DispatchMessage (Some r) (ob_ID m) w)"
  shows "no_faults w'" and "outbox_ok w'" and "patient_clock w'"
    and "n + 1 < st_MaxAttempts (rl_settings r) \<Longrightarrow> waiting m (n + 1) w'"
    and "st_MaxAttempts (rl_settings r) \<le> n + 1 \<Longrightarrow> dead_with m (n + 1) w'"
proof -
  let ?now = "clock w (Suc (tick w))"
  from assms(3) obtain x where x: "x \<in> set (t_outbox (store w))" "ob_ID x = ob_ID m" "ob_Payload x = ob_Payload m"
      "ob_MessageType x = ob_MessageType m" "ob_Status x = TaskOutboxStatusPending" "ob_AttemptCount x = n" "retry_due x ?now"
    by (auto simp: waiting_def list_ex_iff)
  obtain res where call: "DispatchMessage (Some r) (ob_ID x) w = (res, w')"
    using w' x(2) by (metis prod.collapse)
  have take: "takeable x ?now" using x by (simp add: takeable_def)
  note s = DispatchMessage_settles [OF assms(1,2) x(1) _ take assms(5) call]
  have id: "ob_ID x \<noteq> 0" using x(2) assms(4) by simp
  note s = s [OF id]
  obtain e where a: "answer_of r disp x w = Some e"
    using fails pl ty x(3,4) by (auto simp: answer_of_def)
  show "no_faults w'" using s(4) assms(1) by (simp add: no_faults_def)
  show "patient_clock w'" using s(3) assms(9) by (simp add: patient_clock_def)
  have "map ob_ID (t_outbox (store w')) = map ob_ID (t_outbox (store w))"
    by (simp add: s(1))
  then show "outbox_ok w'" using assms(2) keys_ok_map [OF _ s(5)] by blast
  define y where "y = (settled r ?now (Some e) x)\<lparr>ob_UpdateAt := clock w (tick w + 4)\<rparr>"
  have y: "y \<in> set (t_outbox (store w'))"
    using put_message_member [OF x(1), of "\<lambda>_. y"] by (simp add: s(1) a y_def)
  have code: "classifyDispatchError (Some e) \<noteq> TaskOutboxErrorPayloadDecode"
    "classifyDispatchError (Some e) \<noteq> TaskOutboxErrorUnsupportedMessage"
    by (simp_all add: classifyDispatchError_def)
  show "dead_with m (n + 1) w'" if "st_MaxAttempts (rl_settings r) \<le> n + 1"
  proof -
    have "ob_Status y = TaskOutboxStatusDeadLetter"
      using that pl ty x code max by (simp add: y_def settled_def shouldDeadLetter_def set_dead_def Let_def)
    with y x show ?thesis by (auto simp: dead_with_def list_ex_iff y_def intro!: bexI [of _ y])
  qed
  show "waiting m (n + 1) w'" if lt: "n + 1 < st_MaxAttempts (rl_settings r)"
  proof -
    have st: "ob_Status y = TaskOutboxStatusPending" "ob_NextAttemptAt y = Some (?now + backoffForAttempt (n + 1))"
      using lt pl ty x code by (simp_all add: y_def settled_def shouldDeadLetter_def set_retry_def Let_def)
    have "?now + backoffForAttempt (n + 1) \<le> clock w (Suc (tick w) + 4)"
      using clock_ge [OF assms(9), of "Suc (tick w)" 4] backoff_le [of "n + 1"] by simp
    then have "retry_due y (clock w' (Suc (tick w')))" using st by (simp add: retry_due_def s)
    with y x st show ?thesis by (auto simp: waiting_def list_ex_iff y_def intro!: bexI [of _ y])
  qed
qed

end

context task_dispatcher
begin

lemma failed_attempts:
  assumes "no_faults w" and "outbox_ok w" and "waiting m n w" and "ob_ID m \<noteq> 0"
    and "relay_ready r disp" and fails: "\<And>p v. fst (disp p v) \<noteq> None"
    and pl: "decodeTaskOutboxPayload (rl_unicode r) (ob_Payload m) = Inr p"
    and ty: "TrimSpace (ob_MessageType m) = TaskOutboxMessageTypeRunTask"
    and "patient_clock w" and "0 \<le> n"
    and "n + int k < st_MaxAttempts (rl_settings r)"
  shows "no_faults (dispatch_times k r (ob_ID m) w) \<and> outbox_ok (dispatch_times k r (ob_ID m) w) \<and>
    patient_clock (dispatch_times k r (ob_ID m) w) \<and> waiting m (n + int k) (dispatch_times k r (ob_ID m) w)"
  using assms(11)
proof (induction k)
  case 0
  then show ?case using assms by simp
next
  case (Suc k)
  let ?v = "dispatch_times k r (ob_ID m) w"
  from Suc have v: "no_faults ?v" "outbox_ok ?v" "patient_clock ?v" "waiting m (n + int k) ?v" by simp_all
  have max: "0 < st_MaxAttempts (rl_settings r)" using Suc.prems assms(10) by simp
  note f = failed_attempt [OF v(1,2,4) assms(4,5) fails pl ty v(3) max refl]
  have "n + int k + 1 < st_MaxAttempts (rl_settings r)" using Suc.prems by simp
  with f(1,2,3) f(4) show ?case by (simp add: algebra_simps)
qed

end

section \<open>The frame of the relay\<close>

context task_dispatcher
begin

lemma deliver_keeps:
  assumes "\<And>f d. g (t_outbox_update f d) = g d"
  shows "keeps g (deliverClaimed r disp m now)"
proof (rule keepsI)
  fix w
  have dead: "keeps g (moveToDeadLetter r m now code e)" and retry: "keeps g (scheduleRetry r m now code e)"
    and fin: "keeps g (markDispatched r m now)" for code e
    unfolding moveToDeadLetter_def scheduleRetry_def markDispatched_def Let_def by (intro frame assms)+
  have "g (store (snd (go_try (moveToDeadLetter r m now code e v) (\<lambda>_ w. (x, w))))) = g (store v)"
    "g (store (snd (go_try (scheduleRetry r m now code e v) (\<lambda>_ w. (x, w))))) = g (store v)"
    "g (store (snd (markDispatched r m now v))) = g (store v)" for code e v and x :: "goerr + unit"
    using dead retry fin by (simp_all add: keeps_def go_try_drop)
  then show "g (store (snd (deliverClaimed r disp m now w))) = g (store w)"
    using disp_frame(1) by (auto simp: deliverClaimed_def Let_def split: sum.split prod.split option.split)
qed

lemma DispatchMessage_keeps:
  assumes "\<And>f d. g (t_outbox_update f d) = g d" and "rl_dispatcher r = Some disp"
  shows "keeps g (DispatchMessage (Some r) i)"
proof (rule keepsI)
  fix w
  have c: "keeps g (claimMessage r m now)" for m now
    unfolding claimMessage_def Let_def by (intro frame assms(1))
  have "keeps g (\<lambda>w. go_try (claimMessage r m now w) (\<lambda>(claimed, cm) w. if \<not> claimed then (Inr (), w) else deliverClaimed r disp cm now w))" for m now
    by (intro keeps_try c) (auto split: prod.split intro!: frame deliver_keeps assms(1))
  then have k: "g (store (snd (go_try (claimMessage r m now v) (\<lambda>(claimed, cm) w. if \<not> claimed then (Inr (), w) else deliverClaimed r disp cm now w)))) = g (store v)"
    for m now v by (simp add: keeps_def)
  obtain q w1 where f: "db_first t_outbox ob_ID (\<lambda>m. ob_ID m = i) w = (q, w1)" by fastforce
  then have "store w1 = store w" by (cases q) (auto dest: db_first_Inl db_first_Inr)
  with f k show "g (store (snd (DispatchMessage (Some r) i w))) = g (store w)"
    by (cases q) (auto simp: DispatchMessage_def assms(2) time_now_def)
qed

lemma TryDispatchMessage_keeps:
  assumes "\<And>f d. g (t_outbox_update f d) = g d" and "rl_dispatcher r = Some disp"
  shows "keeps g (TryDispatchMessage (Some r) i)"
proof (rule keepsI)
  fix w
  obtain q w1 where d: "DispatchMessage (Some r) i w = (q, w1)" by fastforce
  from keepsD [OF DispatchMessage_keeps [of g, OF assms] d] d
  show "g (store (snd (TryDispatchMessage (Some r) i w))) = g (store w)"
    by (auto simp: TryDispatchMessage_def split: sum.split)
qed

end

text \<open>The queue after a dispatch of a due message that can be decoded.\<close>

lemma dispatch_queue:
  assumes "relay_ready r (DispatchArticleInspectTask dedup_enqueue qn)"
    and "no_faults w" and "outbox_ok w" and "m \<in> set (t_outbox (store w))" and "ob_ID m \<noteq> 0"
    and "takeable m (clock w (Suc (tick w)))"
    and "decodeTaskOutboxPayload (rl_unicode r) (ob_Payload m) = Inr p"
    and "TrimSpace (ob_MessageType m) = TaskOutboxMessageTypeRunTask"
  shows "queue (snd (DispatchMessage (Some r) (ob_ID m) w)) =
           queue (snd (DispatchArticleInspectTask dedup_enqueue qn p (claimed_world r m w)))"
proof -
  let ?disp = "DispatchArticleInspectTask dedup_enqueue qn"
  have d: "fst (?disp p v) = None" for v
    by (simp add: DispatchArticleInspectTask_def EnqueueArticleInspectTask_def dedup_enqueue_def Let_def)
  show ?thesis
    using DispatchMessage_takeable [OF assms(2-6,1)] assms(7,8) d [of "claimed_world r m w"] assms(2)
    by (auto simp: deliverClaimed_def settle_ok asynq.disp_frame split: prod.split)
qed

section \<open>Properties\<close>

text \<open>A relay, a message and a world for the witnesses.\<close>

definition ex_settings :: TaskOutboxSettings where
  "ex_settings = defaultTaskOutboxSettings\<lparr>st_MaxAttempts := 3\<rparr>"

definition ex_relay :: "enqueuer \<Rightarrow> TaskOutboxRelay" where
  "ex_relay client =
     \<lparr>rl_hasDB = True, rl_dispatcher = Some (DispatchArticleInspectTask client ''default''),
      rl_settings = ex_settings, rl_claimOwner = ''relay-1'', rl_unicode = ascii_tables, rl_jsonText = id\<rparr>"

definition ex_payload :: ArticleInspectTaskPayload where
  "ex_payload = \<lparr>pl_TaskID = 5, pl_OrgID = 2, pl_TriggerSource = ''manual'', pl_OperatorID = 9, pl_OperatorName = ''ann''\<rparr>"

definition ex_message :: InspectionTaskOutboxMessage where
  "ex_message =
     \<lparr>ob_ID = 1, ob_OrgID = 2, ob_TaskID = 5, ob_MessageType = ''articleinspect.task.run'', ob_Status = ''pending'',
      ob_Payload = marshal_payload ex_payload, ob_AttemptCount = 0, ob_ClaimedBy = '''', ob_ClaimedAt = None,
      ob_ClaimUntil = None, ob_NextAttemptAt = None, ob_LastError = '''', ob_LastErrorCode = '''',
      ob_LastAttemptAt = None, ob_DeadLetteredAt = None, ob_DispatchedAt = None, ob_RetainedUntil = None,
      ob_CreateAt = 0, ob_UpdateAt = 0\<rparr>"

definition ex_outbox_world :: world where
  "ex_outbox_world = calm_world (empty_db\<lparr>t_outbox := [ex_message]\<rparr>)"

lemma ex_decode [simp]: "decodeTaskOutboxPayload (rl_unicode (ex_relay c)) (ob_Payload ex_message) = Inr ex_payload"
  by (simp add: decodeTaskOutboxPayload_def ex_message_def unmarshal_marshal_payload payload_ok_def ex_payload_def
      valid_utf8_ascii ascii_def byte_def)

lemma ex_simps [simp]:
  "ob_ID ex_message = 1" "ob_Status ex_message = TaskOutboxStatusPending" "ob_AttemptCount ex_message = 0"
  "ob_NextAttemptAt ex_message = None" "ob_MessageType ex_message = TaskOutboxMessageTypeRunTask"
  "store ex_outbox_world = empty_db\<lparr>t_outbox := [ex_message]\<rparr>" "no_faults ex_outbox_world"
  "outbox_ok ex_outbox_world" "takeable ex_message now" "retry_due ex_message now" "patient_clock ex_outbox_world"
  "relay_ready (ex_relay c) (DispatchArticleInspectTask c ''default'')"
  "outbox_inv ex_outbox_world" "tick ex_outbox_world = 0" "clock ex_outbox_world n = 600000000000 * int n"
  "rl_dispatcher (ex_relay c) = Some (DispatchArticleInspectTask c ''default'')" "rl_hasDB (ex_relay c)"
  "st_MaxAttempts (rl_settings (ex_relay c)) = 3" "st_LeaseDuration (rl_settings (ex_relay c)) = 30000000000"
  "queue ex_outbox_world = []"
  by (simp_all add: ex_message_def ex_outbox_world_def keys_ok_def takeable_def retry_due_def patient_clock_def
      relay_ready_def ex_relay_def outbox_inv_def ob_row_ok_def no_lease_def ex_settings_def
      defaultTaskOutboxSettings_def)

lemma claim_Inr_True:
  assumes "claimMessage r m t w = (Inr (True, cm), w1)"
  shows "\<forall>x \<in> set (t_outbox (store w1)). ob_ID x = ob_ID m \<longrightarrow>
     (\<exists>y \<in> set (t_outbox (store w)). ob_ID y = ob_ID m \<and> (\<not> claim_match (TrimSpace (ob_Status m)) (ob_ID m) t y \<and> x = y \<or>
       ob_Status x = TaskOutboxStatusClaimed \<and> ob_ClaimUntil x = Some (t + st_LeaseDuration (rl_settings r))))"
    and "\<exists>y \<in> set (t_outbox (store w)). claim_match (TrimSpace (ob_Status m)) (ob_ID m) t y"
  using assms
  by (fastforce simp: claimMessage_def Let_def db_update_def db_stmt_def rows_update_def filter_empty_conv
      set_claimed_def split: if_splits option.splits)+

definition report_within :: "int \<Rightarrow> TaskOutboxDispatchReport \<Rightarrow> bool" where
  "report_within n rp =
     (0 \<le> rp_Dispatched rp \<and> 0 \<le> rp_Retried rp \<and> 0 \<le> rp_DeadLettered rp \<and> 0 \<le> rp_Claimed rp \<and> 0 \<le> rp_Failed rp \<and>
      rp_Dispatched rp + rp_Retried rp + rp_DeadLettered rp \<le> n \<and> rp_Claimed rp \<le> n \<and> rp_Failed rp \<le> n)"

lemma dispatch_items_within:
  "report_within n rp \<Longrightarrow> rp_Scanned rp = n + int (length items) \<Longrightarrow>
     report_within (n + int (length items)) (fst (fst (dispatch_items relay items rp w))) \<and>
     rp_Scanned (fst (fst (dispatch_items relay items rp w))) = n + int (length items)"
proof (induction items arbitrary: n rp w)
  case (Cons item items)
  have t: "report_within (n + 1) (tally item u (rp\<lparr>rp_Failed := rp_Failed rp + 1\<rparr>))"
    "report_within (n + 1) (tally item u rp)"
    "rp_Scanned (tally item u rp') = rp_Scanned rp'" for u rp'
    using Cons.prems(1) by (auto simp: tally_def report_within_def Let_def)
  have e: "report_within (n + 1 + int (length items)) (rp\<lparr>rp_Failed := rp_Failed rp + 1\<rparr>)"
    "report_within (n + 1 + int (length items)) rp"
    using Cons.prems(1) by (auto simp: report_within_def)
  note ih = Cons.IH [of "n + 1"]
  show ?case
    using Cons.prems(2) t e ih
    by (auto simp: Let_def algebra_simps split: prod.split sum.split)
qed simp

text \<open>
  C4. Refinement: one call of \<open>DispatchMessage\<close> on a message that is due (pending and its backoff over, or claimed and its
  lease over) implements the specification \<open>settled\<close>: the row becomes dispatched, pending with
  a backoff, or dead as the payload, the message type, the dispatcher's answer and the attempt
  limit say; every other row and every other table stays as it was; the call
  reports success exactly when the message was handed over.
\<close>

theorem DispatchMessage_refines_settled:
  assumes "task_dispatcher disp" and "relay_ready r disp"
    and "no_faults w" and "outbox_ok w" and "m \<in> set (t_outbox (store w))" and "ob_ID m \<noteq> 0"
    and "takeable m (clock w (Suc (tick w)))"
  shows "store (snd (DispatchMessage (Some r) (ob_ID m) w)) = put_message (ob_ID m)
           (\<lambda>_. (settled r (clock w (Suc (tick w))) (answer_of r disp m w) m)\<lparr>ob_UpdateAt := clock w (tick w + 4)\<rparr>) (store w) \<and>
         (fst (DispatchMessage (Some r) (ob_ID m) w) = Inr ()) = (answer_of r disp m w = None)"
  using task_dispatcher.DispatchMessage_settles(1,6) [OF assms(1,3-7,2) prod.collapse [symmetric]] by simp

theorem DispatchMessage_refines_settled_witness:
  "store (snd (DispatchMessage (Some (ex_relay dedup_enqueue)) 1 ex_outbox_world)) = put_message 1
     (\<lambda>_. (settled (ex_relay dedup_enqueue) 600000000000
        (answer_of (ex_relay dedup_enqueue) (DispatchArticleInspectTask dedup_enqueue ''default'') ex_message ex_outbox_world)
        ex_message)\<lparr>ob_UpdateAt := 2400000000000\<rparr>) (empty_db\<lparr>t_outbox := [ex_message]\<rparr>)"
  using DispatchMessage_refines_settled [OF asynq.task_dispatcher_axioms, of "ex_relay dedup_enqueue" "''default''"
     ex_outbox_world ex_message]
  by simp

text \<open>
  Under every pattern of database failures, every dispatch of one message, every relay run
  and every cleanup run keeps the invariant of the outbox.
\<close>

theorem outbox_invariant:
  assumes "task_dispatcher disp" and "rl_dispatcher r = Some disp" and "outbox_inv w"
  shows "outbox_inv (snd (DispatchMessage (Some r) i w)) \<and>
         outbox_inv (snd (DispatchPending (Some r) limit w)) \<and>
         outbox_inv (snd (CleanupArticleInspectTaskOutbox (Some r) limit w))"
  using task_dispatcher.DispatchMessage_inv [OF assms(1,2)] task_dispatcher.DispatchPending_inv [OF assms]
    Cleanup_inv [of r limit] assms(3) by (simp add: preserves_def)

theorem outbox_invariant_witness:
  "outbox_inv (snd (DispatchPending (Some (ex_relay dedup_enqueue)) 20 ex_outbox_world))"
  using outbox_invariant [OF asynq.task_dispatcher_axioms, of "ex_relay dedup_enqueue" "''default''" ex_outbox_world 1 20]
  by simp

text \<open>
  C33. A lease is exclusive. Two relays that both read the same due message: when the first one
  has claimed it, the claim of the second, made from its stale copy and within the lease,
  is refused and changes nothing, whatever the failures of the database in between.
\<close>

theorem claim_exclusive:
  assumes "outbox_ok w" and "fst (claimMessage r1 m t1 w) = Inr (True, cm)"
    and "t2 \<le> t1 + st_LeaseDuration (rl_settings r1)"
  shows "store (snd (claimMessage r2 m t2 (snd (claimMessage r1 m t1 w)))) = store (snd (claimMessage r1 m t1 w)) \<and>
     (\<nexists>x. fst (claimMessage r2 m t2 (snd (claimMessage r1 m t1 w))) = Inr (True, x))"
proof -
  define w1 where "w1 = snd (claimMessage r1 m t1 w)"
  then have c: "claimMessage r1 m t1 w = (Inr (True, cm), w1)" using assms(2) by (metis prod.collapse)
  have row: "ob_Status x = TaskOutboxStatusClaimed \<and> ob_ClaimUntil x = Some (t1 + st_LeaseDuration (rl_settings r1))"
    if "x \<in> set (t_outbox (store w1))" "ob_ID x = ob_ID m" for x
    using claim_Inr_True [OF c] that claim_match_unique [OF assms(1)] claim_match_id by metis
  have none: "\<not> claim_match (TrimSpace (ob_Status m)) (ob_ID m) t2 x" if x: "x \<in> set (t_outbox (store w1))" for x
    using row [OF x] assms(3) by (auto simp: claim_match_def lease_over_def split: if_splits)
  then have f: "filter (claim_match (TrimSpace (ob_Status m)) (ob_ID m) t2) (t_outbox (store w1)) = []"
    and u: "rows_update (claim_match (TrimSpace (ob_Status m)) (ob_ID m) t2) g (t_outbox (store w1)) = t_outbox (store w1)" for g
    by (auto simp: filter_empty_conv rows_update_def intro!: map_idI)
  have "t_outbox_update (rows_update (claim_match (TrimSpace (ob_Status m)) (ob_ID m) t2) g) (store w1) = store w1" for g
    using u by (cases "store w1") simp
  with f have "store (snd (claimMessage r2 m t2 w1)) = store w1 \<and> (\<nexists>x. fst (claimMessage r2 m t2 w1) = Inr (True, x))"
    by (auto simp: claimMessage_def Let_def db_update_def db_stmt_def split: option.splits if_splits)
  then show ?thesis by (simp add: w1_def)
qed

theorem claim_exclusive_witness:
  "\<nexists>x. fst (claimMessage (ex_relay dedup_enqueue) ex_message 40000000000
      (snd (claimMessage (ex_relay dedup_enqueue) ex_message 10000000000 ex_outbox_world))) = Inr (True, x)"
  using claim_exclusive [of ex_outbox_world "ex_relay dedup_enqueue" ex_message 10000000000
    "set_claimed (ex_relay dedup_enqueue) 10000000000 ex_message" 40000000000 "ex_relay dedup_enqueue"]
  by (simp add: claimMessage_ok)




text \<open>
  Delivery. When the queue can be reached, one call hands a due message over: its task is
  in the queue afterwards, the queue holds no task id twice, and the message is dispatched
  with its error columns cleared.
\<close>

theorem dispatch_delivers:
  assumes "relay_ready r (DispatchArticleInspectTask dedup_enqueue qn)"
    and "no_faults w" and "outbox_ok w" and "m \<in> set (t_outbox (store w))" and "ob_ID m \<noteq> 0"
    and "takeable m (clock w (Suc (tick w)))"
    and "decodeTaskOutboxPayload (rl_unicode r) (ob_Payload m) = Inr p"
    and "TrimSpace (ob_MessageType m) = TaskOutboxMessageTypeRunTask"
    and "distinct (map q_TaskID (queue w))"
  shows "fst (DispatchMessage (Some r) (ob_ID m) w) = Inr () \<and>
     articleInspectTaskID p \<in> set (map q_TaskID (queue (snd (DispatchMessage (Some r) (ob_ID m) w)))) \<and>
     distinct (map q_TaskID (queue (snd (DispatchMessage (Some r) (ob_ID m) w)))) \<and>
     (\<exists>x \<in> set (t_outbox (store (snd (DispatchMessage (Some r) (ob_ID m) w)))). ob_ID x = ob_ID m \<and>
        ob_Status x = TaskOutboxStatusDispatched \<and> ob_AttemptCount x = ob_AttemptCount m + 1 \<and>
        ob_LastError x = '''' \<and> ob_DispatchedAt x = Some (clock w (Suc (tick w))))"
proof -
  let ?disp = "DispatchArticleInspectTask dedup_enqueue qn" and ?now = "clock w (Suc (tick w))"
  note s = asynq.DispatchMessage_settles [OF assms(2-6,1) prod.collapse [symmetric]]
  have d: "fst (?disp p v) = None" for v
    by (simp add: DispatchArticleInspectTask_def EnqueueArticleInspectTask_def dedup_enqueue_def Let_def)
  then have a: "answer_of r ?disp m w = None" using assms(7,8) by (simp add: answer_of_def)
  note q = dispatch_queue [OF assms(1-8)]
  have "(settled r ?now None m)\<lparr>ob_UpdateAt := clock w (tick w + 4)\<rparr> \<in> set (t_outbox (store (snd (DispatchMessage (Some r) (ob_ID m) w))))"
    using put_message_member [OF assms(4)] by (simp add: s(1) a)
  then have "\<exists>x \<in> set (t_outbox (store (snd (DispatchMessage (Some r) (ob_ID m) w)))). ob_ID x = ob_ID m \<and>
        ob_Status x = TaskOutboxStatusDispatched \<and> ob_AttemptCount x = ob_AttemptCount m + 1 \<and>
        ob_LastError x = '''' \<and> ob_DispatchedAt x = Some ?now"
    using assms(7,8) by (intro bexI) (auto simp: settled_def set_dispatched_def)
  moreover have "articleInspectTaskID p \<in> set (map q_TaskID (queue (snd (?disp p (claimed_world r m w)))))"
    "distinct (map q_TaskID (queue (snd (?disp p (claimed_world r m w)))))"
    using assms(9) by (auto simp: DispatchArticleInspectTask_def EnqueueArticleInspectTask_def dedup_enqueue_def Let_def)
  ultimately show ?thesis using s(6) a q by simp
qed

theorem dispatch_delivers_witness:
  "articleInspectTaskID ex_payload \<in> set (map q_TaskID (queue (snd (DispatchMessage (Some (ex_relay dedup_enqueue)) 1 ex_outbox_world))))"
  using dispatch_delivers [of "ex_relay dedup_enqueue" "''default''" ex_outbox_world ex_message ex_payload] by simp


text \<open>
  C35. The cleanup deletes as many expired messages as the limit allows and no others: what it
  removes was dispatched or dead and past its retention, what it reports is the number it
  removed, and when the expired messages fit into the limit none is left.
\<close>

theorem cleanup_removes_only_expired:
  assumes "no_faults w" and "outbox_ok w" and "rl_hasDB r"
    and "lim = nat (if limit \<le> 0 then 100 else limit)"
    and "CleanupArticleInspectTaskOutbox (Some r) limit w = (res, w')"
  shows "\<exists>gone. res = Inr (int (length gone)) \<and>
     length gone = min lim (length (filter (expired (clock w (tick w))) (t_outbox (store w)))) \<and>
     distinct gone \<and> set gone \<subseteq> set (filter (expired (clock w (tick w))) (t_outbox (store w))) \<and>
     t_outbox (store w') = filter (\<lambda>m. m \<notin> set gone) (t_outbox (store w))"
proof -
  let ?now = "clock w (tick w)" and ?rows = "t_outbox (store w)"
  define gone where "gone = take lim (sort_key (\<lambda>m. the (ob_RetainedUntil m)) (sort_key ob_ID (filter (expired ?now) ?rows)))"
  have sub: "set gone \<subseteq> set (filter (expired ?now) ?rows)"
    unfolding gone_def using take_sort_key_subset by fastforce
  have len: "length gone = min lim (length (filter (expired ?now) ?rows))"
    unfolding gone_def by (rule length_take_sorted)
  have dis: "distinct (map ob_ID ?rows)" using assms(2) by (simp add: keys_ok_def)
  then have "distinct ?rows" by (simp add: distinct_map)
  then have dg: "distinct gone" unfolding gone_def by (intro distinct_take) simp
  have mem: "ob_ID x \<in> set (map ob_ID gone) \<longleftrightarrow> x \<in> set gone" if "x \<in> set ?rows" for x
    using dis that sub by (intro mem_ids_iff) auto
  have ids: "expired_ids ?now lim (store w) = map ob_ID gone" by (simp add: expired_ids_def gone_def)
  have keep: "rows_delete (\<lambda>m. ob_ID m \<in> set (map ob_ID gone)) ?rows = filter (\<lambda>m. m \<notin> set gone) ?rows"
    unfolding rows_delete_def using mem by (intro filter_cong) auto
  have "filter (\<lambda>m. ob_ID m \<in> set (map ob_ID gone)) ?rows = filter (\<lambda>m. m \<in> set gone) ?rows"
    using mem by (intro filter_cong) auto
  also have "length \<dots> = length gone"
    using \<open>distinct ?rows\<close> dg sub by (intro length_filter_mem) auto
  finally have cnt: "length (filter (\<lambda>m. ob_ID m \<in> set (map ob_ID gone)) ?rows) = length gone" .
  have "res = Inr (int (length gone)) \<and> t_outbox (store w') = filter (\<lambda>m. m \<notin> set gone) ?rows"
  proof (cases "gone = []")
    case True
    with assms(1,3,4,5) ids show ?thesis
      by (auto simp: CleanupArticleInspectTaskOutbox_def time_now_def stmt_simps Let_def)
  next
    case False
    with assms(1,3,4,5) ids keep cnt show ?thesis
      by (auto simp: CleanupArticleInspectTaskOutbox_def time_now_def stmt_simps Let_def)
  qed
  with len dg sub show ?thesis by blast
qed

theorem cleanup_removes_only_expired_witness:
  "\<exists>res w' gone. CleanupArticleInspectTaskOutbox (Some (ex_relay dedup_enqueue)) 50 ex_outbox_world = (res, w') \<and>
     res = Inr (int (length gone)) \<and> t_outbox (store w') = filter (\<lambda>m. m \<notin> set gone) [ex_message]"
  using cleanup_removes_only_expired [of ex_outbox_world "ex_relay dedup_enqueue" 50 50]
  by (cases "CleanupArticleInspectTaskOutbox (Some (ex_relay dedup_enqueue)) 50 ex_outbox_world") fastforce

text \<open>
  Under every pattern of failures the report of a relay run is consistent: it scans at most the
  limit (20 when none is given), counts every scanned message at most once among dispatched,
  retried and dead, and counts no more claims or failures than messages.
\<close>

theorem relay_report_bounds:
  "rp_Scanned (fst (fst (DispatchPending relay limit w))) \<le> (if limit \<le> 0 then 20 else limit) \<and>
   report_within (rp_Scanned (fst (fst (DispatchPending relay limit w)))) (fst (fst (DispatchPending relay limit w)))"
proof -
  have z: "report_within 0 zero_report" "report_within 0 (zero_report\<lparr>rp_Scanned := n\<rparr>)" for n
    by (simp_all add: zero_report_def report_within_def)
  have scan: "rp_Scanned zero_report = 0" by (simp add: zero_report_def)
  have len: "int (length (due_messages now (nat l) d)) \<le> l" if "0 \<le> l" for now l d
    using that by (simp add: due_messages_def)
  let ?lim = "if limit \<le> 0 then 20 else limit"
  obtain x w1 where q: "db_query (due_messages (clock w (tick w)) (nat ?lim)) (advance w) = (x, w1)" by fastforce
  have it: "report_within (int (length items)) (fst (fst (dispatch_items relay items (zero_report\<lparr>rp_Scanned := int (length items)\<rparr>) w1))) \<and>
     rp_Scanned (fst (fst (dispatch_items relay items (zero_report\<lparr>rp_Scanned := int (length items)\<rparr>) w1))) = int (length items)" for items
    using dispatch_items_within [OF z(2) [of "int (length items)"], of items relay w1] by simp
  have pos: "0 \<le> ?lim" by simp
  have "int (length items) \<le> ?lim" if "x = Inr items" for items
    using db_query_Inr [OF q [unfolded that]] len [OF pos] by simp
  then show ?thesis
    using q it z scan
    by (cases relay; cases x) (auto simp: DispatchPending_def time_now_def Let_def)
qed

text \<open>
  Whatever the configuration holds, also when its product with the unit wraps around 64 bits,
  the settings of a configured relay are positive.
\<close>

theorem relay_settings_positive:
  assumes "NewTaskOutboxRelay True d hostname ut jt = Some r0"
    and "WithSettings (Some r0) (NewTaskOutboxSettings cfg) = Some r"
  shows "0 < st_LeaseDuration (rl_settings r) \<and> 0 < st_MaxAttempts (rl_settings r) \<and>
     0 < st_DispatchedRetention (rl_settings r) \<and> 0 < st_DeadLetterRetention (rl_settings r)"
proof -
  have "rl_settings r0 = defaultTaskOutboxSettings" using assms(1) by (auto simp: NewTaskOutboxRelay_def)
  moreover have "0 < st_LeaseDuration defaultTaskOutboxSettings \<and> 0 < st_MaxAttempts defaultTaskOutboxSettings \<and>
     0 < st_DispatchedRetention defaultTaskOutboxSettings \<and> 0 < st_DeadLetterRetention defaultTaskOutboxSettings"
    by (simp add: defaultTaskOutboxSettings_def)
  ultimately show ?thesis using assms(2) by (auto simp: WithSettings_def Let_def)
qed

theorem relay_settings_positive_witness:
  "\<exists>r. WithSettings (NewTaskOutboxRelay True None None ascii_tables id) (NewTaskOutboxSettings
       \<lparr>oc_Enabled = True, oc_RelaySpec = '''', oc_CleanupSpec = '''', oc_BatchSize = 20, oc_LeaseDurationSeconds = 2 ^ 62,
        oc_MaxAttempts = 0, oc_DispatchedRetentionHours = 1, oc_DeadLetterRetentionHours = - 5\<rparr>) = Some r \<and>
     0 < st_LeaseDuration (rl_settings r)"
proof -
  obtain r0 where r0: "NewTaskOutboxRelay True None None ascii_tables id = Some r0" by (simp add: NewTaskOutboxRelay_def)
  obtain r where "WithSettings (Some r0) (NewTaskOutboxSettings
       \<lparr>oc_Enabled = True, oc_RelaySpec = '''', oc_CleanupSpec = '''', oc_BatchSize = 20, oc_LeaseDurationSeconds = 2 ^ 62,
        oc_MaxAttempts = 0, oc_DispatchedRetentionHours = 1, oc_DeadLetterRetentionHours = - 5\<rparr>) = Some r"
    by (simp add: WithSettings_def Let_def)
  with relay_settings_positive [OF r0 this] r0 show ?thesis by simp
qed

text \<open>
  C36. The write that ends an attempt is not fenced: a relay whose lease ran out while its
  dispatcher was failing puts a message that another relay has meanwhile dispatched back to
  pending, with the attempt count of its own stale copy.
\<close>

theorem late_retry_reopens_dispatched:
  assumes "no_faults w" and "m \<in> set (t_outbox (store w))" and "ob_Status m = TaskOutboxStatusDispatched"
    and "ob_ID stale = ob_ID m"
  shows "\<exists>x \<in> set (t_outbox (store (snd (scheduleRetry r stale now code e w)))).
     ob_ID x = ob_ID m \<and> ob_Status x = TaskOutboxStatusPending \<and> ob_AttemptCount x = ob_AttemptCount stale + 1"
proof -
  let ?f = "\<lambda>x. (set_retry (ob_AttemptCount stale + 1) now code (error_or_code r e code) x)\<lparr>ob_UpdateAt := clock w (Suc (tick w))\<rparr>"
  have "?f m \<in> set (t_outbox (store (snd (scheduleRetry r stale now code e w))))"
    using put_message_member [OF assms(2), of ?f] assms(1,4) by (simp add: settle_ok)
  then show ?thesis by (rule bexI [rotated]) (simp add: set_retry_def)
qed

theorem late_retry_reopens_dispatched_witness:
  "\<exists>x \<in> set (t_outbox (store (snd (scheduleRetry (ex_relay failing_enqueue) ex_message 0 ''dispatch_error'' (Plain ''x'')
     (calm_world (empty_db\<lparr>t_outbox := [set_dispatched (ex_relay failing_enqueue) 1 0 ex_message]\<rparr>)))))).
     ob_ID x = 1 \<and> ob_Status x = TaskOutboxStatusPending"
  using late_retry_reopens_dispatched [of "calm_world (empty_db\<lparr>t_outbox := [set_dispatched (ex_relay failing_enqueue) 1 0 ex_message]\<rparr>)"
     "set_dispatched (ex_relay failing_enqueue) 1 0 ex_message" ex_message "ex_relay failing_enqueue" 0 "''dispatch_error''" "Plain ''x''"]
  by (auto simp: set_dispatched_def)

end
