(* ===== verification/AuditTrail.thy ===== *)
theory AuditTrail
  imports Shared GoJson
begin

text \<open>
  The audit trail (\<open>internal/modules/articleinspect/audit\<close>): the writer of operation and field
  change logs, the text of a log entry, the paged queries with their service and the four
  read-only routes.
\<close>

section \<open>Writer\<close>

record AuditRepository =
  ar_hasDB :: bool

definition NewAuditRepository :: "bool \<Rightarrow> AuditRepository option" where
  "NewAuditRepository hasDB = Some \<lparr>ar_hasDB = hasDB\<rparr>"

definition audit_ready :: "AuditRepository option \<Rightarrow> bool" where
  "audit_ready repo = (case repo of None \<Rightarrow> False | Some r \<Rightarrow> ar_hasDB r)"

text \<open>
  The row that \<open>Create\<close> stores: the id is assigned when it is zero, and so are the two
  timestamps, which the callers leave zero.
\<close>

definition CreateOperationLog ::
    "AuditRepository option \<Rightarrow> InspectionOperationLog option \<Rightarrow> world \<Rightarrow> InspectionOperationLog res" where
  "CreateOperationLog repo log w =
     (case log of
        None \<Rightarrow> (Inl (Sentinel ErrInvalidLogQuery), w)
      | Some l \<Rightarrow>
          if \<not> audit_ready repo then (Inl (Sentinel ErrInvalidLogQuery), w)
          else db_create TOpLogs t_oplogs t_oplogs_update no_unique
                 (\<lambda>i at. l\<lparr>log_ID := i, log_CreateAt := at, log_UpdateAt := at\<rparr>) w)"

definition CreateFieldChangeLogs ::
    "AuditRepository option \<Rightarrow> InspectionFieldChangeLog list \<Rightarrow> world \<Rightarrow> unit res" where
  "CreateFieldChangeLogs repo logs w =
     (if \<not> audit_ready repo then (Inl (Sentinel ErrInvalidLogQuery), w)
      else if logs = [] then (Inr (), w)
      else go_try (db_create_all TFieldLogs t_fcls t_fcls_update no_unique
                     (map (\<lambda>l i at. l\<lparr>fcl_ID := i, fcl_CreateAt := at, fcl_UpdateAt := at\<rparr>) logs) w)
             (\<lambda>_ w. (Inr (), w)))"

definition ResolveTaskID :: "uint64 \<Rightarrow> uint64 \<Rightarrow> uint64" where
  "ResolveTaskID requestTaskID resultTaskID = (if resultTaskID \<noteq> 0 then resultTaskID else requestTaskID)"

text \<open>\<open>json.Marshal\<close> of the payload; \<open>None\<close> stands for a value that has no JSON form.\<close>

definition BuildSnapshot :: "json option \<Rightarrow> string" where
  "BuildSnapshot payload = (case payload of None \<Rightarrow> '''' | Some j \<Rightarrow> marshal j)"

definition operationTypeLabel :: "string \<Rightarrow> string" where
  "operationTypeLabel value =
     (let v = TrimSpace value in
      if v = ActionTypeBatchIgnore then ''ignore''
      else if v = ActionTypeBatchProcess then ''process''
      else if v = ActionTypeOffline then ''offline''
      else if v = ActionTypeRectify then ''rectify''
      else if v = ActionTypeRepublish then ''republish''
      else v)"

definition operationStatusLabel :: "string \<Rightarrow> string" where
  "operationStatusLabel value =
     (let v = TrimSpace value in
      if v = ActionStatusSuccess then ''succeeded''
      else if v = ActionStatusSkipped then ''skipped''
      else if v = ActionStatusFailed then ''failed''
      else v)"

fun str_join :: "string \<Rightarrow> string list \<Rightarrow> string" where
  "str_join sep [] = ''''"
| "str_join sep [x] = x"
| "str_join sep (x # xs) = x @ sep @ str_join sep xs"

definition BuildOperationLogSummary ::
    "string \<Rightarrow> string \<Rightarrow> string \<Rightarrow> string \<Rightarrow> string \<Rightarrow> uint64 \<Rightarrow> uint64 \<Rightarrow> uint64 \<Rightarrow> string" where
  "BuildOperationLogSummary operationType status beforeState afterState reason taskID articleID resultID =
     (let summary = TrimSpace (str_join '' '' [operationTypeLabel operationType, operationStatusLabel status]);
          scope = (if taskID \<noteq> 0 then [''task #'' @ nat_str taskID] else []) @
                  (if articleID \<noteq> 0 then [''article #'' @ nat_str articleID] else []) @
                  (if resultID \<noteq> 0 then [''result #'' @ nat_str resultID] else []);
          summary1 = (if scope \<noteq> [] then summary @ '' for '' @ str_join '', '' scope else summary);
          before = TrimSpace beforeState;
          after = TrimSpace afterState;
          summary2 = (if before \<noteq> '''' \<or> after \<noteq> ''''
                      then summary1 @ '' ('' @ (if before = '''' then ''-'' else before) @ '' -> '' @
                           (if after = '''' then ''-'' else after) @ '')''
                      else summary1);
          why = TrimSpace reason;
          summary3 = (if why \<noteq> '''' then summary2 @ '': '' @ why else summary2)
      in TrimSpace summary3)"

section \<open>Queries\<close>

record OperationLogListInput =
  ol_OrgID :: uint64
  ol_ArticleID :: uint64
  ol_TaskID :: uint64
  ol_OperatorName :: string
  ol_StartAt :: "instant option"
  ol_EndAt :: "instant option"
  ol_Page :: int
  ol_PageSize :: int

record FieldChangeLogListInput =
  fl_OrgID :: uint64
  fl_ArticleID :: uint64
  fl_FieldName :: string
  fl_StartAt :: "instant option"
  fl_EndAt :: "instant option"
  fl_Page :: int
  fl_PageSize :: int

record OperationLogListResult =
  olr_Page :: int
  olr_PageSize :: int
  olr_Total :: int64
  olr_Items :: "InspectionOperationLog list"

record FieldChangeLogListResult =
  flr_Page :: int
  flr_PageSize :: int
  flr_Total :: int64
  flr_Items :: "InspectionFieldChangeLog list"

definition in_window :: "instant option \<Rightarrow> instant option \<Rightarrow> instant \<Rightarrow> bool" where
  "in_window start stop t =
     ((case start of None \<Rightarrow> True | Some a \<Rightarrow> t \<ge> a) \<and> (case stop of None \<Rightarrow> True | Some b \<Rightarrow> t \<le> b))"

definition operation_log_query ::
    "(string \<Rightarrow> string \<Rightarrow> bool) \<Rightarrow> OperationLogListInput \<Rightarrow> db \<Rightarrow> InspectionOperationLog list" where
  "operation_log_query eq inp d =
     (let operator = TrimSpace (ol_OperatorName inp) in
      newest_first log_CreateAt log_ID (filter (\<lambda>l.
        log_OrgID l = ol_OrgID inp \<and>
        (ol_ArticleID inp = 0 \<or> log_ArticleID l = ol_ArticleID inp) \<and>
        (ol_TaskID inp = 0 \<or> log_TaskID l = ol_TaskID inp) \<and>
        (operator = '''' \<or> eq (log_OperatorName l) operator) \<and>
        in_window (ol_StartAt inp) (ol_EndAt inp) (log_CreateAt l)) (t_oplogs d)))"

definition ListOperationLogs ::
    "AuditRepository option \<Rightarrow> OperationLogListInput \<Rightarrow> world \<Rightarrow> (InspectionOperationLog list \<times> int64) res" where
  "ListOperationLogs repo inp w =
     (if \<not> audit_ready repo \<or> ol_OrgID inp = 0 then (Inl (Sentinel ErrInvalidLogQuery), w)
      else (let (page, pageSize) = NormalizePage (ol_Page inp) (ol_PageSize inp) in
            count_and_page (operation_log_query (sql_eq w) inp) page pageSize w))"

definition field_change_log_query ::
    "(string \<Rightarrow> string \<Rightarrow> bool) \<Rightarrow> FieldChangeLogListInput \<Rightarrow> db \<Rightarrow> InspectionFieldChangeLog list" where
  "field_change_log_query eq inp d =
     (let fieldName = TrimSpace (fl_FieldName inp) in
      newest_first fcl_CreateAt fcl_ID (filter (\<lambda>l.
        fcl_OrgID l = fl_OrgID inp \<and>
        (fl_ArticleID inp = 0 \<or> fcl_ArticleID l = fl_ArticleID inp) \<and>
        (fieldName = '''' \<or> eq (fcl_FieldName l) fieldName) \<and>
        in_window (fl_StartAt inp) (fl_EndAt inp) (fcl_CreateAt l)) (t_fcls d)))"

definition ListFieldChangeLogs ::
    "AuditRepository option \<Rightarrow> FieldChangeLogListInput \<Rightarrow> world \<Rightarrow> (InspectionFieldChangeLog list \<times> int64) res" where
  "ListFieldChangeLogs repo inp w =
     (if \<not> audit_ready repo \<or> fl_OrgID inp = 0 then (Inl (Sentinel ErrInvalidLogQuery), w)
      else (let (page, pageSize) = NormalizePage (fl_Page inp) (fl_PageSize inp) in
            count_and_page (field_change_log_query (sql_eq w) inp) page pageSize w))"

section \<open>Service\<close>

record LogService =
  ls_repo :: "AuditRepository option"

definition NewLogService :: "bool \<Rightarrow> LogService option" where
  "NewLogService hasDB = Some \<lparr>ls_repo = NewAuditRepository hasDB\<rparr>"

definition LogService_ListOperationLogs ::
    "LogService option \<Rightarrow> OperationLogListInput \<Rightarrow> world \<Rightarrow> OperationLogListResult res" where
  "LogService_ListOperationLogs service inp w =
     (case service of
        None \<Rightarrow> (Inl (Sentinel ErrInvalidLogQuery), w)
      | Some s \<Rightarrow>
          if Option.is_none (ls_repo s) \<or> ol_OrgID inp = 0 then (Inl (Sentinel ErrInvalidLogQuery), w)
          else (let (page, pageSize) = NormalizePage (ol_Page inp) (ol_PageSize inp) in
                go_try (ListOperationLogs (ls_repo s) inp w) (\<lambda>(items, total) w.
                  (Inr \<lparr>olr_Page = page, olr_PageSize = pageSize, olr_Total = total, olr_Items = items\<rparr>, w))))"

definition LogService_ListFieldChangeLogs ::
    "LogService option \<Rightarrow> FieldChangeLogListInput \<Rightarrow> world \<Rightarrow> FieldChangeLogListResult res" where
  "LogService_ListFieldChangeLogs service inp w =
     (case service of
        None \<Rightarrow> (Inl (Sentinel ErrInvalidLogQuery), w)
      | Some s \<Rightarrow>
          if Option.is_none (ls_repo s) \<or> fl_OrgID inp = 0 then (Inl (Sentinel ErrInvalidLogQuery), w)
          else (let (page, pageSize) = NormalizePage (fl_Page inp) (fl_PageSize inp) in
                go_try (ListFieldChangeLogs (ls_repo s) inp w) (\<lambda>(items, total) w.
                  (Inr \<lparr>flr_Page = page, flr_PageSize = pageSize, flr_Total = total, flr_Items = items\<rparr>, w))))"

section \<open>Routes\<close>

definition audit_statusFromError :: "goerr \<Rightarrow> int \<times> string" where
  "audit_statusFromError e =
     (if errors_is e ErrUnauthorized then (401, ''unauthorized'')
      else if errors_is e ErrInvalidLogQuery then (400, ''invalid log query'')
      else (500, ''internal server error''))"

record operationLogListRequest =
  olq_OrgID :: string
  olq_ArticleID :: param
  olq_TaskID :: param
  olq_OperatorName :: string
  olq_StartAt :: param
  olq_EndAt :: param
  olq_Page :: param
  olq_PageSize :: param

record fieldChangeLogListRequest =
  flq_OrgID :: string
  flq_ArticleID :: param
  flq_FieldName :: string
  flq_StartAt :: param
  flq_EndAt :: param
  flq_Page :: param
  flq_PageSize :: param

record articleLogRequest =
  alq_ArticleID :: string
  alq_OrgID :: string
  alq_Page :: param
  alq_PageSize :: param

text \<open>
  The handlers registered by \<open>RegisterLogRoutes\<close>.
\<close>

definition operation_log_list_handler ::
    "LogService option \<Rightarrow> gocontext \<Rightarrow> operationLogListRequest \<Rightarrow> world \<Rightarrow>
     OperationLogListResult EnvelopeOutput \<times> world" where
  "operation_log_list_handler service cx inp =
     or_bad_request (guard_true (ValidateOptionalOrgID (olq_OrgID inp))) ''invalid log query'' (\<lambda>_ w.
       or_failure audit_statusFromError (CurrentOrgID cx, w) (\<lambda>orgID.
         or_bad_request (OptionalUint64Param_Value (olq_ArticleID inp)) ''invalid log query'' (\<lambda>articleID.
           or_bad_request (OptionalUint64Param_Value (olq_TaskID inp)) ''invalid log query'' (\<lambda>taskID.
             or_bad_request (OptionalTimeParam_Ptr (olq_StartAt inp)) ''invalid start_at'' (\<lambda>startAt.
               or_bad_request (OptionalTimeParam_Ptr (olq_EndAt inp)) ''invalid end_at'' (\<lambda>endAt.
                 or_bad_request (OptionalIntParam_Value (olq_Page inp)) ''invalid log query'' (\<lambda>page.
                   or_bad_request (OptionalIntParam_Value (olq_PageSize inp)) ''invalid log query'' (\<lambda>pageSize w.
                     or_failure audit_statusFromError
                       (LogService_ListOperationLogs service
                          \<lparr>ol_OrgID = orgID, ol_ArticleID = articleID, ol_TaskID = taskID,
                           ol_OperatorName = olq_OperatorName inp, ol_StartAt = map_option t_instant startAt, ol_EndAt = map_option t_instant endAt,
                           ol_Page = page, ol_PageSize = pageSize\<rparr> w)
                       (\<lambda>result w. (SuccessOKEnvelope 200 ''operation log list'' result, w))))))))))"

definition field_change_log_list_handler ::
    "LogService option \<Rightarrow> gocontext \<Rightarrow> fieldChangeLogListRequest \<Rightarrow> world \<Rightarrow>
     FieldChangeLogListResult EnvelopeOutput \<times> world" where
  "field_change_log_list_handler service cx inp =
     or_bad_request (guard_true (ValidateOptionalOrgID (flq_OrgID inp))) ''invalid log query'' (\<lambda>_ w.
       or_failure audit_statusFromError (CurrentOrgID cx, w) (\<lambda>orgID.
         or_bad_request (OptionalUint64Param_Value (flq_ArticleID inp)) ''invalid log query'' (\<lambda>articleID.
           or_bad_request (OptionalTimeParam_Ptr (flq_StartAt inp)) ''invalid start_at'' (\<lambda>startAt.
             or_bad_request (OptionalTimeParam_Ptr (flq_EndAt inp)) ''invalid end_at'' (\<lambda>endAt.
               or_bad_request (OptionalIntParam_Value (flq_Page inp)) ''invalid log query'' (\<lambda>page.
                 or_bad_request (OptionalIntParam_Value (flq_PageSize inp)) ''invalid log query'' (\<lambda>pageSize w.
                   or_failure audit_statusFromError
                     (LogService_ListFieldChangeLogs service
                        \<lparr>fl_OrgID = orgID, fl_ArticleID = articleID, fl_FieldName = flq_FieldName inp,
                         fl_StartAt = map_option t_instant startAt, fl_EndAt = map_option t_instant endAt, fl_Page = page, fl_PageSize = pageSize\<rparr> w)
                     (\<lambda>result w. (SuccessOKEnvelope 200 ''field change log list'' result, w)))))))))"

definition article_operation_log_list_handler ::
    "LogService option \<Rightarrow> gocontext \<Rightarrow> articleLogRequest \<Rightarrow> world \<Rightarrow> OperationLogListResult EnvelopeOutput \<times> world" where
  "article_operation_log_list_handler service cx inp =
     or_bad_request (Uint64Param_Parse (alq_ArticleID inp)) ''invalid article input'' (\<lambda>articleID.
       or_bad_request (guard_true (ValidateOptionalOrgID (alq_OrgID inp))) ''invalid article input'' (\<lambda>_ w.
         or_failure audit_statusFromError (CurrentOrgID cx, w) (\<lambda>orgID.
           or_bad_request (OptionalIntParam_Value (alq_Page inp)) ''invalid article input'' (\<lambda>page.
             or_bad_request (OptionalIntParam_Value (alq_PageSize inp)) ''invalid article input'' (\<lambda>pageSize w.
               or_failure audit_statusFromError
                 (LogService_ListOperationLogs service
                    \<lparr>ol_OrgID = orgID, ol_ArticleID = articleID, ol_TaskID = 0, ol_OperatorName = '''',
                     ol_StartAt = None, ol_EndAt = None, ol_Page = page, ol_PageSize = pageSize\<rparr> w)
                 (\<lambda>result w. (SuccessOKEnvelope 200 ''operation log list'' result, w)))))))"

definition article_change_log_list_handler ::
    "LogService option \<Rightarrow> gocontext \<Rightarrow> articleLogRequest \<Rightarrow> world \<Rightarrow> FieldChangeLogListResult EnvelopeOutput \<times> world" where
  "article_change_log_list_handler service cx inp =
     or_bad_request (Uint64Param_Parse (alq_ArticleID inp)) ''invalid article input'' (\<lambda>articleID.
       or_bad_request (guard_true (ValidateOptionalOrgID (alq_OrgID inp))) ''invalid article input'' (\<lambda>_ w.
         or_failure audit_statusFromError (CurrentOrgID cx, w) (\<lambda>orgID.
           or_bad_request (OptionalIntParam_Value (alq_Page inp)) ''invalid article input'' (\<lambda>page.
             or_bad_request (OptionalIntParam_Value (alq_PageSize inp)) ''invalid article input'' (\<lambda>pageSize w.
               or_failure audit_statusFromError
                 (LogService_ListFieldChangeLogs service
                    \<lparr>fl_OrgID = orgID, fl_ArticleID = articleID, fl_FieldName = '''', fl_StartAt = None,
                     fl_EndAt = None, fl_Page = page, fl_PageSize = pageSize\<rparr> w)
                 (\<lambda>result w. (SuccessOKEnvelope 200 ''field change log list'' result, w)))))))"

section \<open>Properties\<close>

lemma log_query_page [simp]:
  "operation_log_query eq (inp\<lparr>ol_Page := p, ol_PageSize := s\<rparr>) = operation_log_query eq inp"
  "field_change_log_query eq (inp2\<lparr>fl_Page := p, fl_PageSize := s\<rparr>) = field_change_log_query eq inp2"
  by (simp_all add: operation_log_query_def field_change_log_query_def fun_eq_iff)

interpretation operation_log_pages: paged_listing
    "\<lambda>p s. ListOperationLogs (Some \<lparr>ar_hasDB = True\<rparr>) (inp\<lparr>ol_OrgID := Suc i, ol_Page := p, ol_PageSize := s\<rparr>)"
    "\<lambda>w. operation_log_query (sql_eq w) (inp\<lparr>ol_OrgID := Suc i\<rparr>) (store w)" for inp i
  by (rule paged_listing_by_count) (simp add: ListOperationLogs_def audit_ready_def)

interpretation field_change_log_pages: paged_listing
    "\<lambda>p s. ListFieldChangeLogs (Some \<lparr>ar_hasDB = True\<rparr>) (inp\<lparr>fl_OrgID := Suc i, fl_Page := p, fl_PageSize := s\<rparr>)"
    "\<lambda>w. field_change_log_query (sql_eq w) (inp\<lparr>fl_OrgID := Suc i\<rparr>) (store w)" for inp i
  by (rule paged_listing_by_count) (simp add: ListFieldChangeLogs_def audit_ready_def)

lemma CreateOperationLog_appends:
  assumes "CreateOperationLog repo (Some l) w = (Inr l', w')"
  shows "t_oplogs (store w') = t_oplogs (store w) @ [l']"
    and "\<exists>at. l' = l\<lparr>log_ID := Suc (autoinc w TOpLogs), log_CreateAt := at, log_UpdateAt := at\<rparr>"
  using assms tb_oplogs.create_Inr(1,2)
  by (fastforce simp: CreateOperationLog_def split: if_splits)+

lemma CreateOperationLog_keeps [frame]:
  "(\<And>f d. g (t_oplogs_update f d) = g d) \<Longrightarrow> keeps g (CreateOperationLog repo l)"
  unfolding CreateOperationLog_def by (cases l) (auto intro!: frame)

lemma CreateFieldChangeLogs_keeps [frame]:
  "(\<And>f d. g (t_fcls_update f d) = g d) \<Longrightarrow> keeps g (CreateFieldChangeLogs repo ls)"
  unfolding CreateFieldChangeLogs_def by (intro frame)

lemma operation_logs_confined:
  "confined log_OrgID olr_Items (Some i) (\<lambda>w. or_failure sfe (LogService_ListOperationLogs service
     \<lparr>ol_OrgID = i, ol_ArticleID = a, ol_TaskID = t, ol_OperatorName = n, ol_StartAt = st, ol_EndAt = en, ol_Page = p, ol_PageSize = s\<rparr> w)
     (\<lambda>result w. (SuccessOKEnvelope 200 msg result, w)))"
proof (rule confined_failure)
  fix w
  show "store (snd (LogService_ListOperationLogs service
     \<lparr>ol_OrgID = i, ol_ArticleID = a, ol_TaskID = t, ol_OperatorName = n, ol_StartAt = st, ol_EndAt = en, ol_Page = p, ol_PageSize = s\<rparr> w)) = store w"
    by (auto simp: LogService_ListOperationLogs_def ListOperationLogs_def go_try_pure_store split: option.split prod.split)
next
  fix x w w'
  assume "LogService_ListOperationLogs service
     \<lparr>ol_OrgID = i, ol_ArticleID = a, ol_TaskID = t, ol_OperatorName = n, ol_StartAt = st, ol_EndAt = en, ol_Page = p, ol_PageSize = s\<rparr> w = (Inr x, w')"
  then show "store (snd (SuccessOKEnvelope 200 msg x, w')) = store w' \<and>
     (\<forall>r \<in> set (reply_items olr_Items (fst (SuccessOKEnvelope 200 msg x, w'))). Some (log_OrgID r) = Some i)"
    using set_page_rows
    by (fastforce simp: LogService_ListOperationLogs_def ListOperationLogs_def go_try_def operation_log_query_def Let_def
        dest!: count_and_page_Inr split: option.splits prod.splits sum.splits if_splits)
qed


lemma field_change_logs_confined:
  "confined fcl_OrgID flr_Items (Some i) (\<lambda>w. or_failure sfe (LogService_ListFieldChangeLogs service
     \<lparr>fl_OrgID = i, fl_ArticleID = a, fl_FieldName = n, fl_StartAt = st, fl_EndAt = en, fl_Page = p, fl_PageSize = s\<rparr> w)
     (\<lambda>result w. (SuccessOKEnvelope 200 msg result, w)))"
proof (rule confined_failure)
  fix w
  show "store (snd (LogService_ListFieldChangeLogs service
     \<lparr>fl_OrgID = i, fl_ArticleID = a, fl_FieldName = n, fl_StartAt = st, fl_EndAt = en, fl_Page = p, fl_PageSize = s\<rparr> w)) = store w"
    by (auto simp: LogService_ListFieldChangeLogs_def ListFieldChangeLogs_def go_try_pure_store split: option.split prod.split)
next
  fix x w w'
  assume "LogService_ListFieldChangeLogs service
     \<lparr>fl_OrgID = i, fl_ArticleID = a, fl_FieldName = n, fl_StartAt = st, fl_EndAt = en, fl_Page = p, fl_PageSize = s\<rparr> w = (Inr x, w')"
  then show "store (snd (SuccessOKEnvelope 200 msg x, w')) = store w' \<and>
     (\<forall>r \<in> set (reply_items flr_Items (fst (SuccessOKEnvelope 200 msg x, w'))). Some (fcl_OrgID r) = Some i)"
    using set_page_rows
    by (fastforce simp: LogService_ListFieldChangeLogs_def ListFieldChangeLogs_def go_try_def field_change_log_query_def Let_def
        dest!: count_and_page_Inr split: option.splits prod.splits sum.splits if_splits)
qed

definition ex_log :: "uint64 \<Rightarrow> instant \<Rightarrow> InspectionOperationLog" where
  "ex_log i at =
     \<lparr>log_ID = i, log_OrgID = 1, log_ActionID = 1, log_TaskID = 5, log_ResultID = 0, log_ArticleID = 9,
      log_OperationType = ''offline'', log_BeforeState = ''online'', log_AfterState = ''offline'', log_Status = ''success'',
      log_Reason = '''', log_Summary = '''', log_RequestSnapshot = '''', log_OperatorID = 2, log_OperatorName = ''ann'',
      log_RequestID = '''', log_SourceIP = '''', log_CreateAt = at, log_UpdateAt = at\<rparr>"

definition ex_log_world :: world where
  "ex_log_world = calm_world (empty_db\<lparr>t_oplogs := [ex_log 3 6, (ex_log 1 8)\<lparr>log_OrgID := 2\<rparr>, ex_log 4 7]\<rparr>)"

lemma ex_log_query:
  "operation_log_query eq \<lparr>ol_OrgID = Suc 0, ol_ArticleID = 0, ol_TaskID = 0, ol_OperatorName = '''', ol_StartAt = None,
     ol_EndAt = None, ol_Page = p, ol_PageSize = n\<rparr> (store ex_log_world) = [ex_log 4 7, ex_log 3 6]"
  "no_faults ex_log_world"
  by (simp_all add: ex_log_world_def ex_log_def operation_log_query_def newest_first_def in_window_def TrimSpace_def
      trim_front.simps white_runes_def white_rev_def lead_white_def)

text \<open>
  Reading a log page by page yields every entry that matches the filter exactly once, in
  the order of the log, whatever the page size.
\<close>

theorem operation_log_pages_complete:
  assumes "no_faults w" and "1 \<le> s" and "s \<le> 100" and "int m \<le> 2 ^ 56"
    and "length (operation_log_query (sql_eq w) (inp\<lparr>ol_OrgID := Suc i\<rparr>) (store w)) \<le> m * nat s"
  shows "concat (map (\<lambda>k. case fst (ListOperationLogs (Some \<lparr>ar_hasDB = True\<rparr>)
            (inp\<lparr>ol_OrgID := Suc i, ol_Page := int k + 1, ol_PageSize := s\<rparr>) w) of Inl e \<Rightarrow> [] | Inr (rs, _) \<Rightarrow> rs) [0..<m]) =
         operation_log_query (sql_eq w) (inp\<lparr>ol_OrgID := Suc i\<rparr>) (store w)"
  using assms by (rule operation_log_pages.pages_cover)

theorem operation_log_pages_complete_witness:
  "concat (map (\<lambda>k. case fst (ListOperationLogs (Some \<lparr>ar_hasDB = True\<rparr>)
      \<lparr>ol_OrgID = 1, ol_ArticleID = 0, ol_TaskID = 0, ol_OperatorName = '''', ol_StartAt = None, ol_EndAt = None,
       ol_Page = int k + 1, ol_PageSize = 1\<rparr> ex_log_world) of Inl e \<Rightarrow> [] | Inr (rs, _) \<Rightarrow> rs) [0..<2]) = [ex_log 4 7, ex_log 3 6]"
  using operation_log_pages_complete [where w = ex_log_world and s = 1 and m = 2 and i = 0 and inp = "\<lparr>ol_OrgID = 1, ol_ArticleID = 0, ol_TaskID = 0,
    ol_OperatorName = '''', ol_StartAt = None, ol_EndAt = None, ol_Page = 1, ol_PageSize = 1\<rparr>"]
  by (simp add: ex_log_query)

text \<open>
  The four log routes change no table and answer only with entries of the organisation
  of the session, whatever their \<open>orgid\<close> parameter says; without a session they answer
  with no entry at all.
\<close>

lemma log_routes_confined:
  "confined log_OrgID olr_Items (session_org cx) (operation_log_list_handler service cx q1) \<and>
   confined fcl_OrgID flr_Items (session_org cx) (field_change_log_list_handler service cx q2) \<and>
   confined log_OrgID olr_Items (session_org cx) (article_operation_log_list_handler service cx q3) \<and>
   confined fcl_OrgID flr_Items (session_org cx) (article_change_log_list_handler service cx q3)"
  unfolding operation_log_list_handler_def field_change_log_list_handler_def
    article_operation_log_list_handler_def article_change_log_list_handler_def
  by (intro conjI confined_bad_request confined_org operation_logs_confined field_change_logs_confined)

end
