(* ===== verification/Scan.thy ===== *)
theory Scan
  imports Domain
begin

text \<open>
  The keyword scanner (\<open>internal/modules/articleinspect/scan\<close>). It works on byte positions, as
  the source does. A slice outside its string panics: the functions that slice return
  \<open>None\<close> for a panic. The engine of the package \<open>regexp\<close> is an argument: it compiles a pattern
  to a function that finds all matches of a text as pairs of byte positions.
\<close>

section \<open>Scanner\<close>

record CandidateArticle =
  ca_ID :: uint64
  ca_OrgID :: uint64
  ca_Title :: string
  ca_ShortTitle :: string
  ca_RichTitle :: string
  ca_Keyword :: string
  ca_Desc :: string
  ca_Body :: string
  ca_State :: int8
  ca_PublishAtTime :: "instant option"

record KeywordRule =
  kr_ID :: uint64
  kr_Name :: string
  kr_Category :: string
  kr_MatchType :: string
  kr_RiskLevel :: string
  kr_SuggestAction :: string
  kr_Scopes :: "string list"

record Hit =
  h_KeywordID :: uint64
  h_KeywordText :: string
  h_Category :: string
  h_FieldName :: string
  h_MatchType :: string
  h_RiskLevel :: string
  h_SuggestAction :: string
  h_MatchedText :: string
  h_Snippet :: string
  h_PositionStart :: int
  h_PositionEnd :: int

record KeywordScanner =
  sc_SnippetContext :: int
  sc_MaxRegexLength :: int

type_synonym regexp_engine = "string \<Rightarrow> (string \<Rightarrow> (nat \<times> nat) list) option"

definition NewKeywordScanner :: KeywordScanner where
  "NewKeywordScanner = \<lparr>sc_SnippetContext = 24, sc_MaxRegexLength = 128\<rparr>"

text \<open>\<open>s[i:j]\<close>\<close>

definition go_slice :: "string \<Rightarrow> int \<Rightarrow> int \<Rightarrow> string option" where
  "go_slice s i j =
     (if 0 \<le> i \<and> i \<le> j \<and> j \<le> int (length s) then Some (take (nat (j - i)) (drop (nat i) s)) else None)"

definition buildSnippet :: "string \<Rightarrow> int \<Rightarrow> int \<Rightarrow> int \<Rightarrow> string option" where
  "buildSnippet s start stop contextWindow =
     (if s = '''' then Some ''''
      else
        (let win = (if contextWindow \<le> 0 then 24 else contextWindow);
             from = (if start - win < 0 then 0 else start - win);
             upto = (if stop + win > int (length s) then int (length s) else stop + win);
             prefix = (if from > 0 then ''...'' else '''');
             suffix = (if upto < int (length s) then ''...'' else '''')
         in map_option (\<lambda>m. prefix @ m @ suffix) (go_slice s from upto)))"

definition buildHit :: "KeywordRule \<Rightarrow> string \<Rightarrow> string \<Rightarrow> string \<Rightarrow> int \<Rightarrow> int \<Rightarrow> int \<Rightarrow> Hit option" where
  "buildHit rule fieldName fullText matched start stop contextWindow =
     map_option (\<lambda>snippet.
       \<lparr>h_KeywordID = kr_ID rule, h_KeywordText = kr_Name rule, h_Category = kr_Category rule,
        h_FieldName = fieldName, h_MatchType = kr_MatchType rule, h_RiskLevel = kr_RiskLevel rule,
        h_SuggestAction = kr_SuggestAction rule, h_MatchedText = matched, h_Snippet = snippet,
        h_PositionStart = start, h_PositionEnd = stop\<rparr>)
       (buildSnippet fullText start stop contextWindow)"

text \<open>
  The loop of \<open>containsHits\<close> from \<open>searchFrom\<close>; \<open>lowerValue\<close> and \<open>lowerNeedle\<close> are searched, \<open>value\<close>
  and the length of \<open>needle\<close> make the hit. The needle is not empty, so the loop advances.
\<close>

function contains_loop ::
    "KeywordScanner \<Rightarrow> KeywordRule \<Rightarrow> string \<Rightarrow> string \<Rightarrow> string \<Rightarrow> string \<Rightarrow> string \<Rightarrow> nat \<Rightarrow> Hit list option" where
  "contains_loop sc rule fieldName val needle lowerValue lowerNeedle searchFrom =
     (if searchFrom > length lowerValue \<or> needle = '''' then None
      else
        (case str_index (drop searchFrom lowerValue) lowerNeedle of
           None \<Rightarrow> Some []
         | Some index \<Rightarrow>
             (let start = searchFrom + index; stop = start + length needle in
              case go_slice val (int start) (int stop) of
                None \<Rightarrow> None
              | Some matched \<Rightarrow>
                  (case buildHit rule fieldName val matched (int start) (int stop) (sc_SnippetContext sc) of
                     None \<Rightarrow> None
                   | Some h \<Rightarrow>
                       map_option (\<lambda>hs. h # hs)
                         (contains_loop sc rule fieldName val needle lowerValue lowerNeedle stop)))))"
  by pat_completeness auto
termination
proof (relation "measure (\<lambda>(_, _, _, _, _, lv, _, from). Suc (length lv) - from)", goal_cases)
  case (2 sc rule fieldName val needle lowerValue lowerNeedle searchFrom index start stop matched h)
  then have "0 < length needle" and "searchFrom \<le> length lowerValue" by auto
  then have "Suc (length lowerValue) - (searchFrom + index + length needle) < Suc (length lowerValue) - searchFrom"
    by linarith
  with 2 show ?case by simp
qed simp

declare contains_loop.simps [simp del]

definition containsHits :: "unicode_tables \<Rightarrow> KeywordScanner \<Rightarrow> KeywordRule \<Rightarrow> string \<Rightarrow> string \<Rightarrow> Hit list option" where
  "containsHits ut sc rule fieldName val =
     (let needle = TrimSpace (kr_Name rule) in
      if needle = '''' then Some []
      else contains_loop sc rule fieldName val needle (ToLower ut val) (ToLower ut needle) 0)"

definition exactHits :: "unicode_tables \<Rightarrow> KeywordScanner \<Rightarrow> KeywordRule \<Rightarrow> string \<Rightarrow> string \<Rightarrow> Hit list option" where
  "exactHits ut sc rule fieldName val =
     (let needle = TrimSpace (kr_Name rule); field = TrimSpace val in
      if needle = '''' \<or> field = '''' \<or> \<not> EqualFold ut field needle then Some []
      else map_option (\<lambda>h. [h])
             (buildHit rule fieldName val field 0 (int (length field)) (sc_SnippetContext sc)))"

definition isSafeRegexPattern :: "string \<Rightarrow> int \<Rightarrow> bool" where
  "isSafeRegexPattern pattern maxLength =
     (let m = (if maxLength \<le> 0 then 128 else maxLength) in
      if int (length pattern) > m then False else \<not> str_contains pattern ''(?'')"

fun regex_loop :: "KeywordScanner \<Rightarrow> KeywordRule \<Rightarrow> string \<Rightarrow> string \<Rightarrow> (nat \<times> nat) list \<Rightarrow> Hit list option" where
  "regex_loop sc rule fieldName val [] = Some []"
| "regex_loop sc rule fieldName val ((i, j) # locs) =
     (case go_slice val (int i) (int j) of
        None \<Rightarrow> None
      | Some matched \<Rightarrow>
          (case buildHit rule fieldName val matched (int i) (int j) (sc_SnippetContext sc) of
             None \<Rightarrow> None
           | Some h \<Rightarrow> map_option (\<lambda>hs. h # hs) (regex_loop sc rule fieldName val locs)))"

definition regexHits :: "regexp_engine \<Rightarrow> KeywordScanner \<Rightarrow> KeywordRule \<Rightarrow> string \<Rightarrow> string \<Rightarrow> Hit list option" where
  "regexHits engine sc rule fieldName val =
     (let pattern = TrimSpace (kr_Name rule) in
      if pattern = '''' \<or> \<not> isSafeRegexPattern pattern (sc_MaxRegexLength sc) then Some []
      else (case engine pattern of
              None \<Rightarrow> Some []
            | Some findAll \<Rightarrow> regex_loop sc rule fieldName val (findAll val)))"

definition scanField ::
    "unicode_tables \<Rightarrow> regexp_engine \<Rightarrow> KeywordScanner \<Rightarrow> KeywordRule \<Rightarrow> string \<Rightarrow> string \<Rightarrow> Hit list option" where
  "scanField ut engine sc rule fieldName val =
     (let matchType = ToLower ut (TrimSpace (kr_MatchType rule)) in
      if matchType = MatchTypeContains then containsHits ut sc rule fieldName val
      else if matchType = MatchTypeExact then exactHits ut sc rule fieldName val
      else if matchType = MatchTypeRegex then regexHits engine sc rule fieldName val
      else Some [])"

definition articleFieldValue :: "CandidateArticle \<Rightarrow> string \<Rightarrow> string" where
  "articleFieldValue article scope =
     (if scope = KeywordScopeTitle then ca_Title article
      else if scope = KeywordScopeShortTitle then ca_ShortTitle article
      else if scope = KeywordScopeRichTitle then ca_RichTitle article
      else if scope = KeywordScopeKeyword then ca_Keyword article
      else if scope = KeywordScopeDesc then ca_Desc article
      else if scope = KeywordScopeBody then ca_Body article
      else '''')"

text \<open>The two nested loops of \<open>ScanArticle\<close>; the first panic ends the scan.\<close>

fun scan_scopes ::
    "unicode_tables \<Rightarrow> regexp_engine \<Rightarrow> KeywordScanner \<Rightarrow> CandidateArticle \<Rightarrow> KeywordRule \<Rightarrow> string list \<Rightarrow>
     Hit list option" where
  "scan_scopes ut engine sc article rule [] = Some []"
| "scan_scopes ut engine sc article rule (scope # scopes) =
     (let val = articleFieldValue article scope in
      if TrimSpace val = '''' then scan_scopes ut engine sc article rule scopes
      else (case scanField ut engine sc rule scope val of
              None \<Rightarrow> None
            | Some hs \<Rightarrow> map_option (\<lambda>hs2. hs @ hs2) (scan_scopes ut engine sc article rule scopes)))"

fun scan_rules ::
    "unicode_tables \<Rightarrow> regexp_engine \<Rightarrow> KeywordScanner \<Rightarrow> CandidateArticle \<Rightarrow> KeywordRule list \<Rightarrow> Hit list option" where
  "scan_rules ut engine sc article [] = Some []"
| "scan_rules ut engine sc article (rule # rules) =
     (case scan_scopes ut engine sc article rule (kr_Scopes rule) of
        None \<Rightarrow> None
      | Some hs \<Rightarrow> map_option (\<lambda>hs2. hs @ hs2) (scan_rules ut engine sc article rules))"

definition ScanArticle ::
    "unicode_tables \<Rightarrow> regexp_engine \<Rightarrow> KeywordScanner option \<Rightarrow> CandidateArticle \<Rightarrow> KeywordRule list \<Rightarrow> Hit list option" where
  "ScanArticle ut engine scanner article rules =
     (let sc = (case scanner of None \<Rightarrow> NewKeywordScanner | Some s \<Rightarrow> s) in
      scan_rules ut engine sc article rules)"

section \<open>Slices and snippets\<close>

lemma go_slice_nat: "i + n \<le> length s \<Longrightarrow> go_slice s (int i) (int (i + n)) = Some (take n (drop i s))"
  by (auto simp: go_slice_def)

lemma buildSnippet_total: "0 \<le> i \<Longrightarrow> i \<le> j \<Longrightarrow> j \<le> int (length s) \<Longrightarrow> buildSnippet s i j win \<noteq> None"
  by (auto simp: buildSnippet_def Let_def go_slice_def)

lemma buildHit_total: "0 \<le> i \<Longrightarrow> i \<le> j \<Longrightarrow> j \<le> int (length s) \<Longrightarrow> \<exists>h. buildHit rule f s m i j win = Some h"
  using buildSnippet_total by (fastforce simp: buildHit_def)

lemma buildHit_fields:
  assumes "buildHit rule f s m i j win = Some h"
  shows "h_KeywordID h = kr_ID rule" "h_KeywordText h = kr_Name rule" "h_FieldName h = f" "h_MatchedText h = m"
    "h_PositionStart h = i" "h_PositionEnd h = j" "h_RiskLevel h = kr_RiskLevel rule"
    "h_SuggestAction h = kr_SuggestAction rule"
  using assms by (auto simp: buildHit_def)

section \<open>Occurrences\<close>

text \<open>
  The specification of a contains search: the positions of the needle found from left to
  right, each search starting behind the match before it.
\<close>

function occurrences :: "nat \<Rightarrow> string \<Rightarrow> string \<Rightarrow> nat list" where
  "occurrences k n [] = []"
| "occurrences k n (c # cs) =
     (if n \<noteq> [] \<and> has_prefix n (c # cs) then k # occurrences (k + length n) n (drop (length n) (c # cs))
      else occurrences (Suc k) n cs)"
  by pat_completeness auto
termination by (relation "measure (\<lambda>(_, _, s). length s)") auto

declare occurrences.simps(2) [simp del]

lemma occurrences_index:
  assumes "n \<noteq> []"
  shows "occurrences k n s =
     (case str_index s n of None \<Rightarrow> [] | Some i \<Rightarrow> (k + i) # occurrences (k + i + length n) n (drop (i + length n) s))"
proof (induction s arbitrary: k)
  case Nil
  then show ?case using assms by (cases n) (simp_all add: str_index.simps)
next
  case (Cons c cs)
  show ?case
  proof (cases "has_prefix n (c # cs)")
    case True
    then show ?thesis using assms by (simp add: occurrences.simps(2) str_index.simps [of "c # cs"])
  next
    case False
    then show ?thesis
      using Cons [of "Suc k"] by (simp add: occurrences.simps(2) str_index.simps [of "c # cs"] split: option.split)
  qed
qed

lemma occurrences_sound: "j \<in> set (occurrences k n s) \<Longrightarrow> k \<le> j \<and> has_prefix n (drop (j - k) s)"
proof (induction k n s rule: occurrences.induct)
  case (2 k n c cs)
  show ?case
  proof (cases "n \<noteq> [] \<and> has_prefix n (c # cs)")
    case True
    with 2 have "j = k \<or> j \<in> set (occurrences (k + length n) n (drop (length n) (c # cs)))"
      by (simp add: occurrences.simps(2))
    then show ?thesis
    proof
      assume "j \<in> set (occurrences (k + length n) n (drop (length n) (c # cs)))"
      from "2.IH"(1) [OF True this] have "k + length n \<le> j" "has_prefix n (drop (j - (k + length n)) (drop (length n) (c # cs)))" by auto
      then show ?thesis by (simp add: add.commute)
    qed (use True in simp)
  next
    case False
    with 2 have "j \<in> set (occurrences (Suc k) n cs)" by (auto simp: occurrences.simps(2))
    from "2.IH"(2) [OF False this] have "Suc k \<le> j" "has_prefix n (drop (j - Suc k) cs)" by auto
    moreover from this(1) have "j - k = Suc (j - Suc k)" by simp
    ultimately show ?thesis by simp
  qed
qed simp

text \<open>Every place where the needle stands is covered by a reported one.\<close>

lemma occurrences_complete:
  "n \<noteq> [] \<Longrightarrow> has_prefix n (drop p s) \<Longrightarrow> \<exists>j \<in> set (occurrences k n s). j \<le> k + p \<and> k + p < j + length n"
proof (induction k n s arbitrary: p rule: occurrences.induct)
  case (1 k n)
  then show ?case by (cases n) simp_all
next
  case (2 k n c cs)
  show ?case
  proof (cases "has_prefix n (c # cs)")
    case True
    note t = conjI [OF "2.prems"(1) True]
    show ?thesis
    proof (cases "p < length n")
      case True
      with t show ?thesis by (simp add: occurrences.simps(2))
    next
      case False
      then have "has_prefix n (drop (p - length n) (drop (length n) (c # cs)))" using "2.prems"(2) by simp
      from "2.IH"(1) [OF t "2.prems"(1) this] False t show ?thesis by (auto simp: occurrences.simps(2))
    qed
  next
    case False
    then have f: "\<not> (n \<noteq> [] \<and> has_prefix n (c # cs))" by simp
    with "2.prems" obtain q where q: "p = Suc q" by (cases p) auto
    from "2.IH"(2) [OF f "2.prems"(1), of q] "2.prems"(2) q f show ?thesis by (auto simp: occurrences.simps(2))
  qed
qed

lemma occurrences_ge: "j \<in> set (occurrences k n s) \<Longrightarrow> k \<le> j"
  using occurrences_sound by blast

lemma occurrences_spaced: "sorted_wrt (\<lambda>i j. i + length n \<le> j) (occurrences k n s)"
proof (induction k n s rule: occurrences.induct)
  case (2 k n c cs)
  show ?case
  proof (cases "n \<noteq> [] \<and> has_prefix n (c # cs)")
    case True
    then show ?thesis using "2.IH"(1) [OF True] by (simp add: occurrences.simps(2) occurrences_ge)
  next
    case False
    with "2.IH"(2) [OF False] show ?thesis by (simp only: occurrences.simps(2) if_False)
  qed
qed simp

section \<open>Contains\<close>

definition hit_at :: "KeywordScanner \<Rightarrow> KeywordRule \<Rightarrow> string \<Rightarrow> string \<Rightarrow> nat \<Rightarrow> nat \<Rightarrow> Hit" where
  "hit_at sc rule f val len k =
     the (buildHit rule f val (take len (drop k val)) (int k) (int (k + len)) (sc_SnippetContext sc))"

lemma contains_loop_occurrences:
  assumes "length lv = length val" and "length ln = length needle" and "needle \<noteq> []" and "from \<le> length lv"
  shows "contains_loop sc rule f val needle lv ln from =
     Some (map (hit_at sc rule f val (length needle)) (occurrences from ln (drop from lv)))"
  using assms
proof (induction sc rule f val needle lv ln "from" rule: contains_loop.induct)
  case (1 sc rule f val needle lv ln k)
  have ne: "ln \<noteq> []" using "1.prems" by auto
  show ?case
  proof (cases "str_index (drop k lv) ln")
    case None
    then show ?thesis using "1.prems" occurrences_index [OF ne] by (simp add: contains_loop.simps)
  next
    case (Some i)
    let ?a = "k + i" let ?b = "?a + length needle"
    have b: "?b \<le> length lv" using str_index_bound [OF Some] "1.prems" by simp
    have sl: "go_slice val (int ?a) (int ?b) = Some (take (length needle) (drop ?a val))"
      using b "1.prems"(1) by (simp only: go_slice_nat)
    obtain h where h: "buildHit rule f val (take (length needle) (drop ?a val)) (int ?a) (int ?b) (sc_SnippetContext sc) = Some h"
      using buildHit_total b "1.prems"(1) by fastforce
    have ih: "contains_loop sc rule f val needle lv ln ?b =
        Some (map (hit_at sc rule f val (length needle)) (occurrences ?b ln (drop ?b lv)))"
      using "1.IH" [OF _ Some refl refl sl h] "1.prems" b by simp
    have "hit_at sc rule f val (length needle) ?a = h" using h by (simp add: hit_at_def)
    then show ?thesis
      using "1.prems" Some sl h ih occurrences_index [OF ne, of k "drop k lv"]
      by (simp add: contains_loop.simps [of sc rule f val needle lv ln k] Let_def add.commute add.left_commute)
  qed
qed


section \<open>Scans\<close>

text \<open>A text whose lower case has the same number of bytes, as every ASCII text has.\<close>

definition case_stable :: "unicode_tables \<Rightarrow> string \<Rightarrow> bool" where
  "case_stable ut s = (length (ToLower ut s) = length s)"

lemma case_stable_ascii: "list_all ascii s \<Longrightarrow> case_stable ut s"
  by (simp add: case_stable_def length_ToLower_ascii)

text \<open>What the package \<open>regexp\<close> documents of match locations: they lie in the text.\<close>

definition regexp_sound :: "regexp_engine \<Rightarrow> bool" where
  "regexp_sound engine =
     (\<forall>p find s. engine p = Some find \<longrightarrow> (\<forall>(i, j) \<in> set (find s). i \<le> j \<and> j \<le> length s))"

lemma containsHits_occurrences:
  assumes "case_stable ut val" and "case_stable ut (TrimSpace (kr_Name rule))" and "TrimSpace (kr_Name rule) \<noteq> ''''"
  shows "containsHits ut sc rule f val =
    Some (map (hit_at sc rule f val (length (TrimSpace (kr_Name rule))))
      (occurrences 0 (ToLower ut (TrimSpace (kr_Name rule))) (ToLower ut val)))"
  using assms contains_loop_occurrences [of "ToLower ut val" val "ToLower ut (TrimSpace (kr_Name rule))" "TrimSpace (kr_Name rule)" 0]
  by (simp add: containsHits_def case_stable_def Let_def)

text \<open>A hit of a rule in a field: it names both, and its positions lie in the field.\<close>

definition hit_ok :: "KeywordRule \<Rightarrow> string \<Rightarrow> string \<Rightarrow> Hit \<Rightarrow> bool" where
  "hit_ok rule f val h =
     (h_KeywordID h = kr_ID rule \<and> h_KeywordText h = kr_Name rule \<and> h_FieldName h = f \<and>
      h_RiskLevel h = kr_RiskLevel rule \<and> h_SuggestAction h = kr_SuggestAction rule \<and>
      0 \<le> h_PositionStart h \<and> h_PositionStart h \<le> h_PositionEnd h \<and> h_PositionEnd h \<le> int (length val))"

lemma buildHit_ok:
  "buildHit rule f val m i j win = Some h \<Longrightarrow> 0 \<le> i \<Longrightarrow> i \<le> j \<Longrightarrow> j \<le> int (length val) \<Longrightarrow> hit_ok rule f val h"
  by (simp add: hit_ok_def buildHit_fields)

lemma go_slice_bounds: "go_slice s i j = Some m \<Longrightarrow> 0 \<le> i \<and> i \<le> j \<and> j \<le> int (length s)"
  by (simp add: go_slice_def split: if_splits)

lemma contains_loop_ok: "contains_loop sc rule f val needle lv ln k = Some hs \<Longrightarrow> h \<in> set hs \<Longrightarrow> hit_ok rule f val h"
proof (induction sc rule f val needle lv ln k arbitrary: hs rule: contains_loop.induct)
  case (1 sc rule f val needle lv ln k)
  have c: "\<not> (k > length lv \<or> needle = '''')"
    using "1.prems"(1) by (auto simp: contains_loop.simps [of sc rule f val needle lv ln k] split: if_splits)
  show ?case
  proof (cases "str_index (drop k lv) ln")
    case None
    then show ?thesis using "1.prems" c by (simp add: contains_loop.simps [of sc rule f val needle lv ln k])
  next
    case (Some i)
    let ?b = "k + i + length needle"
    obtain m h0 hs0 where m: "go_slice val (int (k + i)) (int ?b) = Some m"
        "buildHit rule f val m (int (k + i)) (int ?b) (sc_SnippetContext sc) = Some h0"
        "contains_loop sc rule f val needle lv ln ?b = Some hs0" "hs = h0 # hs0"
      using "1.prems"(1) c Some
      by (auto simp: contains_loop.simps [of sc rule f val needle lv ln k] Let_def split: option.splits)
    from "1.IH" [OF c Some refl refl m(1,2,3)] have "h \<in> set hs0 \<Longrightarrow> hit_ok rule f val h" .
    moreover have "hit_ok rule f val h0" using buildHit_ok [OF m(2)] go_slice_bounds [OF m(1)] by blast
    ultimately show ?thesis using "1.prems"(2) m(4) by auto
  qed
qed

lemma regex_loop_ok: "regex_loop sc rule f val locs = Some hs \<Longrightarrow> h \<in> set hs \<Longrightarrow> hit_ok rule f val h"
proof (induction sc rule f val locs arbitrary: hs rule: regex_loop.induct)
  case (2 sc rule f val i j locs)
  then show ?case using buildHit_ok go_slice_bounds by (fastforce split: option.splits)
qed simp

lemma scanField_ok:
  assumes "scanField ut engine sc rule f val = Some hs" and "h \<in> set hs"
  shows "hit_ok rule f val h"
proof -
  have "hit_ok rule f val h" if "exactHits ut sc rule f val = Some hs"
    using that assms(2) buildHit_ok length_TrimSpace [of val]
    by (fastforce simp: exactHits_def Let_def split: if_splits)
  moreover have "hit_ok rule f val h" if "containsHits ut sc rule f val = Some hs"
    using that assms(2) contains_loop_ok by (auto simp: containsHits_def Let_def split: if_splits)
  moreover have "hit_ok rule f val h" if "regexHits engine sc rule f val = Some hs"
    using that assms(2) regex_loop_ok by (auto simp: regexHits_def Let_def split: if_splits option.splits)
  ultimately show ?thesis using assms by (auto simp: scanField_def Let_def split: if_splits)
qed

lemma scan_scopes_ok:
  "scan_scopes ut engine sc article rule scopes = Some hs \<Longrightarrow> h \<in> set hs \<Longrightarrow>
     h_FieldName h \<in> set scopes \<and> TrimSpace (articleFieldValue article (h_FieldName h)) \<noteq> '''' \<and>
     hit_ok rule (h_FieldName h) (articleFieldValue article (h_FieldName h)) h"
proof (induction scopes arbitrary: hs)
  case (Cons scope scopes)
  show ?case
  proof (cases "TrimSpace (articleFieldValue article scope) = ''''")
    case True
    then show ?thesis using Cons by simp
  next
    case False
    then obtain a b where ab: "scanField ut engine sc rule scope (articleFieldValue article scope) = Some a"
        "scan_scopes ut engine sc article rule scopes = Some b" "hs = a @ b"
      using Cons.prems(1) by (auto simp: Let_def split: option.splits)
    show ?thesis
    proof (cases "h \<in> set a")
      case True
      from scanField_ok [OF ab(1) this] False show ?thesis by (auto simp: hit_ok_def)
    next
      case f: False
      with Cons.IH [OF ab(2)] Cons.prems(2) ab(3) show ?thesis by auto
    qed
  qed
qed simp

lemma scan_rules_ok:
  "scan_rules ut engine sc article rules = Some hs \<Longrightarrow> h \<in> set hs \<Longrightarrow>
     \<exists>rule \<in> set rules. h_FieldName h \<in> set (kr_Scopes rule) \<and> TrimSpace (articleFieldValue article (h_FieldName h)) \<noteq> '''' \<and>
       hit_ok rule (h_FieldName h) (articleFieldValue article (h_FieldName h)) h"
proof (induction rules arbitrary: hs)
  case (Cons rule rules)
  then obtain a b where ab: "scan_scopes ut engine sc article rule (kr_Scopes rule) = Some a"
      "scan_rules ut engine sc article rules = Some b" "hs = a @ b"
    by (auto split: option.splits)
  show ?case
  proof (cases "h \<in> set a")
    case True
    from scan_scopes_ok [OF ab(1) this] show ?thesis by auto
  next
    case False
    with Cons.IH [OF ab(2)] Cons.prems(2) ab(3) show ?thesis by auto
  qed
qed simp

lemma exactHits_total: "\<exists>hs. exactHits ut sc rule f val = Some hs"
  using buildHit_total [of 0 "int (length (TrimSpace val))" val] length_TrimSpace [of val]
  by (fastforce simp: exactHits_def Let_def)

lemma containsHits_total:
  assumes "case_stable ut val" and "case_stable ut (TrimSpace (kr_Name rule))"
  shows "\<exists>hs. containsHits ut sc rule f val = Some hs"
proof (cases "TrimSpace (kr_Name rule) = ''''")
  case True
  then show ?thesis by (simp add: containsHits_def)
next
  case False
  with containsHits_occurrences [OF assms] show ?thesis by blast
qed

lemma regex_loop_total:
  "\<forall>(i, j) \<in> set locs. i \<le> j \<and> j \<le> length val \<Longrightarrow> \<exists>hs. regex_loop sc rule f val locs = Some hs"
proof (induction locs)
  case (Cons ij locs)
  obtain i j where ij: "ij = (i, j)" by fastforce
  have b: "i \<le> j" "j \<le> length val" using Cons.prems ij by auto
  obtain m where m: "go_slice val (int i) (int j) = Some m" using b by (simp add: go_slice_def)
  obtain h where h: "buildHit rule f val m (int i) (int j) (sc_SnippetContext sc) = Some h"
    using buildHit_total [of "int i" "int j" val] b by fastforce
  obtain hs where "regex_loop sc rule f val locs = Some hs" using Cons by auto
  with ij m h show ?case by simp
qed simp

lemma regexHits_total: "regexp_sound engine \<Longrightarrow> \<exists>hs. regexHits engine sc rule f val = Some hs"
  using regex_loop_total [of _ val sc rule f] by (fastforce simp: regexHits_def Let_def regexp_sound_def split: option.split)

lemma scanField_total:
  assumes "regexp_sound engine" and "case_stable ut val" and "case_stable ut (TrimSpace (kr_Name rule))"
  shows "\<exists>hs. scanField ut engine sc rule f val = Some hs"
  using exactHits_total [of ut sc rule f val] containsHits_total [OF assms(2,3)] regexHits_total [OF assms(1), of sc rule f val]
  by (simp add: scanField_def Let_def)

lemma scan_scopes_total:
  assumes "regexp_sound engine" and "case_stable ut (TrimSpace (kr_Name rule))"
  shows "\<forall>scope \<in> set scopes. case_stable ut (articleFieldValue article scope) \<Longrightarrow>
     \<exists>hs. scan_scopes ut engine sc article rule scopes = Some hs"
proof (induction scopes)
  case (Cons scope scopes)
  then obtain hs where "scan_scopes ut engine sc article rule scopes = Some hs" by auto
  moreover obtain hs1 where "scanField ut engine sc rule scope (articleFieldValue article scope) = Some hs1"
    using scanField_total [OF assms(1) _ assms(2)] Cons.prems by (meson list.set_intros(1))
  ultimately show ?case by (simp add: Let_def)
qed simp

lemma scan_rules_total:
  assumes "regexp_sound engine"
  shows "\<forall>rule \<in> set rules. case_stable ut (TrimSpace (kr_Name rule)) \<and>
       (\<forall>scope \<in> set (kr_Scopes rule). case_stable ut (articleFieldValue article scope)) \<Longrightarrow>
     \<exists>hs. scan_rules ut engine sc article rules = Some hs"
proof (induction rules)
  case (Cons rule rules)
  then obtain hs where "scan_rules ut engine sc article rules = Some hs" by auto
  moreover obtain hs1 where "scan_scopes ut engine sc article rule (kr_Scopes rule) = Some hs1"
    using scan_scopes_total [OF assms, of ut rule "kr_Scopes rule"] Cons.prems by (meson list.set_intros(1))
  ultimately show ?case by simp
qed simp

lemma str_contains_iff: "str_contains s n \<longleftrightarrow> (\<exists>p \<le> length s. has_prefix n (drop p s))"
  using str_index_Some str_index_None unfolding str_contains_def
  by (metis option.exhaust linorder_not_le)

lemma occurrences_empty_iff: "n \<noteq> [] \<Longrightarrow> occurrences k n s = [] \<longleftrightarrow> \<not> str_contains s n"
  by (simp add: occurrences_index str_contains_def split: option.split)

section \<open>Properties\<close>

text \<open>Article and rules of the witnesses, and an engine that finds its pattern literally.\<close>

definition ex_article :: CandidateArticle where
  "ex_article = \<lparr>ca_ID = 1, ca_OrgID = 2, ca_Title = ''Breaking SPAM spam'', ca_ShortTitle = '''', ca_RichTitle = '''',
     ca_Keyword = ''alert'', ca_Desc = '''', ca_Body = '''', ca_State = 9, ca_PublishAtTime = None\<rparr>"

definition ex_rule :: KeywordRule where
  "ex_rule = \<lparr>kr_ID = 7, kr_Name = ''spam'', kr_Category = ''ads'', kr_MatchType = ''contains'', kr_RiskLevel = ''high'',
     kr_SuggestAction = ''offline'', kr_Scopes = [''title'', ''body'']\<rparr>"

definition literal_engine :: regexp_engine where
  "literal_engine p = Some (\<lambda>s. map (\<lambda>k. (k, k + length p)) (filter (\<lambda>k. k + length p \<le> length s) (occurrences 0 p s)))"

lemma literal_engine_sound: "regexp_sound literal_engine"
  by (auto simp: regexp_sound_def literal_engine_def)

lemma ex_scan_simps [simp]:
  "TrimSpace (kr_Name ex_rule) = ''spam''" "case_stable ut ''spam''" "case_stable ut ''Breaking SPAM spam''" "case_stable ut ''''"
  by (simp_all add: ex_rule_def TrimSpace_graphic graphic_def byte_def case_stable_ascii ascii_def)

text \<open>
  C22. For texts whose lower case has the same length, the contains search returns a hit for exactly the positions of
  the specification, the case-insensitive occurrences found from left to right without
  overlap.
\<close>

theorem contains_hits_are_occurrences:
  assumes "case_stable ut val" and "case_stable ut (TrimSpace (kr_Name rule))" and "TrimSpace (kr_Name rule) \<noteq> ''''"
  shows "containsHits ut sc rule f val =
    Some (map (hit_at sc rule f val (length (TrimSpace (kr_Name rule))))
      (occurrences 0 (ToLower ut (TrimSpace (kr_Name rule))) (ToLower ut val)))"
  using assms by (rule containsHits_occurrences)

theorem contains_hits_are_occurrences_witness:
  "containsHits ascii_tables NewKeywordScanner ex_rule ''title'' ''Breaking SPAM spam'' =
    Some (map (hit_at NewKeywordScanner ex_rule ''title'' ''Breaking SPAM spam'' 4) [9, 14])"
proof -
  have "occurrences 0 (ToLower ascii_tables ''spam'') (ToLower ascii_tables ''Breaking SPAM spam'') = [9, 14]"
    by code_simp
  with contains_hits_are_occurrences [of ascii_tables "''Breaking SPAM spam''" ex_rule NewKeywordScanner "''title''"]
  show ?thesis by (simp add: eval_nat_numeral)
qed

text \<open>
  No occurrence is missed and none is invented: every position at which the lower-case needle stands in the
  lower-case text lies inside a reported hit, hits do not overlap, and there is a hit exactly when the
  text contains the needle.
\<close>

theorem contains_hits_cover:
  assumes "case_stable ut val" and "case_stable ut (TrimSpace (kr_Name rule))" and "TrimSpace (kr_Name rule) \<noteq> ''''"
  shows "\<exists>hs. containsHits ut sc rule f val = Some hs \<and>
    (\<forall>p. has_prefix (ToLower ut (TrimSpace (kr_Name rule))) (drop p (ToLower ut val)) \<longrightarrow>
       (\<exists>h \<in> set hs. h_PositionStart h \<le> int p \<and> int p < h_PositionEnd h)) \<and>
    sorted_wrt (\<lambda>h1 h2. h_PositionEnd h1 \<le> h_PositionStart h2) hs \<and>
    (hs \<noteq> []) = str_contains (ToLower ut val) (ToLower ut (TrimSpace (kr_Name rule)))"
proof -
  let ?n = "TrimSpace (kr_Name rule)" let ?ln = "ToLower ut ?n" and ?lv = "ToLower ut val"
  let ?hit = "hit_at sc rule f val (length ?n)"
  have len: "length ?ln = length ?n" "length ?lv = length val" using assms(1,2) by (simp_all add: case_stable_def)
  have ne: "?ln \<noteq> []" using len(1) assms(3) by auto
  have pos: "h_PositionStart (?hit k) = int k \<and> h_PositionEnd (?hit k) = int (k + length ?n)"
    if "k \<in> set (occurrences 0 ?ln ?lv)" for k
  proof -
    have "has_prefix ?ln (drop k ?lv)" using occurrences_sound [OF that] by simp
    then have "k + length ?n \<le> length val" using has_prefix_length [of ?ln "drop k ?lv"] ne len by (cases "k \<le> length val") auto
    then obtain h where "buildHit rule f val (take (length ?n) (drop k val)) (int k) (int (k + length ?n)) (sc_SnippetContext sc) = Some h"
      using buildHit_total [of "int k" "int (k + length ?n)" val rule f] by fastforce
    then show ?thesis using buildHit_fields(5,6) by (auto simp: hit_at_def)
  qed
  have cov: "\<exists>h \<in> set (map ?hit (occurrences 0 ?ln ?lv)). h_PositionStart h \<le> int p \<and> int p < h_PositionEnd h"
    if "has_prefix ?ln (drop p ?lv)" for p
    using occurrences_complete [OF ne that, of 0] pos len(1) by fastforce
  have "sorted_wrt (\<lambda>i j. h_PositionEnd (?hit i) \<le> h_PositionStart (?hit j)) (occurrences 0 ?ln ?lv)"
    by (rule sorted_wrt_mono_rel [OF _ occurrences_spaced [of ?ln 0 ?lv]]) (use pos len(1) in auto)
  then have "sorted_wrt (\<lambda>h1 h2. h_PositionEnd h1 \<le> h_PositionStart h2) (map ?hit (occurrences 0 ?ln ?lv))"
    by (simp add: sorted_wrt_map)
  with cov containsHits_occurrences [OF assms] occurrences_empty_iff [OF ne, of 0 ?lv] show ?thesis by auto
qed

theorem contains_hits_cover_witness:
  "\<exists>hs. containsHits ascii_tables NewKeywordScanner ex_rule ''title'' ''Breaking SPAM spam'' = Some hs \<and> hs \<noteq> []"
proof -
  have "str_contains (ToLower ascii_tables ''Breaking SPAM spam'') (ToLower ascii_tables ''spam'')" by code_simp
  with contains_hits_cover [of ascii_tables "''Breaking SPAM spam''" ex_rule NewKeywordScanner "''title''"]
  show ?thesis by auto
qed

text \<open>
  C34. A scan reports only what the rules ask for: each hit belongs to a rule of the list and to one of its
  scopes, that field of the article is not blank, and the positions of the hit lie in it.
\<close>

theorem scan_hits_sound:
  assumes "ScanArticle ut engine scanner article rules = Some hits" and "h \<in> set hits"
  shows "\<exists>rule \<in> set rules. h_FieldName h \<in> set (kr_Scopes rule) \<and>
     TrimSpace (articleFieldValue article (h_FieldName h)) \<noteq> '''' \<and>
     hit_ok rule (h_FieldName h) (articleFieldValue article (h_FieldName h)) h"
  using assms scan_rules_ok by (auto simp: ScanArticle_def Let_def)

theorem scan_hits_sound_witness:
  "\<exists>hits h. ScanArticle ascii_tables literal_engine None ex_article [ex_rule] = Some hits \<and> h \<in> set hits \<and>
     hit_ok ex_rule ''title'' ''Breaking SPAM spam'' h"
proof -
  define h where "h = hit_at NewKeywordScanner ex_rule ''title'' ''Breaking SPAM spam'' 4 9"
  have "ScanArticle ascii_tables literal_engine None ex_article [ex_rule] =
      Some [h, hit_at NewKeywordScanner ex_rule ''title'' ''Breaking SPAM spam'' 4 14]" (is "?s = Some ?hs")
    unfolding h_def by code_simp
  moreover have "h \<in> set ?hs" by simp
  moreover have "h_FieldName h = ''title''" unfolding h_def by code_simp
  ultimately show ?thesis
    using scan_hits_sound [of ascii_tables literal_engine None ex_article "[ex_rule]" ?hs h]
    by (auto simp: articleFieldValue_def ex_article_def)
qed

text \<open>
  A scan of texts whose lower case has the same length does not panic, given an engine whose match
  locations lie in the text.
\<close>

theorem scan_does_not_panic:
  assumes "regexp_sound engine"
    and "\<And>rule. rule \<in> set rules \<Longrightarrow> case_stable ut (TrimSpace (kr_Name rule))"
    and "\<And>rule scope. rule \<in> set rules \<Longrightarrow> scope \<in> set (kr_Scopes rule) \<Longrightarrow> case_stable ut (articleFieldValue article scope)"
  shows "\<exists>hits. ScanArticle ut engine scanner article rules = Some hits"
  using scan_rules_total [OF assms(1)] assms(2,3) by (simp add: ScanArticle_def Let_def)

theorem scan_does_not_panic_witness:
  "\<exists>hits. ScanArticle ascii_tables literal_engine None ex_article [ex_rule] = Some hits"
  by (rule scan_does_not_panic [OF literal_engine_sound])
     (auto simp: ex_rule_def articleFieldValue_def ex_article_def TrimSpace_graphic graphic_def byte_def)


text \<open>
  C39. The contains search takes byte positions of the lower-case text for positions of the text itself. Where
  lower-casing changes the length they differ: U+023A has two bytes and its lower case U+2C65 three, so
  the search for U+2C65 in a title of one U+023A slices beyond its end and the scan panics.
\<close>

theorem contains_panics_on_growing_case:
  assumes "ut_lower ut 570 = 11365" and "ut_lower ut 11365 = 11365"
    and "kr_Name rule = EncodeRune 11365"
  shows "containsHits ut sc rule f (EncodeRune 570) = None"
proof -
  have e: "EncodeRune 570 = [chr 200, chr 186]" "EncodeRune 11365 = [chr 226, chr 177, chr 165]"
    by (simp_all add: EncodeRune_def)
  have t: "TrimSpace [chr 226, chr 177, chr 165] = [chr 226, chr 177, chr 165]" by code_simp
  have r: "runes [chr 200, chr 186] = [570]" "runes [chr 226, chr 177, chr 165] = [11365]"
    by (simp_all add: runes.simps(2) cont_def second_ok_def second_lo_def second_hi_def low6_def)
  have n: "\<not> list_all ascii [chr 200, chr 186]" "\<not> list_all ascii [chr 226, chr 177, chr 165]" by code_simp+
  have l: "ToLower ut [chr 200, chr 186] = [chr 226, chr 177, chr 165]"
      "ToLower ut [chr 226, chr 177, chr 165] = [chr 226, chr 177, chr 165]"
    using assms(1,2) n r by (simp_all add: ToLower_def unicode_ToLower_def e ascii_def)
  show ?thesis
    unfolding e containsHits_def assms(3) t Let_def l
    by (simp add: contains_loop.simps str_index.simps go_slice_def)
qed

theorem contains_panics_on_growing_case_witness:
  "containsHits (ascii_tables\<lparr>ut_lower := (\<lambda>r. if r = 570 then 11365 else r)\<rparr>) NewKeywordScanner
     (ex_rule\<lparr>kr_Name := EncodeRune 11365\<rparr>) ''title'' (EncodeRune 570) = None"
  by (rule contains_panics_on_growing_case) simp_all

text \<open>
  An exact match of a text with surrounding white space reports the trimmed text as the match and the first bytes of the
  untrimmed text as its position: the reported positions do not delimit the reported match.
\<close>

theorem exact_hit_position_of_padded_field:
  assumes "kr_Name rule = ''spam''"
  shows "\<exists>h. exactHits ut sc rule f ''  spam'' = Some [h] \<and> h_MatchedText h = ''spam'' \<and>
     go_slice ''  spam'' (h_PositionStart h) (h_PositionEnd h) = Some ''  sp''"
proof -
  have t: "TrimSpace ''spam'' = ''spam''" "TrimSpace ''  spam'' = ''spam''" by code_simp+
  obtain h where h: "buildHit rule f ''  spam'' ''spam'' 0 4 (sc_SnippetContext sc) = Some h"
    using buildHit_total [of 0 4 "''  spam''" rule f "''spam''"] by fastforce
  have "exactHits ut sc rule f ''  spam'' = Some [h]"
    using h by (simp add: exactHits_def assms t)
  moreover have "go_slice ''  spam'' 0 4 = Some ''  sp''" by code_simp
  ultimately show ?thesis using buildHit_fields(4,5,6) [OF h] by simp
qed

theorem exact_hit_position_of_padded_field_witness:
  "\<exists>h. exactHits ascii_tables NewKeywordScanner ex_rule ''keyword'' ''  spam'' = Some [h] \<and> h_MatchedText h = ''spam'' \<and>
     go_slice ''  spam'' (h_PositionStart h) (h_PositionEnd h) = Some ''  sp''"
  by (rule exact_hit_position_of_padded_field) (simp add: ex_rule_def)

end
