(* ===== verification/Categories.thy ===== *)
theory Categories
  imports Shared
begin

text \<open>
  Keyword categories (\<open>internal/modules/articleinspect/rules\<close>, the category half): repository,
  service and routes, and the list of organisations. Both failure envelopes of the package
  \<open>shared\<close> have the same fields, so \<open>or_failure\<close> stands for \<open>failureOKFromError\<close> and for
  \<open>failureCreatedFromError\<close>.
\<close>

section \<open>Repository\<close>

record CategoryListInput =
  ci_OrgID :: uint64
  ci_Page :: int
  ci_PageSize :: int
  ci_Enabled :: "bool option"
  ci_Query :: string

record CategoryRepository =
  cr_hasDB :: bool

definition NewCategoryRepository :: "bool \<Rightarrow> CategoryRepository option" where
  "NewCategoryRepository hasDB = Some \<lparr>cr_hasDB = hasDB\<rparr>"

definition category_ready :: "CategoryRepository option \<Rightarrow> bool" where
  "category_ready repo = (case repo of None \<Rightarrow> False | Some r \<Rightarrow> cr_hasDB r)"

definition category_at :: "uint64 \<Rightarrow> uint64 \<Rightarrow> InspectionCategory \<Rightarrow> bool" where
  "category_at orgID i c = (cat_OrgID c = orgID \<and> cat_ID c = i)"

definition CategoryRepository_ListOrgs :: "CategoryRepository option \<Rightarrow> world \<Rightarrow> ChuangqiOrg list res" where
  "CategoryRepository_ListOrgs repo w =
     (if \<not> category_ready repo then (Inl (Sentinel ErrInvalidCategoryInput), w)
      else db_query (\<lambda>d. sort_key org_Sort (sort_key org_ID (filter org_Enabled (t_orgs d)))) w)"

definition category_query :: "(string \<Rightarrow> string \<Rightarrow> bool) \<Rightarrow> CategoryListInput \<Rightarrow> db \<Rightarrow> InspectionCategory list" where
  "category_query like inp d =
     (let q = TrimSpace (ci_Query inp) in
      sort_key cat_Sort (sort_key cat_ID (filter (\<lambda>c.
        cat_OrgID c = ci_OrgID inp \<and>
        (case ci_Enabled inp of None \<Rightarrow> True | Some b \<Rightarrow> cat_Enabled c = b) \<and>
        (q = '''' \<or> like (cat_Name c) (''%'' @ q @ ''%''))) (t_categories d))))"

definition CategoryRepository_List ::
    "CategoryRepository option \<Rightarrow> CategoryListInput \<Rightarrow> world \<Rightarrow> (InspectionCategory list \<times> int64) res" where
  "CategoryRepository_List repo inp w =
     (if \<not> category_ready repo \<or> ci_OrgID inp = 0 then (Inl (Sentinel ErrInvalidCategoryInput), w)
      else (let (page, pageSize) = NormalizePage (ci_Page inp) (ci_PageSize inp) in
            count_and_page (category_query (sql_like w) inp) page pageSize w))"

definition CategoryRepository_Get :: "CategoryRepository option \<Rightarrow> uint64 \<Rightarrow> uint64 \<Rightarrow> world \<Rightarrow> InspectionCategory res" where
  "CategoryRepository_Get repo orgID i w =
     (if \<not> category_ready repo \<or> orgID = 0 \<or> i = 0 then (Inl (Sentinel ErrInvalidCategoryInput), w)
      else (case db_first t_categories cat_ID (category_at orgID i) w of
              (Inl e, w1) \<Rightarrow> (Inl (if errors_is e ErrRecordNotFound then Sentinel ErrCategoryNotFound else e), w1)
            | (Inr c, w1) \<Rightarrow> (Inr c, w1)))"

text \<open>\<open>Create\<close>; the column \<open>enabled\<close> is declared \<open>default:true\<close>.\<close>

definition CategoryRepository_Create ::
    "CategoryRepository option \<Rightarrow> InspectionCategory \<Rightarrow> world \<Rightarrow> InspectionCategory res" where
  "CategoryRepository_Create repo item w =
     (if \<not> category_ready repo \<or> cat_OrgID item = 0 then (Inl (Sentinel ErrInvalidCategoryInput), w)
      else db_create TCategories t_categories t_categories_update no_unique
             (\<lambda>i at. item\<lparr>cat_ID := i, cat_Enabled := default_true (cat_Enabled item),
                          cat_CreateAt := at, cat_UpdateAt := at\<rparr>) w)"

definition CategoryRepository_Update ::
    "CategoryRepository option \<Rightarrow> InspectionCategory \<Rightarrow> world \<Rightarrow> unit res" where
  "CategoryRepository_Update repo item w =
     (if \<not> category_ready repo \<or> cat_OrgID item = 0 \<or> cat_ID item = 0 then (Inl (Sentinel ErrInvalidCategoryInput), w)
      else go_try (db_update t_categories t_categories_update (category_at (cat_OrgID item) (cat_ID item))
                     (\<lambda>at c. c\<lparr>cat_Name := cat_Name item, cat_Enabled := cat_Enabled item, cat_Sort := cat_Sort item,
                               cat_UpdaterID := cat_UpdaterID item, cat_UpdaterName := cat_UpdaterName item,
                               cat_UpdateAt := at\<rparr>) w)
             (\<lambda>n w. if n = 0 then (Inl (Sentinel ErrCategoryNotFound), w) else (Inr (), w)))"

definition CategoryRepository_Delete :: "CategoryRepository option \<Rightarrow> uint64 \<Rightarrow> uint64 \<Rightarrow> world \<Rightarrow> unit res" where
  "CategoryRepository_Delete repo orgID i w =
     (if \<not> category_ready repo \<or> orgID = 0 \<or> i = 0 then (Inl (Sentinel ErrInvalidCategoryInput), w)
      else go_try (db_delete t_categories t_categories_update (category_at orgID i) w)
             (\<lambda>n w. if n = 0 then (Inl (Sentinel ErrCategoryNotFound), w) else (Inr (), w)))"

definition CategoryRepository_PatchEnabled ::
    "CategoryRepository option \<Rightarrow> uint64 \<Rightarrow> uint64 \<Rightarrow> bool \<Rightarrow> uint64 \<Rightarrow> string \<Rightarrow> world \<Rightarrow> unit res" where
  "CategoryRepository_PatchEnabled repo orgID i enabled updaterID updaterName w =
     (if \<not> category_ready repo \<or> orgID = 0 \<or> i = 0 then (Inl (Sentinel ErrInvalidCategoryInput), w)
      else go_try (db_update t_categories t_categories_update (category_at orgID i)
                     (\<lambda>at c. c\<lparr>cat_Enabled := enabled, cat_UpdaterID := updaterID, cat_UpdaterName := updaterName,
                               cat_UpdateAt := at\<rparr>) w)
             (\<lambda>n w. if n = 0 then (Inl (Sentinel ErrCategoryNotFound), w) else (Inr (), w)))"

definition CategoryRepository_CategoryExists :: "CategoryRepository option \<Rightarrow> uint64 \<Rightarrow> uint64 \<Rightarrow> world \<Rightarrow> bool res" where
  "CategoryRepository_CategoryExists repo orgID i w =
     (if \<not> category_ready repo \<or> orgID = 0 \<or> i = 0 then (Inl (Sentinel ErrInvalidCategoryInput), w)
      else go_try (db_query (\<lambda>d. length (filter (category_at orgID i) (t_categories d))) w)
             (\<lambda>n w. (Inr (n > 0), w)))"

section \<open>Service\<close>

record OrgDTO =
  og_ID :: uint64
  og_Name :: string
  og_CateID :: uint64
  og_Enabled :: bool
  og_Sort :: int64

record CreateCategoryInput =
  cc_OrgID :: uint64
  cc_Name :: string
  cc_Enabled :: bool
  cc_Sort :: int64

record CategoryDTO =
  cd_ID :: uint64
  cd_OrgID :: uint64
  cd_Name :: string
  cd_Enabled :: bool
  cd_Sort :: int64
  cd_CreatorID :: uint64
  cd_CreatorName :: string
  cd_UpdaterID :: uint64
  cd_UpdaterName :: string
  cd_CreateAt :: instant
  cd_UpdateAt :: instant

record CategoryListResult =
  cl_Page :: int
  cl_PageSize :: int
  cl_Total :: int64
  cl_Items :: "CategoryDTO list"

record CategoryService =
  cs_repo :: "CategoryRepository option"

definition NewCategoryService :: "CategoryRepository option \<Rightarrow> CategoryService option" where
  "NewCategoryService repo = Some \<lparr>cs_repo = repo\<rparr>"

definition category_service_ready :: "CategoryService option \<Rightarrow> bool" where
  "category_service_ready service =
     (case service of None \<Rightarrow> False | Some s \<Rightarrow> \<not> Option.is_none (cs_repo s))"

definition category_repo :: "CategoryService option \<Rightarrow> CategoryRepository option" where
  "category_repo service = (case service of None \<Rightarrow> None | Some s \<Rightarrow> cs_repo s)"

definition buildCategoryDTO :: "InspectionCategory \<Rightarrow> CategoryDTO" where
  "buildCategoryDTO c =
     \<lparr>cd_ID = cat_ID c, cd_OrgID = cat_OrgID c, cd_Name = cat_Name c, cd_Enabled = cat_Enabled c, cd_Sort = cat_Sort c,
      cd_CreatorID = cat_CreatorID c, cd_CreatorName = cat_CreatorName c, cd_UpdaterID = cat_UpdaterID c,
      cd_UpdaterName = cat_UpdaterName c, cd_CreateAt = cat_CreateAt c, cd_UpdateAt = cat_UpdateAt c\<rparr>"

definition normalizeCategoryInput :: "CreateCategoryInput \<Rightarrow> goerr + CreateCategoryInput" where
  "normalizeCategoryInput inp =
     (if cc_OrgID inp = 0 then Inl (Wrapf '''' (Sentinel ErrInvalidCategoryInput) '': orgid is required'')
      else
        (let name = TrimSpace (cc_Name inp) in
         if name = '''' then Inl (Wrapf '''' (Sentinel ErrInvalidCategoryInput) '': name is required'')
         else Inr (inp\<lparr>cc_Name := name\<rparr>)))"

definition CategoryService_ListOrgs :: "CategoryService option \<Rightarrow> world \<Rightarrow> OrgDTO list res" where
  "CategoryService_ListOrgs service w =
     (if \<not> category_service_ready service then (Inl (Sentinel ErrInvalidCategoryInput), w)
      else go_try (CategoryRepository_ListOrgs (category_repo service) w) (\<lambda>items w.
        (Inr (map (\<lambda>g. \<lparr>og_ID = org_ID g, og_Name = org_Name g, og_CateID = org_CateID g,
                        og_Enabled = org_Enabled g, og_Sort = org_Sort g\<rparr>) items), w)))"

definition CategoryService_List :: "CategoryService option \<Rightarrow> CategoryListInput \<Rightarrow> world \<Rightarrow> CategoryListResult res" where
  "CategoryService_List service inp w =
     (if \<not> category_service_ready service \<or> ci_OrgID inp = 0 then (Inl (Sentinel ErrInvalidCategoryInput), w)
      else
        (let (page, pageSize) = NormalizePage (ci_Page inp) (ci_PageSize inp) in
         go_try (CategoryRepository_List (category_repo service)
                   \<lparr>ci_OrgID = ci_OrgID inp, ci_Page = page, ci_PageSize = pageSize, ci_Enabled = ci_Enabled inp,
                    ci_Query = TrimSpace (ci_Query inp)\<rparr> w) (\<lambda>(items, n) w.
           (Inr \<lparr>cl_Page = page, cl_PageSize = pageSize, cl_Total = n, cl_Items = map buildCategoryDTO items\<rparr>, w))))"

definition CategoryService_Get :: "CategoryService option \<Rightarrow> uint64 \<Rightarrow> uint64 \<Rightarrow> world \<Rightarrow> CategoryDTO res" where
  "CategoryService_Get service orgID i w =
     (if \<not> category_service_ready service \<or> orgID = 0 \<or> i = 0 then (Inl (Sentinel ErrInvalidCategoryInput), w)
      else go_try (CategoryRepository_Get (category_repo service) orgID i w) (\<lambda>item w. (Inr (buildCategoryDTO item), w)))"

text \<open>
  \<open>Create\<close> and \<open>Update\<close> use their receiver without a nil check; the constructor never returns
  nil, so here the receiver is a value.
\<close>

definition CategoryService_Create ::
    "gocontext \<Rightarrow> CategoryService \<Rightarrow> CreateCategoryInput \<Rightarrow> world \<Rightarrow> CategoryDTO res" where
  "CategoryService_Create cx service inp w =
     (case normalizeCategoryInput inp of
        Inl e \<Rightarrow> (Inl e, w)
      | Inr n \<Rightarrow>
          (let op = ResolveOperator cx;
               item = \<lparr>cat_ID = 0, cat_OrgID = cc_OrgID n, cat_Name = cc_Name n, cat_Enabled = cc_Enabled n,
                       cat_Sort = cc_Sort n, cat_CreatorID = op_ID op, cat_CreatorName = op_Name op,
                       cat_UpdaterID = op_ID op, cat_UpdaterName = op_Name op, cat_CreateAt = 0, cat_UpdateAt = 0\<rparr>
           in go_try (CategoryRepository_Create (cs_repo service) item w) (\<lambda>item w.
                CategoryService_Get (Some service) (cat_OrgID item) (cat_ID item) w)))"

definition CategoryService_Update ::
    "gocontext \<Rightarrow> CategoryService \<Rightarrow> uint64 \<Rightarrow> CreateCategoryInput \<Rightarrow> world \<Rightarrow> CategoryDTO res" where
  "CategoryService_Update cx service i inp w =
     (if i = 0 then (Inl (Sentinel ErrInvalidCategoryInput), w)
      else
        (case normalizeCategoryInput inp of
           Inl e \<Rightarrow> (Inl e, w)
         | Inr n \<Rightarrow>
             (let op = ResolveOperator cx;
                  item = \<lparr>cat_ID = i, cat_OrgID = cc_OrgID n, cat_Name = cc_Name n, cat_Enabled = cc_Enabled n,
                          cat_Sort = cc_Sort n, cat_CreatorID = 0, cat_CreatorName = '''',
                          cat_UpdaterID = op_ID op, cat_UpdaterName = op_Name op, cat_CreateAt = 0, cat_UpdateAt = 0\<rparr>
              in go_try (CategoryRepository_Update (cs_repo service) item w) (\<lambda>_ w.
                   CategoryService_Get (Some service) (cc_OrgID n) i w))))"

definition CategoryService_Delete :: "CategoryService option \<Rightarrow> uint64 \<Rightarrow> uint64 \<Rightarrow> world \<Rightarrow> unit res" where
  "CategoryService_Delete service orgID i w =
     (if \<not> category_service_ready service \<or> orgID = 0 \<or> i = 0 then (Inl (Sentinel ErrInvalidCategoryInput), w)
      else CategoryRepository_Delete (category_repo service) orgID i w)"

definition CategoryService_PatchEnabled ::
    "gocontext \<Rightarrow> CategoryService option \<Rightarrow> uint64 \<Rightarrow> uint64 \<Rightarrow> bool \<Rightarrow> world \<Rightarrow> CategoryDTO res" where
  "CategoryService_PatchEnabled cx service orgID categoryID enabled w =
     (if \<not> category_service_ready service \<or> orgID = 0 \<or> categoryID = 0 then (Inl (Sentinel ErrInvalidCategoryInput), w)
      else
        (let op = ResolveOperator cx in
         go_try (CategoryRepository_PatchEnabled (category_repo service) orgID categoryID enabled (op_ID op) (op_Name op) w)
           (\<lambda>_ w. CategoryService_Get service orgID categoryID w)))"

section \<open>Routes\<close>

definition rules_statusFromError :: "goerr \<Rightarrow> int \<times> string" where
  "rules_statusFromError e =
     (if errors_is e ErrUnauthorized then (401, ''unauthorized'')
      else if errors_is e ErrCategoryNotFound \<or> errors_is e ErrKeywordNotFound \<or> errors_is e ErrRecordNotFound
        then (404, ''resource not found'')
      else if errors_is e ErrInvalidCategoryInput then (400, ''invalid category input'')
      else if errors_is e ErrInvalidKeywordInput then (400, ''invalid keyword input'')
      else (500, ''internal server error''))"

record categoryQueryRequest =
  cq_OrgID :: string
  cq_Page :: param
  cq_PageSize :: param
  cq_Query :: string
  cq_Enabled :: param

record categoryBody =
  cb_OrgID :: uint64
  cb_Name :: string
  cb_Enabled :: bool
  cb_Sort :: int64

definition org_list_handler :: "CategoryService option \<Rightarrow> world \<Rightarrow> OrgDTO list EnvelopeOutput \<times> world" where
  "org_list_handler service w =
     or_failure rules_statusFromError (CategoryService_ListOrgs service w)
       (\<lambda>result w. (SuccessOKEnvelope 200 ''org list'' result, w))"

definition category_list_handler ::
    "CategoryService option \<Rightarrow> gocontext \<Rightarrow> categoryQueryRequest \<Rightarrow> world \<Rightarrow> CategoryListResult EnvelopeOutput \<times> world" where
  "category_list_handler service cx inp =
     or_bad_request (guard_true (ValidateOptionalOrgID (cq_OrgID inp))) ''invalid category input'' (\<lambda>_ w.
       or_failure rules_statusFromError (CurrentOrgID cx, w) (\<lambda>orgID.
         or_bad_request (OptionalIntParam_Value (cq_Page inp)) ''invalid category input'' (\<lambda>page.
           or_bad_request (OptionalIntParam_Value (cq_PageSize inp)) ''invalid category input'' (\<lambda>pageSize.
             or_bad_request (OptionalBoolParam_Ptr (cq_Enabled inp)) ''invalid enabled filter'' (\<lambda>enabled w.
               or_failure rules_statusFromError
                 (CategoryService_List service
                    \<lparr>ci_OrgID = orgID, ci_Page = page, ci_PageSize = pageSize, ci_Enabled = enabled, ci_Query = cq_Query inp\<rparr> w)
                 (\<lambda>result w. (SuccessOKEnvelope 200 ''category list'' result, w)))))))"

definition category_create_handler ::
    "CategoryService \<Rightarrow> gocontext \<Rightarrow> categoryBody \<Rightarrow> world \<Rightarrow> CategoryDTO EnvelopeOutput \<times> world" where
  "category_create_handler service cx body w =
     or_failure rules_statusFromError (CurrentOrgID cx, w) (\<lambda>orgID w.
       or_failure rules_statusFromError
         (CategoryService_Create cx service
            \<lparr>cc_OrgID = orgID, cc_Name = cb_Name body, cc_Enabled = cb_Enabled body, cc_Sort = cb_Sort body\<rparr> w)
         (\<lambda>item w. (SuccessCreatedEnvelope ''category created'' item, w)))"

definition category_detail_handler ::
    "CategoryService option \<Rightarrow> gocontext \<Rightarrow> string \<Rightarrow> string \<Rightarrow> world \<Rightarrow> CategoryDTO EnvelopeOutput \<times> world" where
  "category_detail_handler service cx rawID rawOrg =
     or_bad_request (Uint64Param_Parse rawID) ''invalid category input'' (\<lambda>i.
       or_bad_request (guard_true (ValidateOptionalOrgID rawOrg)) ''invalid category input'' (\<lambda>_ w.
         or_failure rules_statusFromError (CurrentOrgID cx, w) (\<lambda>orgID w.
           or_failure rules_statusFromError (CategoryService_Get service orgID i w)
             (\<lambda>item w. (SuccessOKEnvelope 200 ''category detail'' item, w)))))"

definition category_update_handler ::
    "CategoryService \<Rightarrow> gocontext \<Rightarrow> string \<Rightarrow> categoryBody \<Rightarrow> world \<Rightarrow> CategoryDTO EnvelopeOutput \<times> world" where
  "category_update_handler service cx rawID body =
     or_bad_request (Uint64Param_Parse rawID) ''invalid category input'' (\<lambda>i w.
       or_failure rules_statusFromError (CurrentOrgID cx, w) (\<lambda>orgID w.
         or_failure rules_statusFromError
           (CategoryService_Update cx service i
              \<lparr>cc_OrgID = orgID, cc_Name = cb_Name body, cc_Enabled = cb_Enabled body, cc_Sort = cb_Sort body\<rparr> w)
           (\<lambda>item w. (SuccessOKEnvelope 200 ''category updated'' item, w))))"

definition category_status_patch_handler ::
    "CategoryService option \<Rightarrow> gocontext \<Rightarrow> string \<Rightarrow> bool \<Rightarrow> world \<Rightarrow> CategoryDTO EnvelopeOutput \<times> world" where
  "category_status_patch_handler service cx rawID enabled =
     or_bad_request (Uint64Param_Parse rawID) ''invalid category input'' (\<lambda>i w.
       or_failure rules_statusFromError (CurrentOrgID cx, w) (\<lambda>orgID w.
         or_failure rules_statusFromError (CategoryService_PatchEnabled cx service orgID i enabled w)
           (\<lambda>item w. (SuccessOKEnvelope 200 ''category status updated'' item, w))))"

definition category_delete_handler ::
    "CategoryService option \<Rightarrow> gocontext \<Rightarrow> string \<Rightarrow> string \<Rightarrow> world \<Rightarrow> uint64 EnvelopeOutput \<times> world" where
  "category_delete_handler service cx rawID rawOrg =
     or_bad_request (Uint64Param_Parse rawID) ''invalid category input'' (\<lambda>i.
       or_bad_request (guard_true (ValidateOptionalOrgID rawOrg)) ''invalid category input'' (\<lambda>_ w.
         or_failure rules_statusFromError (CurrentOrgID cx, w) (\<lambda>orgID w.
           or_failure rules_statusFromError (CategoryService_Delete service orgID i w)
             (\<lambda>_ w. (SuccessOKEnvelope 200 ''category deleted'' i, w)))))"

section \<open>Categories stay in their organisation\<close>

lemma CategoryService_List_owned:
  "i = ci_OrgID inp \<Longrightarrow> owned cd_OrgID cl_Items i (CategoryService_List service inp)"
proof (rule ownedI)
  show "store (snd (CategoryService_List service inp w)) = store w" for w
    by (auto simp: CategoryService_List_def CategoryRepository_List_def go_try_pure_store split: prod.split)
  show "cd_OrgID r = i" if "i = ci_OrgID inp" "CategoryService_List service inp w = (Inr x, w')" "r \<in> set (cl_Items x)" for x r w w'
    using that set_page_rows
    by (fastforce simp: CategoryService_List_def CategoryRepository_List_def go_try_Inr_iff category_query_def buildCategoryDTO_def
        Let_def dest!: count_and_page_Inr split: if_splits prod.splits)
qed

lemma CategoryService_Get_owned: "owned cd_OrgID (\<lambda>x. [x]) i (CategoryService_Get service i c)"
proof (rule ownedI)
  show "store (snd (CategoryService_Get service i c w)) = store w" for w
    by (auto simp: CategoryService_Get_def CategoryRepository_Get_def go_try_def db_first_def db_stmt_def
        split: option.split prod.splits sum.splits if_splits)
  show "cd_OrgID r = i" if "CategoryService_Get service i c w = (Inr x, w')" "r \<in> set [x]" for x r w w'
    using that
    by (auto simp: CategoryService_Get_def CategoryRepository_Get_def go_try_Inr_iff category_at_def buildCategoryDTO_def
        dest!: db_first_Inr first_row_Some split: if_splits prod.splits sum.splits)
qed

lemma category_routes_confined:
  "confined cd_OrgID cl_Items (session_org cx) (category_list_handler service cx q)"
  "confined cd_OrgID (\<lambda>x. [x]) (session_org cx) (category_detail_handler service cx rawID rawOrg)"
  unfolding category_list_handler_def category_detail_handler_def
  by (intro confined_bad_request confined_org confined_service CategoryService_List_owned CategoryService_Get_owned, simp) (intro confined_bad_request confined_org confined_service CategoryService_List_owned CategoryService_Get_owned)

end
