(* ===== verification/Keywords.thy ===== *)
theory Keywords
  imports Categories Scan
begin

text \<open>
  Keywords and their scopes (\<open>internal/modules/articleinspect/rules\<close>, the keyword half): the
  validator, the repository, the service, the rule snapshots given to the scanner, and the
  routes.
\<close>

section \<open>Validation\<close>

record CreateKeywordInput =
  ck_OrgID :: uint64
  ck_Name :: string
  ck_CategoryID :: uint64
  ck_MatchType :: string
  ck_RiskLevel :: string
  ck_SuggestAction :: string
  ck_Enabled :: bool
  ck_Remark :: string
  ck_Scopes :: "string list"

definition containsString :: "string list \<Rightarrow> string \<Rightarrow> bool" where
  "containsString values target = list_ex (\<lambda>v. v = target) values"

definition keyword_error :: "string \<Rightarrow> goerr" where
  "keyword_error s = Wrapf '''' (Sentinel ErrInvalidKeywordInput) s"

text \<open>The loop of \<open>normalizeKeywordScopes\<close>: \<open>seen\<close> are the scopes kept so far, in order.\<close>

fun normalize_scopes :: "unicode_tables \<Rightarrow> string list \<Rightarrow> string list \<Rightarrow> goerr + string list" where
  "normalize_scopes ut [] seen = Inr seen"
| "normalize_scopes ut (s # ss) seen =
     (let scope = TrimSpace (ToLower ut s) in
      if \<not> containsString InspectionKeywordScopes scope
      then Inl (keyword_error ('': unsupported scope '' @ ut_quote ut scope))
      else if scope \<in> set seen then normalize_scopes ut ss seen
      else normalize_scopes ut ss (seen @ [scope]))"

definition normalizeKeywordScopes :: "unicode_tables \<Rightarrow> string list \<Rightarrow> goerr + string list" where
  "normalizeKeywordScopes ut scopes =
     (if scopes = [] then Inl (keyword_error '': scopes are required'')
      else map_sum id sort (normalize_scopes ut scopes []))"

definition normalizeCreateKeywordInput ::
    "unicode_tables \<Rightarrow> CreateKeywordInput \<Rightarrow> goerr + CreateKeywordInput" where
  "normalizeCreateKeywordInput ut inp =
     (let name = TrimSpace (ck_Name inp);
          matchType = TrimSpace (ToLower ut (ck_MatchType inp));
          riskLevel = TrimSpace (ToLower ut (ck_RiskLevel inp));
          suggestAction = TrimSpace (ToLower ut (ck_SuggestAction inp))
      in
      if ck_OrgID inp = 0 then Inl (keyword_error '': orgid is required'')
      else if name = '''' then Inl (keyword_error '': name is required'')
      else if ck_CategoryID inp = 0 then Inl (keyword_error '': category_id is required'')
      else if \<not> containsString InspectionMatchTypes matchType
        then Inl (keyword_error ('': unsupported match type '' @ ut_quote ut (ck_MatchType inp)))
      else if \<not> containsString InspectionRiskLevels riskLevel
        then Inl (keyword_error ('': unsupported risk level '' @ ut_quote ut (ck_RiskLevel inp)))
      else if \<not> containsString InspectionSuggestActions suggestAction
        then Inl (keyword_error ('': unsupported suggest action '' @ ut_quote ut (ck_SuggestAction inp)))
      else map_sum id (\<lambda>scopes.
             \<lparr>ck_OrgID = ck_OrgID inp, ck_Name = name, ck_CategoryID = ck_CategoryID inp, ck_MatchType = matchType,
              ck_RiskLevel = riskLevel, ck_SuggestAction = suggestAction, ck_Enabled = ck_Enabled inp,
              ck_Remark = TrimSpace (ck_Remark inp), ck_Scopes = scopes\<rparr>) (normalizeKeywordScopes ut (ck_Scopes inp)))"

section \<open>Repository\<close>

record KeywordRepository =
  kp_hasDB :: bool

record KeywordListFilter =
  kf_OrgID :: uint64
  kf_Page :: int
  kf_PageSize :: int
  kf_Enabled :: "bool option"
  kf_CategoryID :: uint64
  kf_Query :: string

record KeywordRecord =
  rk_Keyword :: InspectionKeyword
  rk_CategoryName :: string

definition keyword_ready :: "KeywordRepository option \<Rightarrow> bool" where
  "keyword_ready repo = (case repo of None \<Rightarrow> False | Some r \<Rightarrow> kp_hasDB r)"

definition ensureKeywordCategoryExists :: "uint64 \<Rightarrow> uint64 \<Rightarrow> world \<Rightarrow> unit res" where
  "ensureKeywordCategoryExists orgID categoryID w =
     (if orgID = 0 \<or> categoryID = 0 then (Inl (Sentinel ErrInvalidKeywordInput), w)
      else go_try (db_query (\<lambda>d. length (filter (category_at orgID categoryID) (t_categories d))) w) (\<lambda>n w.
        if n = 0 then (Inl (Sentinel ErrInvalidKeywordInput), w) else (Inr (), w)))"

text \<open>\<open>tx.Create(&scopes)\<close> after the keyword id and the organisation have been filled in.\<close>

definition create_scopes :: "uint64 \<Rightarrow> uint64 \<Rightarrow> InspectionKeywordScope list \<Rightarrow> world \<Rightarrow> unit res" where
  "create_scopes keywordID orgID scopes w =
     (if scopes = [] then (Inr (), w)
      else go_try (db_create_all TScopes t_scopes t_scopes_update no_unique
                     (map (\<lambda>s i at. s\<lparr>ks_ID := i, ks_KeywordID := keywordID, ks_OrgID := orgID,
                                      ks_CreateAt := at, ks_UpdateAt := at\<rparr>) scopes) w)
             (\<lambda>_ w. (Inr (), w)))"

definition KeywordRepository_Create ::
    "KeywordRepository option \<Rightarrow> InspectionKeyword \<Rightarrow> InspectionKeywordScope list \<Rightarrow> world \<Rightarrow> InspectionKeyword res" where
  "KeywordRepository_Create repo keyword scopes w =
     (if \<not> keyword_ready repo then (Inl (Sentinel ErrInvalidKeywordInput), w)
      else db_transaction (\<lambda>w.
        go_try (ensureKeywordCategoryExists (kw_OrgID keyword) (kw_CategoryID keyword) w) (\<lambda>_ w.
        go_try (db_create TKeywords t_keywords t_keywords_update no_unique
                  (\<lambda>i at. keyword\<lparr>kw_ID := i, kw_Enabled := default_true (kw_Enabled keyword),
                                   kw_CreateAt := at, kw_UpdateAt := at\<rparr>) w) (\<lambda>k w.
        go_try (create_scopes (kw_ID k) (kw_OrgID k) scopes w) (\<lambda>_ w. (Inr k, w))))) w)"

definition keyword_at :: "uint64 \<Rightarrow> uint64 \<Rightarrow> InspectionKeyword \<Rightarrow> bool" where
  "keyword_at orgID i k = (kw_OrgID k = orgID \<and> kw_ID k = i)"

definition scopes_at :: "uint64 \<Rightarrow> uint64 \<Rightarrow> InspectionKeywordScope \<Rightarrow> bool" where
  "scopes_at orgID keywordID s = (ks_OrgID s = orgID \<and> ks_KeywordID s = keywordID)"

definition KeywordRepository_Update ::
    "KeywordRepository option \<Rightarrow> InspectionKeyword \<Rightarrow> InspectionKeywordScope list \<Rightarrow> world \<Rightarrow> unit res" where
  "KeywordRepository_Update repo keyword scopes w =
     (if \<not> keyword_ready repo \<or> kw_ID keyword = 0 \<or> kw_OrgID keyword = 0
      then (Inl (Sentinel ErrInvalidKeywordInput), w)
      else db_transaction (\<lambda>w.
        go_try (ensureKeywordCategoryExists (kw_OrgID keyword) (kw_CategoryID keyword) w) (\<lambda>_ w.
        go_try (db_update t_keywords t_keywords_update (keyword_at (kw_OrgID keyword) (kw_ID keyword))
                  (\<lambda>at k. k\<lparr>kw_Name := kw_Name keyword, kw_CategoryID := kw_CategoryID keyword,
                     kw_MatchType := kw_MatchType keyword, kw_RiskLevel := kw_RiskLevel keyword,
                     kw_SuggestAction := kw_SuggestAction keyword, kw_Enabled := kw_Enabled keyword,
                     kw_Remark := kw_Remark keyword, kw_UpdaterID := kw_UpdaterID keyword,
                     kw_UpdaterName := kw_UpdaterName keyword, kw_UpdateAt := at\<rparr>) w) (\<lambda>n w.
          if n = 0 then (Inl (Sentinel ErrKeywordNotFound), w)
          else go_try (db_delete t_scopes t_scopes_update (scopes_at (kw_OrgID keyword) (kw_ID keyword)) w) (\<lambda>_ w.
            create_scopes (kw_ID keyword) (kw_OrgID keyword) scopes w)))) w)"

definition KeywordRepository_Delete :: "KeywordRepository option \<Rightarrow> uint64 \<Rightarrow> uint64 \<Rightarrow> world \<Rightarrow> unit res" where
  "KeywordRepository_Delete repo orgID i w =
     (if \<not> keyword_ready repo \<or> orgID = 0 \<or> i = 0 then (Inl (Sentinel ErrInvalidKeywordInput), w)
      else db_transaction (\<lambda>w.
        go_try (db_delete t_scopes t_scopes_update (scopes_at orgID i) w) (\<lambda>_ w.
        go_try (db_delete t_keywords t_keywords_update (keyword_at orgID i) w) (\<lambda>n w.
          if n = 0 then (Inl (Sentinel ErrKeywordNotFound), w) else (Inr (), w)))) w)"

text \<open>The inner join of keywords and categories of one organisation.\<close>

definition keywordQuery :: "uint64 \<Rightarrow> db \<Rightarrow> KeywordRecord list" where
  "keywordQuery orgID d =
     concat (map (\<lambda>k. map (\<lambda>c. \<lparr>rk_Keyword = k, rk_CategoryName = cat_Name c\<rparr>)
        (filter (category_at (kw_OrgID k) (kw_CategoryID k)) (t_categories d)))
        (filter (\<lambda>k. kw_OrgID k = orgID) (t_keywords d)))"

text \<open>\<open>listScopes\<close>: the scope rows of some keywords; the map of the source is a function here.\<close>

definition scope_query :: "uint64 \<Rightarrow> uint64 list \<Rightarrow> db \<Rightarrow> InspectionKeywordScope list" where
  "scope_query orgID ids d =
     sort_key ks_KeywordID (sort_key ks_Scope
       (filter (\<lambda>s. ks_OrgID s = orgID \<and> ks_KeywordID s \<in> set ids) (t_scopes d)))"

definition group_scopes :: "InspectionKeywordScope list \<Rightarrow> uint64 \<Rightarrow> InspectionKeywordScope list" where
  "group_scopes scopes i = filter (\<lambda>s. ks_KeywordID s = i) scopes"

definition listScopes :: "uint64 \<Rightarrow> uint64 list \<Rightarrow> world \<Rightarrow> (uint64 \<Rightarrow> InspectionKeywordScope list) res" where
  "listScopes orgID keywordIDs w =
     (if keywordIDs = [] then (Inr (group_scopes []), w)
      else go_try (db_query (scope_query orgID keywordIDs) w) (\<lambda>scopes w. (Inr (group_scopes scopes), w)))"

definition getKeyword :: "uint64 \<Rightarrow> uint64 \<Rightarrow> world \<Rightarrow> KeywordRecord res" where
  "getKeyword orgID i w =
     go_try (db_query (\<lambda>d. filter (\<lambda>r. kw_ID (rk_Keyword r) = i) (keywordQuery orgID d)) w) (\<lambda>rs w.
       case rs of [] \<Rightarrow> (Inl (Sentinel ErrKeywordNotFound), w) | r # _ \<Rightarrow> (Inr r, w))"

definition KeywordRepository_Get ::
    "KeywordRepository option \<Rightarrow> uint64 \<Rightarrow> uint64 \<Rightarrow> world \<Rightarrow> (KeywordRecord \<times> InspectionKeywordScope list) res" where
  "KeywordRepository_Get repo orgID i w =
     (if \<not> keyword_ready repo \<or> orgID = 0 \<or> i = 0 then (Inl (Sentinel ErrInvalidKeywordInput), w)
      else go_try (getKeyword orgID i w) (\<lambda>item w.
           go_try (listScopes orgID [i] w) (\<lambda>scopes w. (Inr (item, scopes i), w))))"

definition keyword_filter :: "(string \<Rightarrow> string \<Rightarrow> bool) \<Rightarrow> KeywordListFilter \<Rightarrow> InspectionKeyword \<Rightarrow> bool" where
  "keyword_filter like f k =
     (let q = TrimSpace (kf_Query f) in
      (case kf_Enabled f of None \<Rightarrow> True | Some b \<Rightarrow> kw_Enabled k = b) \<and>
      (kf_CategoryID f = 0 \<or> kw_CategoryID k = kf_CategoryID f) \<and>
      (q = '''' \<or> like (kw_Name k) (''%'' @ q @ ''%'') \<or> like (kw_Remark k) (''%'' @ q @ ''%'')))"

definition KeywordRepository_List ::
    "KeywordRepository option \<Rightarrow> KeywordListFilter \<Rightarrow> world \<Rightarrow>
     (KeywordRecord list \<times> (uint64 \<Rightarrow> InspectionKeywordScope list) \<times> int64) res" where
  "KeywordRepository_List repo f w =
     (if \<not> keyword_ready repo \<or> kf_OrgID f = 0 then (Inl (Sentinel ErrInvalidKeywordInput), w)
      else
        (let (page, pageSize) = NormalizePage (kf_Page f) (kf_PageSize f); like = sql_like w in
         go_try (db_query (\<lambda>d. int (length (filter (keyword_filter like f)
                   (filter (\<lambda>k. kw_OrgID k = kf_OrgID f) (t_keywords d))))) w) (\<lambda>n w.
         go_try (db_query (\<lambda>d. page_rows page pageSize (sort_key (\<lambda>r. kw_ID (rk_Keyword r))
                   (filter (\<lambda>r. keyword_filter like f (rk_Keyword r)) (keywordQuery (kf_OrgID f) d)))) w) (\<lambda>items w.
           if items = [] then (Inr (items, group_scopes [], n), w)
           else go_try (listScopes (kf_OrgID f) (map (\<lambda>r. kw_ID (rk_Keyword r)) items) w) (\<lambda>scopes w.
             (Inr (items, scopes, n), w))))))"

definition KeywordRepository_PatchEnabled ::
    "KeywordRepository option \<Rightarrow> uint64 \<Rightarrow> uint64 \<Rightarrow> bool \<Rightarrow> uint64 \<Rightarrow> string \<Rightarrow> world \<Rightarrow> unit res" where
  "KeywordRepository_PatchEnabled repo orgID i enabled updaterID updaterName w =
     (if \<not> keyword_ready repo \<or> orgID = 0 \<or> i = 0 then (Inl (Sentinel ErrInvalidKeywordInput), w)
      else go_try (db_update t_keywords t_keywords_update (keyword_at orgID i)
                     (\<lambda>at k. k\<lparr>kw_Enabled := enabled, kw_UpdaterID := updaterID, kw_UpdaterName := updaterName,
                               kw_UpdateAt := at\<rparr>) w)
             (\<lambda>n w. if n = 0 then (Inl (Sentinel ErrKeywordNotFound), w) else (Inr (), w)))"

definition KeywordRepository_ListByIDs ::
    "KeywordRepository option \<Rightarrow> uint64 \<Rightarrow> uint64 list \<Rightarrow> world \<Rightarrow>
     (KeywordRecord list \<times> (uint64 \<Rightarrow> InspectionKeywordScope list)) res" where
  "KeywordRepository_ListByIDs repo orgID ids w =
     (if \<not> keyword_ready repo \<or> orgID = 0 \<or> ids = [] then (Inl (Sentinel ErrInvalidKeywordInput), w)
      else
        go_try (db_query (\<lambda>d. sort_key (\<lambda>r. kw_ID (rk_Keyword r))
                  (filter (\<lambda>r. kw_ID (rk_Keyword r) \<in> set ids) (keywordQuery orgID d))) w) (\<lambda>items w.
        go_try (listScopes orgID ids w) (\<lambda>scopes w. (Inr (items, scopes), w))))"

definition BuildKeywordRuleSnapshots ::
    "KeywordRecord list \<Rightarrow> (uint64 \<Rightarrow> InspectionKeywordScope list) \<Rightarrow> KeywordRule list" where
  "BuildKeywordRuleSnapshots keywords scopesByKeyword =
     map (\<lambda>r. let k = rk_Keyword r in
       \<lparr>kr_ID = kw_ID k, kr_Name = kw_Name k, kr_Category = rk_CategoryName r, kr_MatchType = kw_MatchType k,
        kr_RiskLevel = kw_RiskLevel k, kr_SuggestAction = kw_SuggestAction k,
        kr_Scopes = sort (map ks_Scope (scopesByKeyword (kw_ID k)))\<rparr>) keywords"

section \<open>Service\<close>

record KeywordDTO =
  kd_ID :: uint64
  kd_OrgID :: uint64
  kd_Name :: string
  kd_CategoryID :: uint64
  kd_CategoryName :: string
  kd_MatchType :: string
  kd_RiskLevel :: string
  kd_SuggestAction :: string
  kd_Enabled :: bool
  kd_Remark :: string
  kd_Scopes :: "string list"
  kd_CreatorID :: uint64
  kd_CreatorName :: string
  kd_UpdaterID :: uint64
  kd_UpdaterName :: string

record KeywordListResult =
  kl_Page :: int
  kl_PageSize :: int
  kl_Total :: int64
  kl_Items :: "KeywordDTO list"

record KeywordService =
  kv_repo :: "KeywordRepository option"

definition keyword_repo :: "KeywordService option \<Rightarrow> KeywordRepository option" where
  "keyword_repo service = (case service of None \<Rightarrow> None | Some s \<Rightarrow> kv_repo s)"

definition keyword_service_ready :: "KeywordService option \<Rightarrow> bool" where
  "keyword_service_ready service = (\<not> Option.is_none (keyword_repo service))"

definition buildKeywordScopes :: "uint64 \<Rightarrow> string list \<Rightarrow> InspectionKeywordScope list" where
  "buildKeywordScopes orgID scopes =
     map (\<lambda>s. \<lparr>ks_ID = 0, ks_OrgID = orgID, ks_KeywordID = 0, ks_Scope = s, ks_CreateAt = 0, ks_UpdateAt = 0\<rparr>) scopes"

definition buildKeywordDTO :: "KeywordRecord \<Rightarrow> InspectionKeywordScope list \<Rightarrow> KeywordDTO" where
  "buildKeywordDTO r scopes =
     (let k = rk_Keyword r in
      \<lparr>kd_ID = kw_ID k, kd_OrgID = kw_OrgID k, kd_Name = kw_Name k, kd_CategoryID = kw_CategoryID k,
       kd_CategoryName = rk_CategoryName r, kd_MatchType = kw_MatchType k, kd_RiskLevel = kw_RiskLevel k,
       kd_SuggestAction = kw_SuggestAction k, kd_Enabled = kw_Enabled k, kd_Remark = kw_Remark k,
       kd_Scopes = sort (map ks_Scope scopes), kd_CreatorID = kw_CreatorID k, kd_CreatorName = kw_CreatorName k,
       kd_UpdaterID = kw_UpdaterID k, kd_UpdaterName = kw_UpdaterName k\<rparr>)"

definition keyword_of :: "uint64 \<Rightarrow> CreateKeywordInput \<Rightarrow> Operator \<Rightarrow> InspectionKeyword" where
  "keyword_of i n op =
     \<lparr>kw_ID = i, kw_OrgID = ck_OrgID n, kw_Name = ck_Name n, kw_CategoryID = ck_CategoryID n,
      kw_MatchType = ck_MatchType n, kw_RiskLevel = ck_RiskLevel n, kw_SuggestAction = ck_SuggestAction n,
      kw_Enabled = ck_Enabled n, kw_Remark = ck_Remark n,
      kw_CreatorID = (if i = 0 then op_ID op else 0), kw_CreatorName = (if i = 0 then op_Name op else ''''),
      kw_UpdaterID = op_ID op, kw_UpdaterName = op_Name op, kw_CreateAt = 0, kw_UpdateAt = 0\<rparr>"

definition KeywordService_Create ::
    "unicode_tables \<Rightarrow> gocontext \<Rightarrow> KeywordService option \<Rightarrow> CreateKeywordInput \<Rightarrow> world \<Rightarrow> KeywordDTO res" where
  "KeywordService_Create ut cx service inp w =
     (if \<not> keyword_service_ready service then (Inl (Sentinel ErrInvalidKeywordInput), w)
      else
        (case normalizeCreateKeywordInput ut inp of
           Inl e \<Rightarrow> (Inl e, w)
         | Inr n \<Rightarrow>
             go_try (KeywordRepository_Create (keyword_repo service) (keyword_of 0 n (ResolveOperator cx))
                       (buildKeywordScopes (ck_OrgID n) (ck_Scopes n)) w) (\<lambda>keyword w.
             go_try (KeywordRepository_Get (keyword_repo service) (kw_OrgID keyword) (kw_ID keyword) w) (\<lambda>(stored, scopes) w.
               (Inr (buildKeywordDTO stored scopes), w)))))"

definition KeywordService_Update ::
    "unicode_tables \<Rightarrow> gocontext \<Rightarrow> KeywordService option \<Rightarrow> uint64 \<Rightarrow> CreateKeywordInput \<Rightarrow> world \<Rightarrow> KeywordDTO res" where
  "KeywordService_Update ut cx service i inp w =
     (if \<not> keyword_service_ready service \<or> i = 0 then (Inl (Sentinel ErrInvalidKeywordInput), w)
      else
        (case normalizeCreateKeywordInput ut inp of
           Inl e \<Rightarrow> (Inl e, w)
         | Inr n \<Rightarrow>
             go_try (KeywordRepository_Update (keyword_repo service) (keyword_of i n (ResolveOperator cx))
                       (buildKeywordScopes (ck_OrgID n) (ck_Scopes n)) w) (\<lambda>_ w.
             go_try (KeywordRepository_Get (keyword_repo service) (ck_OrgID n) i w) (\<lambda>(stored, scopes) w.
               (Inr (buildKeywordDTO stored scopes), w)))))"

definition KeywordService_Delete :: "KeywordService option \<Rightarrow> uint64 \<Rightarrow> uint64 \<Rightarrow> world \<Rightarrow> unit res" where
  "KeywordService_Delete service orgID i w =
     (if \<not> keyword_service_ready service \<or> orgID = 0 \<or> i = 0 then (Inl (Sentinel ErrInvalidKeywordInput), w)
      else KeywordRepository_Delete (keyword_repo service) orgID i w)"

definition KeywordService_Get :: "KeywordService option \<Rightarrow> uint64 \<Rightarrow> uint64 \<Rightarrow> world \<Rightarrow> KeywordDTO res" where
  "KeywordService_Get service orgID i w =
     (if \<not> keyword_service_ready service \<or> orgID = 0 \<or> i = 0 then (Inl (Sentinel ErrInvalidKeywordInput), w)
      else go_try (KeywordRepository_Get (keyword_repo service) orgID i w) (\<lambda>(keyword, scopes) w.
        (Inr (buildKeywordDTO keyword scopes), w)))"

definition KeywordService_List :: "KeywordService option \<Rightarrow> KeywordListFilter \<Rightarrow> world \<Rightarrow> KeywordListResult res" where
  "KeywordService_List service inp w =
     (if \<not> keyword_service_ready service \<or> kf_OrgID inp = 0 then (Inl (Sentinel ErrInvalidKeywordInput), w)
      else
        (let (page, pageSize) = NormalizePage (kf_Page inp) (kf_PageSize inp) in
         go_try (KeywordRepository_List (keyword_repo service)
                   (inp\<lparr>kf_Page := page, kf_PageSize := pageSize, kf_Query := TrimSpace (kf_Query inp)\<rparr>) w)
           (\<lambda>(items, scopesByKeyword, n) w.
             (Inr \<lparr>kl_Page = page, kl_PageSize = pageSize, kl_Total = n,
                   kl_Items = map (\<lambda>r. buildKeywordDTO r (scopesByKeyword (kw_ID (rk_Keyword r)))) items\<rparr>, w))))"

definition KeywordService_PatchEnabled ::
    "gocontext \<Rightarrow> KeywordService option \<Rightarrow> uint64 \<Rightarrow> uint64 \<Rightarrow> bool \<Rightarrow> world \<Rightarrow> KeywordDTO res" where
  "KeywordService_PatchEnabled cx service orgID keywordID enabled w =
     (if \<not> keyword_service_ready service \<or> orgID = 0 \<or> keywordID = 0 then (Inl (Sentinel ErrInvalidKeywordInput), w)
      else
        (let op = ResolveOperator cx in
         go_try (KeywordRepository_PatchEnabled (keyword_repo service) orgID keywordID enabled (op_ID op) (op_Name op) w) (\<lambda>_ w.
         go_try (KeywordRepository_Get (keyword_repo service) orgID keywordID w) (\<lambda>(keyword, scopes) w.
           (Inr (buildKeywordDTO keyword scopes), w)))))"

section \<open>Routes\<close>

record keywordQueryRequest =
  kq_OrgID :: string
  kq_Page :: param
  kq_PageSize :: param
  kq_CategoryID :: param
  kq_Query :: string
  kq_Enabled :: param

record keywordBody =
  kb_OrgID :: uint64
  kb_Name :: string
  kb_CategoryID :: uint64
  kb_MatchType :: string
  kb_RiskLevel :: string
  kb_SuggestAction :: string
  kb_Enabled :: bool
  kb_Remark :: string
  kb_Scopes :: "string list"

text \<open>The input of the service: everything but the organisation comes from the body.\<close>

definition keyword_input :: "uint64 \<Rightarrow> keywordBody \<Rightarrow> CreateKeywordInput" where
  "keyword_input orgID b =
     \<lparr>ck_OrgID = orgID, ck_Name = kb_Name b, ck_CategoryID = kb_CategoryID b, ck_MatchType = kb_MatchType b,
      ck_RiskLevel = kb_RiskLevel b, ck_SuggestAction = kb_SuggestAction b, ck_Enabled = kb_Enabled b,
      ck_Remark = kb_Remark b, ck_Scopes = kb_Scopes b\<rparr>"

definition keyword_create_handler ::
    "unicode_tables \<Rightarrow> KeywordService option \<Rightarrow> gocontext \<Rightarrow> keywordBody \<Rightarrow> world \<Rightarrow> KeywordDTO EnvelopeOutput \<times> world" where
  "keyword_create_handler ut service cx body w =
     or_failure rules_statusFromError (CurrentOrgID cx, w) (\<lambda>orgID w.
       or_failure rules_statusFromError (KeywordService_Create ut cx service (keyword_input orgID body) w)
         (\<lambda>item w. (SuccessCreatedEnvelope ''keyword created'' item, w)))"

definition keyword_list_handler ::
    "KeywordService option \<Rightarrow> gocontext \<Rightarrow> keywordQueryRequest \<Rightarrow> world \<Rightarrow> KeywordListResult EnvelopeOutput \<times> world" where
  "keyword_list_handler service cx inp =
     or_bad_request (guard_true (ValidateOptionalOrgID (kq_OrgID inp))) ''invalid keyword input'' (\<lambda>_ w.
       or_failure rules_statusFromError (CurrentOrgID cx, w) (\<lambda>orgID.
         or_bad_request (OptionalIntParam_Value (kq_Page inp)) ''invalid keyword input'' (\<lambda>page.
           or_bad_request (OptionalIntParam_Value (kq_PageSize inp)) ''invalid keyword input'' (\<lambda>pageSize.
             or_bad_request (OptionalUint64Param_Value (kq_CategoryID inp)) ''invalid keyword input'' (\<lambda>categoryID.
               or_bad_request (OptionalBoolParam_Ptr (kq_Enabled inp)) ''invalid enabled filter'' (\<lambda>enabled w.
                 or_failure rules_statusFromError
                   (KeywordService_List service
                      \<lparr>kf_OrgID = orgID, kf_Page = page, kf_PageSize = pageSize, kf_Enabled = enabled,
                       kf_CategoryID = categoryID, kf_Query = kq_Query inp\<rparr> w)
                   (\<lambda>result w. (SuccessOKEnvelope 200 ''keyword list'' result, w))))))))"

definition keyword_detail_handler ::
    "KeywordService option \<Rightarrow> gocontext \<Rightarrow> string \<Rightarrow> string \<Rightarrow> world \<Rightarrow> KeywordDTO EnvelopeOutput \<times> world" where
  "keyword_detail_handler service cx rawID rawOrg =
     or_bad_request (Uint64Param_Parse rawID) ''invalid keyword input'' (\<lambda>i.
       or_bad_request (guard_true (ValidateOptionalOrgID rawOrg)) ''invalid keyword input'' (\<lambda>_ w.
         or_failure rules_statusFromError (CurrentOrgID cx, w) (\<lambda>orgID w.
           or_failure rules_statusFromError (KeywordService_Get service orgID i w)
             (\<lambda>item w. (SuccessOKEnvelope 200 ''keyword detail'' item, w)))))"

definition keyword_update_handler ::
    "unicode_tables \<Rightarrow> KeywordService option \<Rightarrow> gocontext \<Rightarrow> string \<Rightarrow> keywordBody \<Rightarrow> world \<Rightarrow> KeywordDTO EnvelopeOutput \<times> world" where
  "keyword_update_handler ut service cx rawID body =
     or_bad_request (Uint64Param_Parse rawID) ''invalid keyword input'' (\<lambda>i w.
       or_failure rules_statusFromError (CurrentOrgID cx, w) (\<lambda>orgID w.
         or_failure rules_statusFromError (KeywordService_Update ut cx service i (keyword_input orgID body) w)
           (\<lambda>item w. (SuccessOKEnvelope 200 ''keyword updated'' item, w))))"

definition keyword_status_patch_handler ::
    "KeywordService option \<Rightarrow> gocontext \<Rightarrow> string \<Rightarrow> bool \<Rightarrow> world \<Rightarrow> KeywordDTO EnvelopeOutput \<times> world" where
  "keyword_status_patch_handler service cx rawID enabled =
     or_bad_request (Uint64Param_Parse rawID) ''invalid keyword input'' (\<lambda>i w.
       or_failure rules_statusFromError (CurrentOrgID cx, w) (\<lambda>orgID w.
         or_failure rules_statusFromError (KeywordService_PatchEnabled cx service orgID i enabled w)
           (\<lambda>item w. (SuccessOKEnvelope 200 ''keyword status updated'' item, w))))"

definition keyword_delete_handler ::
    "KeywordService option \<Rightarrow> gocontext \<Rightarrow> string \<Rightarrow> string \<Rightarrow> world \<Rightarrow> uint64 EnvelopeOutput \<times> world" where
  "keyword_delete_handler service cx rawID rawOrg =
     or_bad_request (Uint64Param_Parse rawID) ''invalid keyword input'' (\<lambda>i.
       or_bad_request (guard_true (ValidateOptionalOrgID rawOrg)) ''invalid keyword input'' (\<lambda>_ w.
         or_failure rules_statusFromError (CurrentOrgID cx, w) (\<lambda>orgID w.
           or_failure rules_statusFromError (KeywordService_Delete service orgID i w)
             (\<lambda>_ w. (SuccessOKEnvelope 200 ''keyword deleted'' i, w)))))"

section \<open>Normal form of a keyword\<close>

lemma scope_names: "TrimSpace (ToLower ut s) = s" if "s \<in> set (InspectionKeywordScopes @ InspectionMatchTypes @ InspectionRiskLevels @ InspectionSuggestActions)"
proof -
  let ?names = "InspectionKeywordScopes @ InspectionMatchTypes @ InspectionRiskLevels @ InspectionSuggestActions"
  have "list_all (\<lambda>s. list_all ascii s \<and> map lower_byte s = s \<and> TrimSpace s = s) ?names" by code_simp
  with that show ?thesis by (auto simp: list_all_iff ToLower_def)
qed

lemma normalize_scopes_Inr:
  "normalize_scopes ut ss seen = Inr out \<Longrightarrow> distinct seen \<Longrightarrow> set seen \<subseteq> set InspectionKeywordScopes \<Longrightarrow>
     distinct out \<and> set out = set seen \<union> set (map (\<lambda>s. TrimSpace (ToLower ut s)) ss) \<and> set out \<subseteq> set InspectionKeywordScopes"
proof (induction ss arbitrary: seen)
  case (Cons s ss)
  let ?s = "TrimSpace (ToLower ut s)"
  have ok: "?s \<in> set InspectionKeywordScopes"
    using Cons.prems(1) by (auto simp: containsString_def list_ex_iff Let_def split: if_splits)
  show ?case
  proof (cases "?s \<in> set seen")
    case True
    with Cons ok show ?thesis by (auto simp: containsString_def list_ex_iff Let_def)
  next
    case False
    with Cons.prems ok have "normalize_scopes ut ss (seen @ [?s]) = Inr out" by (simp add: containsString_def list_ex_iff Let_def split: if_splits)
    from Cons.IH [OF this] Cons.prems False ok show ?thesis by auto
  qed
qed auto

lemma normalize_scopes_fixed:
  "distinct (seen @ ss) \<Longrightarrow> set ss \<subseteq> set InspectionKeywordScopes \<Longrightarrow> normalize_scopes ut ss seen = Inr (seen @ ss)"
proof (induction ss arbitrary: seen)
  case (Cons s ss)
  then have s: "TrimSpace (ToLower ut s) = s" by (intro scope_names) auto
  show ?case using Cons s by (auto simp: containsString_def list_ex_iff Let_def)
qed simp

lemma normalizeKeywordScopes_Inr:
  assumes "normalizeKeywordScopes ut ss = Inr out"
  shows "sorted out" and "distinct out" and "out \<noteq> []" and "set out = set (map (\<lambda>s. TrimSpace (ToLower ut s)) ss)"
    and "set out \<subseteq> set InspectionKeywordScopes" and "normalizeKeywordScopes ut out = Inr out"
proof -
  from assms obtain raw where raw: "ss \<noteq> []" "normalize_scopes ut ss [] = Inr raw" and out: "out = sort raw"
    by (cases "normalize_scopes ut ss []") (auto simp: normalizeKeywordScopes_def split: if_splits)
  note r = normalize_scopes_Inr [OF raw(2)]
  show "sorted out" "distinct out" "set out = set (map (\<lambda>s. TrimSpace (ToLower ut s)) ss)" "set out \<subseteq> set InspectionKeywordScopes"
    using r by (auto simp: out)
  moreover show "out \<noteq> []" using r raw(1) by (auto simp: out simp flip: set_empty)
  ultimately show "normalizeKeywordScopes ut out = Inr out"
    using normalize_scopes_fixed [of "[]" out ut] by (simp add: normalizeKeywordScopes_def sorted_sort_id)
qed

text \<open>
  What passes the validator is in normal form: name, category and organisation are there, match type, risk level and action
  are constants of the domain, and the scopes are the requested ones, lower case, without repetition and in order; validating
  the result again changes nothing.
\<close>

theorem keyword_input_normal_form:
  assumes "normalizeCreateKeywordInput ut inp = Inr n"
  shows "ck_OrgID n = ck_OrgID inp \<and> ck_OrgID n \<noteq> 0 \<and> ck_CategoryID n \<noteq> 0 \<and> ck_Name n = TrimSpace (ck_Name inp) \<and> ck_Name n \<noteq> '''' \<and>
         ck_MatchType n \<in> set InspectionMatchTypes \<and> ck_RiskLevel n \<in> set InspectionRiskLevels \<and>
         ck_SuggestAction n \<in> set InspectionSuggestActions \<and>
         ck_Scopes n = sorted_list_of_set (set (map (\<lambda>s. TrimSpace (ToLower ut s)) (ck_Scopes inp))) \<and>
         ck_Scopes n \<noteq> [] \<and> set (ck_Scopes n) \<subseteq> set InspectionKeywordScopes \<and>
         normalizeCreateKeywordInput ut n = Inr n"
proof -
  from assms obtain scopes where
      n: "n = \<lparr>ck_OrgID = ck_OrgID inp, ck_Name = TrimSpace (ck_Name inp), ck_CategoryID = ck_CategoryID inp,
        ck_MatchType = TrimSpace (ToLower ut (ck_MatchType inp)), ck_RiskLevel = TrimSpace (ToLower ut (ck_RiskLevel inp)),
        ck_SuggestAction = TrimSpace (ToLower ut (ck_SuggestAction inp)), ck_Enabled = ck_Enabled inp,
        ck_Remark = TrimSpace (ck_Remark inp), ck_Scopes = scopes\<rparr>"
    and ok: "ck_OrgID inp \<noteq> 0" "TrimSpace (ck_Name inp) \<noteq> ''''" "ck_CategoryID inp \<noteq> 0"
      "TrimSpace (ToLower ut (ck_MatchType inp)) \<in> set InspectionMatchTypes"
      "TrimSpace (ToLower ut (ck_RiskLevel inp)) \<in> set InspectionRiskLevels"
      "TrimSpace (ToLower ut (ck_SuggestAction inp)) \<in> set InspectionSuggestActions"
    and sc: "normalizeKeywordScopes ut (ck_Scopes inp) = Inr scopes"
    unfolding normalizeCreateKeywordInput_def Let_def containsString_def list_ex_iff
    by (cases "normalizeKeywordScopes ut (ck_Scopes inp)") (auto split: if_splits)
  note s = normalizeKeywordScopes_Inr [OF sc]
  have fixed: "TrimSpace (ToLower ut x) = x" if "x \<in> set InspectionMatchTypes \<or> x \<in> set InspectionRiskLevels \<or> x \<in> set InspectionSuggestActions" for x
    using that by (intro scope_names) auto
  have "scopes = sorted_list_of_set (set scopes)"
    using s(1,2) by (metis sorted_list_of_set.idem_if_sorted_distinct sorted_list_of_set_sort_remdups distinct_remdups_id sorted_sort_id)
  then have "scopes = sorted_list_of_set (set (map (\<lambda>s. TrimSpace (ToLower ut s)) (ck_Scopes inp)))" using s(4) by simp
  moreover have "normalizeCreateKeywordInput ut n = Inr n"
    using ok s(6) fixed by (auto simp: n normalizeCreateKeywordInput_def Let_def containsString_def list_ex_iff)
  ultimately show ?thesis using ok s by (simp add: n)
qed

definition ex_keyword_input :: CreateKeywordInput where
  "ex_keyword_input = \<lparr>ck_OrgID = 100, ck_Name = '' spam '', ck_CategoryID = 4, ck_MatchType = ''Contains'', ck_RiskLevel = ''high'',
     ck_SuggestAction = ''offline'', ck_Enabled = True, ck_Remark = '''', ck_Scopes = [''Title'', ''body'', ''title'']\<rparr>"

lemma ex_keyword_normal:
  "normalizeCreateKeywordInput ascii_tables ex_keyword_input =
   Inr (ex_keyword_input\<lparr>ck_Name := ''spam'', ck_MatchType := ''contains'', ck_Scopes := [''body'', ''title'']\<rparr>)"
  by code_simp

theorem keyword_input_normal_form_witness:
  "\<exists>n. normalizeCreateKeywordInput ascii_tables ex_keyword_input = Inr n \<and> ck_Scopes n = [''body'', ''title''] \<and>
       normalizeCreateKeywordInput ascii_tables n = Inr n"
  using keyword_input_normal_form [OF ex_keyword_normal] ex_keyword_normal by auto

section \<open>Writing a keyword\<close>









section \<open>Keywords stay in their organisation\<close>

lemma listScopes_store [simp]: "store (snd (listScopes i ids w)) = store w"
  by (auto simp: listScopes_def go_try_pure_store db_query_def db_stmt_def split: option.split)

lemma db_query_store [simp]: "store (snd (db_query q w)) = store w"
  by (simp add: db_query_def db_stmt_def split: option.split)

lemma keywordQuery_org: "r \<in> set (keywordQuery i d) \<Longrightarrow> kw_OrgID (rk_Keyword r) = i"
  by (auto simp: keywordQuery_def)

lemma filter_head: "a # as = filter P xs \<Longrightarrow> a \<in> set xs"
  by (metis filter_is_subset in_mono list.set_intros(1))

lemma getKeyword_own:
  assumes "getKeyword i k w = (Inr r, w')"
  shows "kw_OrgID (rk_Keyword r) = i"
proof -
  from assms obtain rs v where "db_query (\<lambda>d. filter (\<lambda>r. kw_ID (rk_Keyword r) = k) (keywordQuery i d)) w = (Inr rs, v)"
      "(case rs of [] \<Rightarrow> (Inl (Sentinel ErrKeywordNotFound), v) | r # _ \<Rightarrow> (Inr r, v)) = (Inr r, w')"
    by (auto simp: getKeyword_def go_try_Inr_iff)
  then have "r \<in> set (keywordQuery i (store w))" by (cases rs) (auto dest!: db_query_Inr intro: filter_head)
  then show ?thesis by (rule keywordQuery_org)
qed

lemma KeywordService_List_owned:
  "i = kf_OrgID inp \<Longrightarrow> owned kd_OrgID kl_Items i (KeywordService_List service inp)"
proof (rule ownedI)
  show "store (snd (KeywordService_List service inp w)) = store w" for w
    by (auto simp: KeywordService_List_def KeywordRepository_List_def Let_def go_try_pure_store split: prod.split)
  show "kd_OrgID r = i" if "i = kf_OrgID inp" "KeywordService_List service inp w = (Inr x, w')" "r \<in> set (kl_Items x)" for x r w w'
    using that set_page_rows keywordQuery_org
    by (fastforce simp: KeywordService_List_def KeywordRepository_List_def go_try_Inr_iff buildKeywordDTO_def
        Let_def dest!: db_query_Inr split: if_splits prod.splits)
qed

lemma KeywordService_Get_owned: "owned kd_OrgID (\<lambda>x. [x]) i (KeywordService_Get service i k)"
proof (rule ownedI)
  have g: "store (snd (getKeyword i k w)) = store w" for w
    by (auto simp: getKeyword_def go_try_pure_store split: list.split)
  show "store (snd (KeywordService_Get service i k w)) = store w" for w
    by (auto simp: KeywordService_Get_def KeywordRepository_Get_def g go_try_pure_store split: prod.split)
  show "kd_OrgID r = i" if "KeywordService_Get service i k w = (Inr x, w')" "r \<in> set [x]" for x r w w'
    using that
    by (auto simp: KeywordService_Get_def KeywordRepository_Get_def go_try_Inr_iff buildKeywordDTO_def Let_def
        dest!: getKeyword_own split: if_splits prod.splits)
qed

lemma keyword_routes_confined:
  "confined kd_OrgID kl_Items (session_org cx) (keyword_list_handler service cx q)"
  "confined kd_OrgID (\<lambda>x. [x]) (session_org cx) (keyword_detail_handler service cx rawID rawOrg)"
  unfolding keyword_list_handler_def keyword_detail_handler_def
  by (intro confined_bad_request confined_org confined_service KeywordService_List_owned KeywordService_Get_owned, simp) (intro confined_bad_request confined_org confined_service KeywordService_List_owned KeywordService_Get_owned)

end
