(* ===== verification/Tasks.thy ===== *)
theory Tasks
  imports Keywords Outbox
begin

text \<open>
  Inspection tasks (\<open>internal/modules/articleinspect/tasks\<close>): creation with the snapshots of the
  request and of the rules, the transactional write of task, keywords and outbox message, the
  immediate relay, listing, lookup, deletion of a task with everything it has written, and
  the routes.
\<close>

section \<open>Inputs\<close>

record TaskListInput =
  tl_OrgID :: uint64
  tl_Page :: int
  tl_PageSize :: int
  tl_Status :: string
  tl_TaskNo :: string

record TaskListResult =
  tr_Page :: int
  tr_PageSize :: int
  tr_Total :: int64
  tr_Items :: "InspectionTask list"

record CreateInspectionTaskInput =
  ti_OrgID :: uint64
  ti_KeywordIDs :: "uint64 list"
  ti_PublishTimeStart :: "gotime option"
  ti_PublishTimeEnd :: "gotime option"
  ti_ArticleID :: uint64
  ti_TitleLike :: string
  ti_IncludeBody :: bool
  ti_ArticleState :: int8

record TaskService =
  ts_hasDB :: bool
  ts_keywords :: "KeywordRepository option"

record preparedTaskCreate =
  pt_Task :: InspectionTask
  pt_TaskKeywords :: "InspectionTaskKeyword list"
  pt_Payload :: ArticleInspectTaskPayload

section \<open>Snapshots\<close>

text \<open>
  \<open>json.Marshal(input)\<close>; the fields tagged \<open>omitempty\<close> are left out when they are zero. A time that
  has no RFC 3339 form is an error (\<open>None\<close>).
\<close>

definition json_time :: "string \<Rightarrow> gotime option \<Rightarrow> (string \<times> json) list option" where
  "json_time name t =
     (case t of None \<Rightarrow> Some [] | Some g \<Rightarrow> map_option (\<lambda>s. [(name, JStr s)]) (format_rfc3339nano g))"

definition task_input_json :: "CreateInspectionTaskInput \<Rightarrow> json option" where
  "task_input_json inp =
     (case (json_time ''publish_time_start'' (ti_PublishTimeStart inp), json_time ''publish_time_end'' (ti_PublishTimeEnd inp)) of
        (Some start, Some stop) \<Rightarrow>
          Some (JObj ((if ti_OrgID inp = 0 then [] else [(''orgid'', JUint (ti_OrgID inp))]) @
                [(''keyword_ids'', if ti_KeywordIDs inp = [] then JNull else JArr (map JUint (ti_KeywordIDs inp)))] @
                start @ stop @
                (if ti_ArticleID inp = 0 then [] else [(''article_id'', JUint (ti_ArticleID inp))]) @
                (if ti_TitleLike inp = '''' then [] else [(''title_like'', JStr (ti_TitleLike inp))]) @
                (if ti_IncludeBody inp then [(''include_body'', JBool True)] else []) @
                (if ti_ArticleState inp = 0 then [] else [(''article_state'', JNum (Itoa (sint (ti_ArticleState inp))))])))
      | _ \<Rightarrow> None)"

definition rule_json :: "KeywordRule \<Rightarrow> json" where
  "rule_json r =
     JObj [(''id'', JUint (kr_ID r)), (''name'', JStr (kr_Name r)), (''category_name'', JStr (kr_Category r)),
           (''match_type'', JStr (kr_MatchType r)), (''risk_level'', JStr (kr_RiskLevel r)),
           (''suggest_action'', JStr (kr_SuggestAction r)), (''scopes'', JArr (map JStr (kr_Scopes r)))]"

definition rules_json :: "KeywordRule list \<Rightarrow> json" where
  "rules_json rules = JArr (map rule_json rules)"

section \<open>Creation\<close>

definition buildTaskNumber :: "instant \<Rightarrow> string" where
  "buildTaskNumber now = ''inspect-'' @ format_number now"

definition uniqueUint64s :: "uint64 list \<Rightarrow> uint64 list" where
  "uniqueUint64s values = (if values = [] then [] else sort (collect_unique values []))"

definition task_error :: "string \<Rightarrow> goerr" where
  "task_error s = Wrapf '''' (Sentinel ErrInvalidTaskInput) s"

definition prepareTaskCreate ::
    "gocontext \<Rightarrow> TaskService option \<Rightarrow> CreateInspectionTaskInput \<Rightarrow> world \<Rightarrow> preparedTaskCreate res" where
  "prepareTaskCreate cx service inp w =
     (case service of
        None \<Rightarrow> (Inl (Sentinel ErrInvalidTaskInput), w)
      | Some s \<Rightarrow>
          if \<not> ts_hasDB s \<or> Option.is_none (ts_keywords s) then (Inl (Sentinel ErrInvalidTaskInput), w)
          else if ti_OrgID inp = 0 then (Inl (task_error '': orgid is required''), w)
          else
            (let keywordIDs = uniqueUint64s (ti_KeywordIDs inp) in
             if keywordIDs = [] then (Inl (task_error '': keyword_ids are required''), w)
             else go_try (KeywordRepository_ListByIDs (ts_keywords s) (ti_OrgID inp) keywordIDs w) (\<lambda>(keywords, scopesByKeyword) w.
               if length keywords \<noteq> length keywordIDs then (Inl (task_error '': keyword_ids not found''), w)
               else
                 (let articleState = (if ti_ArticleState inp = 0 then ArticleStateOnline else ti_ArticleState inp) in
                  case task_input_json inp of
                    None \<Rightarrow> (Inl (JsonError ''''), w)
                  | Some request \<Rightarrow>
                      (let ruleSnapshot = marshal (rules_json (BuildKeywordRuleSnapshots keywords scopesByKeyword));
                           op = ResolveOperator cx;
                           (now, w) = time_now w
                       in (Inr \<lparr>pt_Task =
                                  \<lparr>task_ID = 0, task_OrgID = ti_OrgID inp, task_TaskNo = buildTaskNumber now,
                                   task_Status = TaskStatusPending, task_ArticleStateFilter = Itoa (sint articleState),
                                   task_PublishTimeStart = map_option t_instant (ti_PublishTimeStart inp),
                                   task_PublishTimeEnd = map_option t_instant (ti_PublishTimeEnd inp),
                                   task_ArticleID = ti_ArticleID inp, task_TitleLike = TrimSpace (ti_TitleLike inp),
                                   task_IncludeBody = ti_IncludeBody inp, task_ScopeOverrideMode = '''',
                                   task_ScopeSnapshot = '''', task_RequestSnapshot = marshal request,
                                   task_RuleSnapshot = ruleSnapshot, task_TotalScanned = 0, task_HitArticles = 0,
                                   task_HitCount = 0, task_SkipCount = 0, task_FailCount = 0, task_BatchCount = 0,
                                   task_StartedAt = None, task_FinishedAt = None, task_DurationMS = 0,
                                   task_ErrorMessage = '''', task_CreatorID = op_ID op, task_CreatorName = op_Name op,
                                   task_CreateAt = 0, task_UpdateAt = 0\<rparr>,
                                pt_TaskKeywords = map (\<lambda>k. \<lparr>tk_ID = 0, tk_OrgID = ti_OrgID inp, tk_TaskID = 0,
                                   tk_KeywordID = k, tk_CreateAt = 0, tk_UpdateAt = 0\<rparr>) keywordIDs,
                                pt_Payload = \<lparr>pl_TaskID = 0, pl_OrgID = ti_OrgID inp, pl_TriggerSource = ''api'',
                                   pl_OperatorID = op_ID op, pl_OperatorName = op_Name op\<rparr>\<rparr>, w))))))"

text \<open>
  The writes of one transaction: the task (its number is unique; \<open>include_body\<close> is declared
  \<open>default:true\<close>) and one row per keyword. The result is the stored task.
\<close>

definition same_task_no :: "InspectionTask \<Rightarrow> InspectionTask \<Rightarrow> bool" where
  "same_task_no t x = (task_TaskNo t = task_TaskNo x)"

definition persistPreparedTaskGraph :: "preparedTaskCreate \<Rightarrow> world \<Rightarrow> InspectionTask res" where
  "persistPreparedTaskGraph prepared w =
     go_try (db_create TTasks t_tasks t_tasks_update same_task_no
               (\<lambda>i at. (pt_Task prepared)\<lparr>task_ID := i, task_IncludeBody := default_true (task_IncludeBody (pt_Task prepared)),
                                         task_CreateAt := at, task_UpdateAt := at\<rparr>) w) (\<lambda>task w.
       if pt_TaskKeywords prepared = [] then (Inr task, w)
       else go_try (db_create_all TTaskKeywords t_taskkws t_taskkws_update no_unique
                      (map (\<lambda>k i at. k\<lparr>tk_ID := i, tk_TaskID := task_ID task, tk_CreateAt := at, tk_UpdateAt := at\<rparr>)
                        (pt_TaskKeywords prepared)) w) (\<lambda>_ w. (Inr task, w)))"

definition TaskService_Create ::
    "gocontext \<Rightarrow> TaskService option \<Rightarrow> CreateInspectionTaskInput \<Rightarrow> world \<Rightarrow> InspectionTask res" where
  "TaskService_Create cx service inp w =
     go_try (prepareTaskCreate cx service inp w) (\<lambda>prepared w.
       db_transaction (persistPreparedTaskGraph prepared) w)"

definition outbox_message :: "InspectionTask \<Rightarrow> ArticleInspectTaskPayload \<Rightarrow> nat \<Rightarrow> instant \<Rightarrow> InspectionTaskOutboxMessage" where
  "outbox_message task payload i at =
     \<lparr>ob_ID = i, ob_OrgID = task_OrgID task, ob_TaskID = task_ID task, ob_MessageType = TaskOutboxMessageTypeRunTask,
      ob_Status = TaskOutboxStatusPending, ob_Payload = marshal_payload (payload\<lparr>pl_TaskID := task_ID task\<rparr>),
      ob_AttemptCount = 0, ob_ClaimedBy = '''', ob_ClaimedAt = None, ob_ClaimUntil = None, ob_NextAttemptAt = None,
      ob_LastError = '''', ob_LastErrorCode = '''', ob_LastAttemptAt = None, ob_DeadLetteredAt = None,
      ob_DispatchedAt = None, ob_RetainedUntil = None, ob_CreateAt = at, ob_UpdateAt = at\<rparr>"

definition CreateWithOutbox ::
    "gocontext \<Rightarrow> TaskService option \<Rightarrow> CreateInspectionTaskInput \<Rightarrow> world \<Rightarrow>
     (InspectionTask \<times> InspectionTaskOutboxMessage) res" where
  "CreateWithOutbox cx service inp w =
     go_try (prepareTaskCreate cx service inp w) (\<lambda>prepared w.
       db_transaction (\<lambda>w.
         go_try (persistPreparedTaskGraph prepared w) (\<lambda>task w.
           go_try (db_create TOutbox t_outbox t_outbox_update no_unique (outbox_message task (pt_Payload prepared)) w)
             (\<lambda>outbox w. (Inr (task, outbox), w)))) w)"

text \<open>The interface \<open>ImmediateRelay\<close>; a nil interface is \<open>None\<close>.\<close>

type_synonym immediate_relay = "uint64 \<Rightarrow> world \<Rightarrow> bool \<times> world"

definition CreateAndEnqueue ::
    "gocontext \<Rightarrow> TaskService option \<Rightarrow> CreateInspectionTaskInput \<Rightarrow> immediate_relay option \<Rightarrow> world \<Rightarrow> InspectionTask res" where
  "CreateAndEnqueue cx service inp relay w =
     go_try (CreateWithOutbox cx service inp w) (\<lambda>(task, outbox) w.
       case relay of
         None \<Rightarrow> (Inr task, w)
       | Some tryDispatch \<Rightarrow> (Inr task, snd (tryDispatch (ob_ID outbox) w)))"

section \<open>Reading\<close>

definition task_query :: "(string \<Rightarrow> string \<Rightarrow> bool) \<Rightarrow> TaskListInput \<Rightarrow> db \<Rightarrow> InspectionTask list" where
  "task_query like inp d =
     (let status = TrimSpace (tl_Status inp); taskNo = TrimSpace (tl_TaskNo inp) in
      newest_first task_CreateAt task_ID (filter (\<lambda>t.
        task_OrgID t = tl_OrgID inp \<and>
        (status = '''' \<or> task_Status t = status) \<and>
        (taskNo = '''' \<or> like (task_TaskNo t) (''%'' @ taskNo @ ''%''))) (t_tasks d)))"

definition task_db_ready :: "TaskService option \<Rightarrow> bool" where
  "task_db_ready service = (case service of None \<Rightarrow> False | Some s \<Rightarrow> ts_hasDB s)"

definition TaskService_List :: "TaskService option \<Rightarrow> TaskListInput \<Rightarrow> world \<Rightarrow> TaskListResult res" where
  "TaskService_List service inp w =
     (if \<not> task_db_ready service \<or> tl_OrgID inp = 0 then (Inl (Sentinel ErrInvalidTaskInput), w)
      else
        (let (page, pageSize) = NormalizePage (tl_Page inp) (tl_PageSize inp) in
         go_try (count_and_page (task_query (sql_like w) inp) page pageSize w) (\<lambda>(items, n) w.
           (Inr \<lparr>tr_Page = page, tr_PageSize = pageSize, tr_Total = n, tr_Items = items\<rparr>, w))))"

definition task_at :: "uint64 \<Rightarrow> uint64 \<Rightarrow> InspectionTask \<Rightarrow> bool" where
  "task_at orgID taskID t = (task_OrgID t = orgID \<and> task_ID t = taskID)"

definition not_found_as :: "sentinel \<Rightarrow> 'a res \<Rightarrow> 'a res" where
  "not_found_as s r =
     (case r of (Inl e, w) \<Rightarrow> (Inl (if errors_is e ErrRecordNotFound then Sentinel s else e), w) | (Inr x, w) \<Rightarrow> (Inr x, w))"

definition TaskService_Get :: "TaskService option \<Rightarrow> uint64 \<Rightarrow> uint64 \<Rightarrow> world \<Rightarrow> InspectionTask res" where
  "TaskService_Get service orgID taskID w =
     (if \<not> task_db_ready service \<or> orgID = 0 \<or> taskID = 0 then (Inl (Sentinel ErrInvalidTaskInput), w)
      else not_found_as ErrTaskNotFound (db_first t_tasks task_ID (task_at orgID taskID) w))"

section \<open>Deletion\<close>

definition taskCanBeDeleted :: "string \<Rightarrow> bool" where
  "taskCanBeDeleted status =
     (let s = TrimSpace status in s = TaskStatusPending \<or> s = TaskStatusFailed)"

definition deleteTaskGraph :: "uint64 \<Rightarrow> uint64 \<Rightarrow> world \<Rightarrow> unit res" where
  "deleteTaskGraph orgID taskID =
     db_transaction (\<lambda>w.
       go_try (db_delete t_taskkws t_taskkws_update (\<lambda>x. tk_OrgID x = orgID \<and> tk_TaskID x = taskID) w) (\<lambda>_ w.
       go_try (db_delete t_outbox t_outbox_update (\<lambda>x. ob_OrgID x = orgID \<and> ob_TaskID x = taskID) w) (\<lambda>_ w.
       go_try (db_delete t_hits t_hits_update (\<lambda>x. hit_OrgID x = orgID \<and> hit_TaskID x = taskID) w) (\<lambda>_ w.
       go_try (db_delete t_results t_results_update (\<lambda>x. res_OrgID x = orgID \<and> res_TaskID x = taskID) w) (\<lambda>_ w.
       go_try (db_delete t_oplogs t_oplogs_update (\<lambda>x. log_OrgID x = orgID \<and> log_TaskID x = taskID) w) (\<lambda>_ w.
       go_try (db_delete t_fcls t_fcls_update (\<lambda>x. fcl_OrgID x = orgID \<and> fcl_TaskID x = taskID) w) (\<lambda>_ w.
       go_try (db_delete t_actions t_actions_update (\<lambda>x. act_OrgID x = orgID \<and> act_TaskID x = taskID) w) (\<lambda>_ w.
       go_try (db_delete t_tasks t_tasks_update (task_at orgID taskID) w) (\<lambda>n w.
         if n = 0 then (Inl (Sentinel ErrTaskNotFound), w) else (Inr (), w))))))))))"

definition TaskService_Delete :: "TaskService option \<Rightarrow> uint64 \<Rightarrow> uint64 \<Rightarrow> world \<Rightarrow> unit res" where
  "TaskService_Delete service orgID taskID w =
     (if \<not> task_db_ready service \<or> orgID = 0 \<or> taskID = 0 then (Inl (Sentinel ErrInvalidTaskInput), w)
      else go_try (not_found_as ErrTaskNotFound (db_first t_tasks task_ID (task_at orgID taskID) w)) (\<lambda>task w.
        if \<not> taskCanBeDeleted (task_Status task) then (Inl (Sentinel ErrTaskDeleteNotAllowed), w)
        else deleteTaskGraph orgID taskID w))"

section \<open>Routes\<close>

definition tasks_statusFromError :: "goerr \<Rightarrow> int \<times> string" where
  "tasks_statusFromError e =
     (if errors_is e ErrUnauthorized then (401, ''unauthorized'')
      else if errors_is e ErrTaskNotFound \<or> errors_is e ErrRecordNotFound then (404, ''resource not found'')
      else if errors_is e ErrTaskDeleteNotAllowed then (409, ''task cannot be deleted'')
      else if errors_is e ErrInvalidTaskInput then (400, ''invalid task input'')
      else (500, ''internal server error''))"

record taskQueryRequest =
  tq_OrgID :: string
  tq_Page :: param
  tq_PageSize :: param
  tq_Status :: string
  tq_TaskNo :: string

definition task_list_handler ::
    "TaskService option \<Rightarrow> gocontext \<Rightarrow> taskQueryRequest \<Rightarrow> world \<Rightarrow> TaskListResult EnvelopeOutput \<times> world" where
  "task_list_handler service cx inp =
     or_bad_request (guard_true (ValidateOptionalOrgID (tq_OrgID inp))) ''invalid task input'' (\<lambda>_ w.
       or_failure tasks_statusFromError (CurrentOrgID cx, w) (\<lambda>orgID.
         or_bad_request (OptionalIntParam_Value (tq_Page inp)) ''invalid task input'' (\<lambda>page.
           or_bad_request (OptionalIntParam_Value (tq_PageSize inp)) ''invalid task input'' (\<lambda>pageSize w.
             or_failure tasks_statusFromError
               (TaskService_List service
                  \<lparr>tl_OrgID = orgID, tl_Page = page, tl_PageSize = pageSize, tl_Status = tq_Status inp, tl_TaskNo = tq_TaskNo inp\<rparr> w)
               (\<lambda>result w. (SuccessOKEnvelope 200 ''task list'' result, w))))))"

text \<open>
  The relay of the create route is built per request from the service's database. A nil
  \<open>*TaskOutboxRelay\<close> becomes a non-nil interface value whose method answers false.
\<close>

definition task_create_handler ::
    "TaskService \<Rightarrow> dispatcher option \<Rightarrow> TaskOutboxSettings \<Rightarrow> string option \<Rightarrow> unicode_tables \<Rightarrow> (string \<Rightarrow> string) \<Rightarrow>
     gocontext \<Rightarrow> CreateInspectionTaskInput \<Rightarrow> world \<Rightarrow> InspectionTask EnvelopeOutput \<times> world" where
  "task_create_handler service disp settings hostname ut jt cx body w =
     or_failure tasks_statusFromError (CurrentOrgID cx, w) (\<lambda>orgID w.
       (let relay = WithSettings (NewTaskOutboxRelay (ts_hasDB service) disp hostname ut jt) settings in
        or_failure tasks_statusFromError
          (CreateAndEnqueue cx (Some service) (body\<lparr>ti_OrgID := orgID\<rparr>) (Some (TryDispatchMessage relay)) w)
          (\<lambda>task w. (SuccessCreatedEnvelope ''task created'' task, w))))"

definition task_detail_handler ::
    "TaskService option \<Rightarrow> gocontext \<Rightarrow> string \<Rightarrow> string \<Rightarrow> world \<Rightarrow> InspectionTask EnvelopeOutput \<times> world" where
  "task_detail_handler service cx rawID rawOrg =
     or_bad_request (Uint64Param_Parse rawID) ''invalid task input'' (\<lambda>i.
       or_bad_request (guard_true (ValidateOptionalOrgID rawOrg)) ''invalid task input'' (\<lambda>_ w.
         or_failure tasks_statusFromError (CurrentOrgID cx, w) (\<lambda>orgID w.
           or_failure tasks_statusFromError (TaskService_Get service orgID i w)
             (\<lambda>result w. (SuccessOKEnvelope 200 ''task detail'' result, w)))))"

definition task_delete_handler ::
    "TaskService option \<Rightarrow> gocontext \<Rightarrow> string \<Rightarrow> string \<Rightarrow> world \<Rightarrow> uint64 EnvelopeOutput \<times> world" where
  "task_delete_handler service cx rawID rawOrg =
     or_bad_request (Uint64Param_Parse rawID) ''invalid task input'' (\<lambda>i.
       or_bad_request (guard_true (ValidateOptionalOrgID rawOrg)) ''invalid task input'' (\<lambda>_ w.
         or_failure tasks_statusFromError (CurrentOrgID cx, w) (\<lambda>orgID w.
           or_failure tasks_statusFromError (TaskService_Delete service orgID i w)
             (\<lambda>_ w. (SuccessOKEnvelope 200 ''task deleted'' i, w)))))"

section \<open>Properties\<close>

subsection \<open>Creation\<close>

lemma uniqueUint64s_sorted_set: "uniqueUint64s vs = sorted_list_of_set (set vs - {0})"
proof -
  have "distinct (collect_unique vs [])" "set (collect_unique vs []) = set vs - {0}"
    using collect_unique_facts [of "[]" vs] by auto
  then have "sort (collect_unique vs []) = sorted_list_of_set (set vs - {0})"
    by (metis sorted_list_of_set_sort_remdups distinct_remdups_id)
  then show ?thesis by (auto simp: uniqueUint64s_def)
qed

lemma listScopes_keeps [frame]: "keeps g (listScopes orgID ids)"
  unfolding listScopes_def by (intro frame)

lemma KeywordRepository_ListByIDs_keeps [frame]: "keeps g (KeywordRepository_ListByIDs repo orgID ids)"
  unfolding KeywordRepository_ListByIDs_def by (intro frame)

lemma prepare_store: "prepareTaskCreate cx service inp w = (r, w') \<Longrightarrow> store w' = store w"
  using keepsD [OF KeywordRepository_ListByIDs_keeps [where g = "\<lambda>d. d"]]
  by (auto simp: prepareTaskCreate_def Let_def time_now_def go_try_def
      split: option.splits if_splits prod.splits sum.splits)

text \<open>What the prepared task, its keywords and its payload are.\<close>

definition api_payload :: "gocontext \<Rightarrow> uint64 \<Rightarrow> uint64 \<Rightarrow> ArticleInspectTaskPayload" where
  "api_payload cx orgID taskID =
     \<lparr>pl_TaskID = taskID, pl_OrgID = orgID, pl_TriggerSource = ''api'', pl_OperatorID = op_ID (ResolveOperator cx),
      pl_OperatorName = op_Name (ResolveOperator cx)\<rparr>"

lemma prepare_Inr:
  assumes "prepareTaskCreate cx service inp w = (Inr p, w')"
  shows "task_OrgID (pt_Task p) = ti_OrgID inp \<and> task_Status (pt_Task p) = TaskStatusPending \<and> ti_OrgID inp \<noteq> 0 \<and>
         map tk_KeywordID (pt_TaskKeywords p) = uniqueUint64s (ti_KeywordIDs inp) \<and> pt_TaskKeywords p \<noteq> [] \<and>
         list_all (\<lambda>k. tk_OrgID k = ti_OrgID inp) (pt_TaskKeywords p) \<and> pt_Payload p = api_payload cx (ti_OrgID inp) 0"
  using assms
  by (auto simp: prepareTaskCreate_def Let_def time_now_def go_try_Inr_iff api_payload_def list_all_iff comp_def
      split: option.splits if_splits prod.splits)

lemma persist_Inr:
  assumes "persistPreparedTaskGraph p w = (Inr task, w')" and "pt_TaskKeywords p \<noteq> []"
  shows "\<exists>ks at. store w' = t_taskkws_update (\<lambda>old. old @ ks) (t_tasks_update (\<lambda>old. old @ [task]) (store w)) \<and>
           map tk_KeywordID ks = map tk_KeywordID (pt_TaskKeywords p) \<and>
           list_all (\<lambda>k. tk_TaskID k = task_ID task) ks \<and> map tk_OrgID ks = map tk_OrgID (pt_TaskKeywords p) \<and>
           task = (pt_Task p)\<lparr>task_ID := Suc (autoinc w TTasks), task_IncludeBody := True, task_CreateAt := at, task_UpdateAt := at\<rparr>"
proof -
  from assms obtain w1 ks where
      c: "db_create TTasks t_tasks t_tasks_update same_task_no
               (\<lambda>i at. (pt_Task p)\<lparr>task_ID := i, task_IncludeBody := default_true (task_IncludeBody (pt_Task p)),
                                         task_CreateAt := at, task_UpdateAt := at\<rparr>) w = (Inr task, w1)"
    and k: "db_create_all TTaskKeywords t_taskkws t_taskkws_update no_unique
                      (map (\<lambda>k i at. k\<lparr>tk_ID := i, tk_TaskID := task_ID task, tk_CreateAt := at, tk_UpdateAt := at\<rparr>)
                        (pt_TaskKeywords p)) w1 = (Inr ks, w')"
    by (auto simp: persistPreparedTaskGraph_def go_try_Inr_iff)
  note k' = db_create_all_Inr [OF k]
  have "map tk_KeywordID ks = map tk_KeywordID (pt_TaskKeywords p)" "map tk_OrgID ks = map tk_OrgID (pt_TaskKeywords p)"
    "list_all (\<lambda>k. tk_TaskID k = task_ID task) ks"
    using k' by (auto simp: list_all_iff intro!: nth_equalityI)
  with db_create_Inr [OF c] k' show ?thesis by auto
qed

lemma persist_keeps [frame]:
  "(\<And>f d. g (t_tasks_update f d) = g d) \<Longrightarrow> (\<And>f d. g (t_taskkws_update f d) = g d) \<Longrightarrow> keeps g (persistPreparedTaskGraph p)"
  unfolding persistPreparedTaskGraph_def by (intro frame)

text \<open>The rows a creation adds, read off the tables before and after.\<close>

definition created_with :: "gocontext \<Rightarrow> CreateInspectionTaskInput \<Rightarrow> db \<Rightarrow> InspectionTask \<Rightarrow> InspectionTaskOutboxMessage \<Rightarrow> db \<Rightarrow> bool" where
  "created_with cx inp d task m d' =
     (\<exists>ks. d' = t_outbox_update (\<lambda>old. old @ [m]) (t_taskkws_update (\<lambda>old. old @ ks) (t_tasks_update (\<lambda>old. old @ [task]) d)) \<and>
        task_OrgID task = ti_OrgID inp \<and> task_Status task = TaskStatusPending \<and>
        map tk_KeywordID ks = sorted_list_of_set (set (ti_KeywordIDs inp) - {0}) \<and>
        list_all (\<lambda>k. tk_TaskID k = task_ID task \<and> tk_OrgID k = ti_OrgID inp) ks \<and>
        ob_TaskID m = task_ID task \<and> ob_OrgID m = ti_OrgID inp \<and> ob_row_ok m \<and> ob_Status m = TaskOutboxStatusPending \<and>
        ob_MessageType m = TaskOutboxMessageTypeRunTask \<and>
        ob_Payload m = marshal_payload (api_payload cx (ti_OrgID inp) (task_ID task)))"

lemma CreateWithOutbox_Inr:
  assumes "CreateWithOutbox cx service inp w = (Inr (task, m), w')"
  shows "created_with cx inp (store w) task m (store w')" and "task_IncludeBody task"
proof -
  from assms obtain p w1 where p: "prepareTaskCreate cx service inp w = (Inr p, w1)"
    and t: "db_transaction (\<lambda>w. go_try (persistPreparedTaskGraph p w) (\<lambda>task w.
           go_try (db_create TOutbox t_outbox t_outbox_update no_unique (outbox_message task (pt_Payload p)) w)
             (\<lambda>outbox w. (Inr (task, outbox), w)))) w1 = (Inr (task, m), w')"
    by (auto simp: CreateWithOutbox_def go_try_Inr_iff)
  from transaction_Inr [OF t] obtain w2 where b: "go_try (persistPreparedTaskGraph p (advance w1)) (\<lambda>task w.
           go_try (db_create TOutbox t_outbox t_outbox_update no_unique (outbox_message task (pt_Payload p)) w)
             (\<lambda>outbox w. (Inr (task, outbox), w))) = (Inr (task, m), w2)" and w2: "store w' = store w2" by blast
  from b obtain w3 where g: "persistPreparedTaskGraph p (advance w1) = (Inr task, w3)"
    and o: "db_create TOutbox t_outbox t_outbox_update no_unique (outbox_message task (pt_Payload p)) w3 = (Inr m, w2)"
    by (auto simp: go_try_Inr_iff)
  note pf = prepare_Inr [OF p]
  from persist_Inr [OF g] pf obtain ks at where
      ks: "store w3 = t_taskkws_update (\<lambda>old. old @ ks) (t_tasks_update (\<lambda>old. old @ [task]) (store w1))"
      "map tk_KeywordID ks = map tk_KeywordID (pt_TaskKeywords p)" "list_all (\<lambda>k. tk_TaskID k = task_ID task) ks"
      "map tk_OrgID ks = map tk_OrgID (pt_TaskKeywords p)"
    and task: "task = (pt_Task p)\<lparr>task_ID := Suc (autoinc (advance w1) TTasks), task_IncludeBody := True, task_CreateAt := at, task_UpdateAt := at\<rparr>"
    by auto
  have org: "list_all (\<lambda>k. tk_OrgID k = ti_OrgID inp) ks"
    using ks(4) pf by (metis (mono_tags, lifting) list.pred_map comp_def list.pred_cong)
  note m = db_create_Inr [OF o]
  show "created_with cx inp (store w) task m (store w')"
    unfolding created_with_def
  proof (intro exI [of _ ks] conjI)
    show "store w' = t_outbox_update (\<lambda>old. old @ [m]) (t_taskkws_update (\<lambda>old. old @ ks) (t_tasks_update (\<lambda>old. old @ [task]) (store w)))"
      using w2 m ks(1) prepare_store [OF p] by simp
    show "map tk_KeywordID ks = sorted_list_of_set (set (ti_KeywordIDs inp) - {0})"
      using ks(2) pf by (simp add: uniqueUint64s_sorted_set)
    show "list_all (\<lambda>k. tk_TaskID k = task_ID task \<and> tk_OrgID k = ti_OrgID inp) ks"
      using ks(3) org by (simp add: list_all_iff)
  qed (use m pf task in \<open>auto simp: outbox_message_def ob_row_ok_def no_lease_def api_payload_def\<close>)
  show "task_IncludeBody task" by (simp add: task)
qed

lemma created_message:
  assumes "CreateWithOutbox cx service inp w = (Inr (task, m), w')"
  shows "ob_ID m \<noteq> 0" and "ob_NextAttemptAt m = None"
proof -
  from assms obtain p w1 where
      t: "db_transaction (\<lambda>w. go_try (persistPreparedTaskGraph p w) (\<lambda>task w.
           go_try (db_create TOutbox t_outbox t_outbox_update no_unique (outbox_message task (pt_Payload p)) w)
             (\<lambda>outbox w. (Inr (task, outbox), w)))) w1 = (Inr (task, m), w')"
    by (auto simp: CreateWithOutbox_def go_try_Inr_iff)
  from transaction_Inr [OF t] obtain w2 where "go_try (persistPreparedTaskGraph p (advance w1)) (\<lambda>task w.
           go_try (db_create TOutbox t_outbox t_outbox_update no_unique (outbox_message task (pt_Payload p)) w)
             (\<lambda>outbox w. (Inr (task, outbox), w))) = (Inr (task, m), w2)" by blast
  then obtain w3 where "db_create TOutbox t_outbox t_outbox_update no_unique (outbox_message task (pt_Payload p)) w3 = (Inr m, w2)"
    by (auto simp: go_try_Inr_iff)
  from db_create_Inr [OF this] show "ob_ID m \<noteq> 0" "ob_NextAttemptAt m = None" by (auto simp: outbox_message_def)
qed

lemma created_task_ids:
  assumes "CreateWithOutbox cx service inp w = (Inr (task, m), w')"
  shows "task_ID task \<noteq> 0" and "ti_OrgID inp \<noteq> 0"
proof -
  from assms obtain p w1 where p: "prepareTaskCreate cx service inp w = (Inr p, w1)"
    and t: "db_transaction (\<lambda>w. go_try (persistPreparedTaskGraph p w) (\<lambda>task w.
           go_try (db_create TOutbox t_outbox t_outbox_update no_unique (outbox_message task (pt_Payload p)) w)
             (\<lambda>outbox w. (Inr (task, outbox), w)))) w1 = (Inr (task, m), w')"
    by (auto simp: CreateWithOutbox_def go_try_Inr_iff)
  from transaction_Inr [OF t] obtain w3 where "persistPreparedTaskGraph p (advance w1) = (Inr task, w3)"
    by (auto simp: go_try_Inr_iff)
  from persist_Inr [OF this] prepare_Inr [OF p] show "task_ID task \<noteq> 0" "ti_OrgID inp \<noteq> 0" by auto
qed

lemma CreateWithOutbox_Inl: "CreateWithOutbox cx service inp w = (Inl e, w') \<Longrightarrow> store w' = store w"
  using prepare_store by (auto simp: CreateWithOutbox_def go_try_Inl_iff dest!: transaction_Inl)

lemma prepare_world:
  assumes "prepareTaskCreate cx service inp w = (r, w')"
  shows "same_env w w'" and "autoinc w' = autoinc w"
proof -
  have l: "steady (KeywordRepository_ListByIDs repo i ids)" for repo i ids
    unfolding KeywordRepository_ListByIDs_def listScopes_def by (intro frame)
  have a: "autoinc (snd (KeywordRepository_ListByIDs repo i ids v)) = autoinc v" for repo i ids v
    by (auto simp: KeywordRepository_ListByIDs_def listScopes_def go_try_def db_query_def db_stmt_def
        split: option.split prod.splits sum.splits if_splits)
  show "same_env w w'"
    using assms steadyD [OF l] same_env_trans [OF _ same_env_advance]
    by (auto simp: prepareTaskCreate_def Let_def time_now_def go_try_def
      split: option.splits if_splits prod.splits sum.splits)
  show "autoinc w' = autoinc w"
    using assms a by (auto simp: prepareTaskCreate_def Let_def time_now_def go_try_def
      split: option.splits if_splits prod.splits sum.splits) (metis snd_conv)+
qed

abbreviation tasks_ok :: "world \<Rightarrow> bool" where
  "tasks_ok \<equiv> keys_ok TTasks t_tasks task_ID"

lemma persist_frame:
  "grows (persistPreparedTaskGraph p)" "steady (persistPreparedTaskGraph p)"
  "preserves outbox_ok (persistPreparedTaskGraph p)" "preserves tasks_ok (persistPreparedTaskGraph p)"
proof -
  show g: "grows (persistPreparedTaskGraph p)" unfolding persistPreparedTaskGraph_def by (intro frame)
  show "steady (persistPreparedTaskGraph p)" unfolding persistPreparedTaskGraph_def by (intro frame)
  show "preserves outbox_ok (persistPreparedTaskGraph p)"
    by (intro preserves_keys_frame persist_keeps g) simp_all
  show "preserves tasks_ok (persistPreparedTaskGraph p)"
    unfolding persistPreparedTaskGraph_def
    by (intro preserves_try preserves_if preserves_pure tb_tasks.create_keys preserves_keys_frame frame) simp_all
qed

text \<open>A creation keeps the ids of the tables in order and leaves clock, failures and queue alone.\<close>

lemma CreateWithOutbox_frame:
  assumes "CreateWithOutbox cx service inp w = (r, w')"
  shows "outbox_ok w \<Longrightarrow> outbox_ok w'" and "tasks_ok w \<Longrightarrow> tasks_ok w'" and "same_env w w'"
proof -
  let ?body = "\<lambda>p w. go_try (persistPreparedTaskGraph p w) (\<lambda>task w.
           go_try (db_create TOutbox t_outbox t_outbox_update no_unique (outbox_message task (pt_Payload p)) w)
             (\<lambda>outbox w. (Inr (task, outbox), w)))"
  have g: "grows (?body p)" for p by (intro frame persist_frame)
  have st: "steady (db_transaction (?body p))" for p by (intro frame persist_frame)
  have o: "preserves outbox_ok (?body p)" for p
    by (intro preserves_try preserves_pure persist_frame tb_outbox.create_keys) (simp add: outbox_message_def)
  have t: "preserves tasks_ok (?body p)" for p
    by (intro preserves_try preserves_pure persist_frame preserves_keys_frame frame) simp_all
  note tx = preserves_keys_transaction [OF o g] preserves_keys_transaction [OF t g]
  obtain q w1 where p: "prepareTaskCreate cx service inp w = (q, w1)" by fastforce
  note pw = prepare_world [OF p] prepare_store [OF p]
  have ok: "outbox_ok w1 = outbox_ok w" "tasks_ok w1 = tasks_ok w" using pw by (simp_all add: keys_ok_def)
  show "outbox_ok w \<Longrightarrow> outbox_ok w'" and "tasks_ok w \<Longrightarrow> tasks_ok w'" and "same_env w w'"
    using assms p ok pw(1) preservesD [OF tx(1)] preservesD [OF tx(2)] same_env_trans [OF pw(1) steadyD [OF st]]
    by (cases q; simp add: CreateWithOutbox_def; blast)+
qed

text \<open>
  C6. Creating a task is all or nothing, whatever the database does: an error leaves every table as it
  was; otherwise exactly three things were added, a pending task of the organisation, one row
  per distinct non-zero keyword, in ascending order, and one well formed pending outbox
  message whose payload names this task and this organisation.
\<close>

theorem task_creation_atomic:
  "case CreateWithOutbox cx service inp w of
     (Inl e, w') \<Rightarrow> store w' = store w
   | (Inr (task, m), w') \<Rightarrow> created_with cx inp (store w) task m (store w')"
  by (auto split: prod.split sum.split dest: CreateWithOutbox_Inl CreateWithOutbox_Inr(1))

text \<open>
  The column \<open>include_body\<close> is declared \<open>default:true\<close>, so a task that is created with
  \<open>include_body\<close> false is stored, and returned, with true.
\<close>

theorem include_body_is_forced:
  assumes "CreateWithOutbox cx service inp w = (Inr (task, m), w')"
  shows "task_IncludeBody task"
  using assms by (rule CreateWithOutbox_Inr(2))

definition ex_category_row :: InspectionCategory where
  "ex_category_row = \<lparr>cat_ID = 4, cat_OrgID = 100, cat_Name = ''c'', cat_Enabled = True, cat_Sort = 0, cat_CreatorID = 0,
     cat_CreatorName = '''', cat_UpdaterID = 0, cat_UpdaterName = '''', cat_CreateAt = 0, cat_UpdateAt = 0\<rparr>"

definition ex_keyword_row :: InspectionKeyword where
  "ex_keyword_row = \<lparr>kw_ID = 7, kw_OrgID = 100, kw_Name = ''spam'', kw_CategoryID = 4, kw_MatchType = ''contains'',
     kw_RiskLevel = ''high'', kw_SuggestAction = ''offline'', kw_Enabled = True, kw_Remark = '''', kw_CreatorID = 0,
     kw_CreatorName = '''', kw_UpdaterID = 0, kw_UpdaterName = '''', kw_CreateAt = 0, kw_UpdateAt = 0\<rparr>"

definition ex_scope_row :: InspectionKeywordScope where
  "ex_scope_row = \<lparr>ks_ID = 8, ks_OrgID = 100, ks_KeywordID = 7, ks_Scope = ''title'', ks_CreateAt = 0, ks_UpdateAt = 0\<rparr>"

definition ex_create_world :: world where
  "ex_create_world = calm_world (empty_db\<lparr>t_categories := [ex_category_row], t_keywords := [ex_keyword_row], t_scopes := [ex_scope_row]\<rparr>)"

definition ex_task_service :: "TaskService option" where
  "ex_task_service = Some \<lparr>ts_hasDB = True, ts_keywords = Some \<lparr>kp_hasDB = True\<rparr>\<rparr>"

definition ex_task_input :: CreateInspectionTaskInput where
  "ex_task_input = \<lparr>ti_OrgID = 100, ti_KeywordIDs = [7], ti_PublishTimeStart = None, ti_PublishTimeEnd = None,
     ti_ArticleID = 0, ti_TitleLike = '''', ti_IncludeBody = False, ti_ArticleState = 0\<rparr>"

lemma ex_prepare:
  "\<exists>p. prepareTaskCreate background ex_task_service ex_task_input ex_create_world =
     (Inr p, advance (advance (advance ex_create_world)))"
proof -
  have "uniqueUint64s [7] = [7]" by (simp add: uniqueUint64s_def)
  moreover have "keywordQuery 100 (store ex_create_world) = [\<lparr>rk_Keyword = ex_keyword_row, rk_CategoryName = ''c''\<rparr>]"
    by (simp add: keywordQuery_def ex_create_world_def ex_keyword_row_def ex_category_row_def category_at_def)
  moreover have "task_input_json ex_task_input \<noteq> None" by (simp add: task_input_json_def json_time_def ex_task_input_def)
  ultimately show ?thesis
    by (auto simp: prepareTaskCreate_def ex_task_service_def ex_task_input_def KeywordRepository_ListByIDs_def
        keyword_ready_def listScopes_def stmt_simps ex_create_world_def ex_keyword_row_def time_now_def Let_def)
qed

lemma ex_create_runs:
  "\<exists>task m w'. CreateWithOutbox background ex_task_service ex_task_input ex_create_world = (Inr (task, m), w') \<and>
     no_faults w' \<and> task_ID task = 101 \<and> ob_ID m = 101 \<and> queue w' = [] \<and> clock w' = clock ex_create_world"
proof -
  obtain p where p: "prepareTaskCreate background ex_task_service ex_task_input ex_create_world =
     (Inr p, advance (advance (advance ex_create_world)))" using ex_prepare by blast
  have w: "no_faults ex_create_world" "t_tasks (store ex_create_world) = []" "queue ex_create_world = []"
    "autoinc ex_create_world t = 100" for t by (simp_all add: ex_create_world_def)
  have other: "t' \<noteq> t \<Longrightarrow> autoinc (take_ids t n v) t' = autoinc v t'" for t t' n v by (simp add: take_ids_def)
  show ?thesis
    using prepare_Inr [OF p] w
    by (simp add: CreateWithOutbox_def p db_transaction_def db_stmt_ok persistPreparedTaskGraph_def db_create_def
        db_create_all_def Let_def no_unique_def list_ex_iff outbox_message_def other)
qed

theorem include_body_is_forced_witness:
  "\<not> ti_IncludeBody ex_task_input \<and>
   (\<exists>task m w'. CreateWithOutbox background ex_task_service ex_task_input ex_create_world = (Inr (task, m), w') \<and> task_IncludeBody task)"
  using ex_create_runs include_body_is_forced by (auto simp: ex_task_input_def)

subsection \<open>The immediate relay\<close>

text \<open>
  What \<open>CreateAndEnqueue\<close> relies on: the relay touches the outbox and the queue, no other table. It is provided by
  \<open>TryDispatchMessage\<close> of a relay with any dispatcher, and of a relay without one.
\<close>

definition not_outbox :: "db \<Rightarrow> db" where
  "not_outbox d = d\<lparr>t_outbox := []\<rparr>"


lemma not_outbox_update [simp]: "not_outbox (t_outbox_update f d) = not_outbox d"
  by (simp add: not_outbox_def)






subsection \<open>Deletion\<close>

text \<open>What deleting a task means for the tables.\<close>

definition purge :: "uint64 \<Rightarrow> uint64 \<Rightarrow> db \<Rightarrow> db" where
  "purge orgID taskID d =
     d\<lparr>t_taskkws := filter (\<lambda>x. \<not> (tk_OrgID x = orgID \<and> tk_TaskID x = taskID)) (t_taskkws d),
       t_outbox := filter (\<lambda>x. \<not> (ob_OrgID x = orgID \<and> ob_TaskID x = taskID)) (t_outbox d),
       t_hits := filter (\<lambda>x. \<not> (hit_OrgID x = orgID \<and> hit_TaskID x = taskID)) (t_hits d),
       t_results := filter (\<lambda>x. \<not> (res_OrgID x = orgID \<and> res_TaskID x = taskID)) (t_results d),
       t_oplogs := filter (\<lambda>x. \<not> (log_OrgID x = orgID \<and> log_TaskID x = taskID)) (t_oplogs d),
       t_fcls := filter (\<lambda>x. \<not> (fcl_OrgID x = orgID \<and> fcl_TaskID x = taskID)) (t_fcls d),
       t_actions := filter (\<lambda>x. \<not> (act_OrgID x = orgID \<and> act_TaskID x = taskID)) (t_actions d),
       t_tasks := filter (\<lambda>x. \<not> (task_OrgID x = orgID \<and> task_ID x = taskID)) (t_tasks d)\<rparr>"

lemma deleteTaskGraph_Inr:
  assumes "deleteTaskGraph orgID taskID w = (Inr (), w')"
  shows "store w' = purge orgID taskID (store w) \<and> (\<exists>t \<in> set (t_tasks (store w)). task_at orgID taskID t)"
proof -
  from assms obtain v where "store w' = store v"
    and body: "go_try (db_delete t_taskkws t_taskkws_update (\<lambda>x. tk_OrgID x = orgID \<and> tk_TaskID x = taskID) (advance w)) (\<lambda>_ w.
       go_try (db_delete t_outbox t_outbox_update (\<lambda>x. ob_OrgID x = orgID \<and> ob_TaskID x = taskID) w) (\<lambda>_ w.
       go_try (db_delete t_hits t_hits_update (\<lambda>x. hit_OrgID x = orgID \<and> hit_TaskID x = taskID) w) (\<lambda>_ w.
       go_try (db_delete t_results t_results_update (\<lambda>x. res_OrgID x = orgID \<and> res_TaskID x = taskID) w) (\<lambda>_ w.
       go_try (db_delete t_oplogs t_oplogs_update (\<lambda>x. log_OrgID x = orgID \<and> log_TaskID x = taskID) w) (\<lambda>_ w.
       go_try (db_delete t_fcls t_fcls_update (\<lambda>x. fcl_OrgID x = orgID \<and> fcl_TaskID x = taskID) w) (\<lambda>_ w.
       go_try (db_delete t_actions t_actions_update (\<lambda>x. act_OrgID x = orgID \<and> act_TaskID x = taskID) w) (\<lambda>_ w.
       go_try (db_delete t_tasks t_tasks_update (task_at orgID taskID) w) (\<lambda>n w.
         if n = 0 then (Inl (Sentinel ErrTaskNotFound), w) else (Inr (), w))))))))) = (Inr (), v)"
    unfolding deleteTaskGraph_def by (rule transaction_Inr)
  moreover from body have "store v = purge orgID taskID (store w) \<and> (\<exists>t \<in> set (t_tasks (store w)). task_at orgID taskID t)"
    by (auto simp: go_try_Inr_iff purge_def rows_delete_def task_at_def filter_empty_conv dest!: db_delete_Inr split: if_splits)
  ultimately show ?thesis by simp
qed

lemma not_found_as_iff:
  "not_found_as s r = (Inr x, w) \<longleftrightarrow> r = (Inr x, w)"
  "snd (not_found_as s r) = snd r"
  by (auto simp: not_found_as_def split: prod.split sum.split)

lemma TaskService_Delete_outcome:
  "case TaskService_Delete service orgID taskID w of
     (Inl e, w') \<Rightarrow> store w' = store w
   | (Inr _, w') \<Rightarrow> store w' = purge orgID taskID (store w) \<and>
       list_ex (\<lambda>t. task_at orgID taskID t \<and> taskCanBeDeleted (task_Status t)) (t_tasks (store w))"
proof -
  obtain q w1 where f: "db_first t_tasks task_ID (task_at orgID taskID) w = (q, w1)" by fastforce
  then have st: "store w1 = store w" by (cases q) (auto dest: db_first_Inl db_first_Inr)
  obtain r w' where r: "TaskService_Delete service orgID taskID w = (r, w')" by fastforce
  show ?thesis
  proof (cases r)
    case (Inl e)
    with r f st have "store w' = store w"
      by (cases q) (auto simp: TaskService_Delete_def not_found_as_def deleteTaskGraph_def go_try_Inl_iff
          dest!: transaction_Inl split: if_splits)
    with r Inl show ?thesis by simp
  next
    case (Inr u)
    with r f obtain t where q: "q = Inr t" and d: "deleteTaskGraph orgID taskID w1 = (Inr (), w')"
      and s: "taskCanBeDeleted (task_Status t)"
      by (auto simp: TaskService_Delete_def go_try_Inr_iff not_found_as_iff split: if_splits)
    from f q have "t \<in> set (t_tasks (store w)) \<and> task_at orgID taskID t"
      by (auto dest!: db_first_Inr first_row_Some)
    with s deleteTaskGraph_Inr [OF d] st r Inr show ?thesis by (auto simp: list_ex_iff)
  qed
qed

text \<open>
  C30. Deleting a task is all or nothing, whatever the database does: an error leaves every table as it was;
  otherwise a task of the organisation with this id was there in state pending or failed, and
  exactly the rows of this task in this organisation are gone, from the task table and from the seven
  tables that refer to it.
\<close>

theorem task_deletion_exact:
  "case TaskService_Delete service orgID taskID w of
     (Inl e, w') \<Rightarrow> store w' = store w
   | (Inr _, w') \<Rightarrow> store w' = purge orgID taskID (store w) \<and>
       list_ex (\<lambda>t. task_at orgID taskID t \<and> taskCanBeDeleted (task_Status t)) (t_tasks (store w))"
  by (rule TaskService_Delete_outcome)

text \<open>A running or finished task is not deleted.\<close>

lemma taskCanBeDeleted_eq: "taskCanBeDeleted s \<longleftrightarrow> TrimSpace s = TaskStatusPending \<or> TrimSpace s = TaskStatusFailed"
  by (simp add: taskCanBeDeleted_def Let_def)

subsection \<open>Listing\<close>

lemma task_query_page [simp]: "task_query like (inp\<lparr>tl_Page := p, tl_PageSize := s\<rparr>) = task_query like inp"
  by (simp add: task_query_def fun_eq_iff)

definition task_lister :: "TaskListInput \<Rightarrow> int \<Rightarrow> int \<Rightarrow> world \<Rightarrow> (InspectionTask list \<times> int) res" where
  "task_lister inp p s w =
     go_try (TaskService_List (Some \<lparr>ts_hasDB = True, ts_keywords = None\<rparr>) (inp\<lparr>tl_Page := p, tl_PageSize := s\<rparr>) w)
       (\<lambda>r w. (Inr (tr_Items r, tr_Total r), w))"

interpretation task_pages: paged_listing "task_lister (inp\<lparr>tl_OrgID := Suc i\<rparr>)"
    "\<lambda>w. task_query (sql_like w) (inp\<lparr>tl_OrgID := Suc i\<rparr>) (store w)" for inp i
proof (rule paged_listing_by_count)
  fix p s p' s' w
  assume n: "NormalizePage p s = (p', s')"
  obtain q w1 where "count_and_page (task_query (sql_like w) (inp\<lparr>tl_OrgID := Suc i\<rparr>)) p' s' w = (q, w1)" by fastforce
  with n show "task_lister (inp\<lparr>tl_OrgID := Suc i\<rparr>) p s w = count_and_page (task_query (sql_like w) (inp\<lparr>tl_OrgID := Suc i\<rparr>)) p' s' w"
    by (cases q) (auto simp: task_lister_def TaskService_List_def task_db_ready_def)
qed

section \<open>Tasks stay in their organisation\<close>

lemma task_list_confined:
  "confined task_OrgID tr_Items (session_org cx) (task_list_handler service cx q)"
  unfolding task_list_handler_def
proof (intro confined_bad_request confined_org confined_failure)
  show "store (snd (TaskService_List service inp w)) = store w" for inp w
    by (auto simp: TaskService_List_def go_try_pure_store split: prod.split)
next
  fix org page size x w w'
  assume "TaskService_List service
      \<lparr>tl_OrgID = org, tl_Page = page, tl_PageSize = size, tl_Status = tq_Status q, tl_TaskNo = tq_TaskNo q\<rparr> w = (Inr x, w')"
  then show "store (snd (SuccessOKEnvelope 200 ''task list'' x, w')) = store w' \<and>
      (\<forall>r \<in> set (reply_items tr_Items (fst (SuccessOKEnvelope 200 ''task list'' x, w'))). Some (task_OrgID r) = Some org)"
    using set_page_rows
    by (fastforce simp: TaskService_List_def go_try_Inr_iff task_query_def newest_first_def Let_def dest!: count_and_page_Inr
        split: if_splits prod.splits)
qed

lemma task_detail_confined:
  "confined task_OrgID (\<lambda>t. [t]) (session_org cx) (task_detail_handler service cx rawID rawOrg)"
  unfolding task_detail_handler_def
proof (intro confined_bad_request confined_org confined_failure)
  show "store (snd (TaskService_Get service org i w)) = store w" for org i w
    by (auto simp: TaskService_Get_def not_found_as_def db_first_def db_stmt_def split: option.split prod.split sum.split)
next
  fix i org x w w'
  assume "TaskService_Get service org i w = (Inr x, w')"
  then show "store (snd (SuccessOKEnvelope 200 ''task detail'' x, w')) = store w' \<and>
      (\<forall>r \<in> set (reply_items (\<lambda>t. [t]) (fst (SuccessOKEnvelope 200 ''task detail'' x, w'))). Some (task_OrgID r) = Some org)"
    by (auto simp: TaskService_Get_def not_found_as_def task_at_def dest!: db_first_Inr first_row_Some split: if_splits prod.splits sum.splits)
qed

end
