(* ===== verification/Articles.thy ===== *)
theory Articles
  imports Shared Scan
begin

text \<open>
  The article source (\<open>internal/modules/articleinspect/articles\<close>): the candidates of a task, read
  by keyset pagination on the primary key, the article centre with the latest inspection
  summary of each article, its service and its routes.
\<close>

section \<open>Candidates\<close>

record CandidateArticleFilter =
  cf_OrgID :: uint64
  cf_ArticleState :: int8
  cf_PublishTimeStart :: "instant option"
  cf_PublishTimeEnd :: "instant option"
  cf_ArticleID :: uint64
  cf_TitleLike :: string
  cf_AfterID :: uint64
  cf_Limit :: int

record ArticleRepository =
  ap_hasDB :: bool

definition article_ready :: "ArticleRepository option \<Rightarrow> bool" where
  "article_ready repo = (case repo of None \<Rightarrow> False | Some r \<Rightarrow> ap_hasDB r)"

definition unix_seconds :: "instant \<Rightarrow> int64" where
  "unix_seconds t = t div 1000000000"

definition unixSecondsPointer :: "int64 \<Rightarrow> instant option" where
  "unixSecondsPointer v = (if v \<le> 0 then None else Some (v * 1000000000))"

definition nullableStringToString :: "string option \<Rightarrow> string" where
  "nullableStringToString v = (case v of None \<Rightarrow> '''' | Some s \<Rightarrow> s)"

definition extractArticleIDsFromModels :: "Article list \<Rightarrow> uint64 list" where
  "extractArticleIDsFromModels items = map art_ID items"

text \<open>\<open>loadBodies\<close>: the map of the source, missing entries read as the empty string.\<close>

definition body_map :: "ArticleInfo list \<Rightarrow> uint64 \<Rightarrow> string" where
  "body_map infos i =
     (case map_of (rev (map (\<lambda>x. (info_ID x, info_Body x)) infos)) i of None \<Rightarrow> '''' | Some b \<Rightarrow> b)"

definition loadBodies :: "uint64 list \<Rightarrow> world \<Rightarrow> (uint64 \<Rightarrow> string) res" where
  "loadBodies ids w =
     (if ids = [] then (Inr (body_map []), w)
      else go_try (db_query (\<lambda>d. filter (\<lambda>x. info_ID x \<in> set ids) (t_infos d)) w) (\<lambda>infos w.
        (Inr (body_map infos), w)))"

text \<open>The articles a filter selects, and those of them behind the cursor in the order of their ids.\<close>

definition candidate_match :: "(string \<Rightarrow> string \<Rightarrow> bool) \<Rightarrow> CandidateArticleFilter \<Rightarrow> Article \<Rightarrow> bool" where
  "candidate_match like f a =
     (let state = (if cf_ArticleState f = 0 then ArticleStateOnline else cf_ArticleState f);
          titleLike = TrimSpace (cf_TitleLike f)
      in art_OrgID a = cf_OrgID f \<and> art_State a = state \<and>
         (case cf_PublishTimeStart f of None \<Rightarrow> True | Some t \<Rightarrow> art_PublishAtUnix a \<ge> unix_seconds t) \<and>
         (case cf_PublishTimeEnd f of None \<Rightarrow> True | Some t \<Rightarrow> art_PublishAtUnix a \<le> unix_seconds t) \<and>
         (cf_ArticleID f = 0 \<or> art_ID a = cf_ArticleID f) \<and>
         (titleLike = '''' \<or> like (art_Title a) (''%'' @ titleLike @ ''%'')))"

definition candidate_query ::
    "(string \<Rightarrow> string \<Rightarrow> bool) \<Rightarrow> CandidateArticleFilter \<Rightarrow> nat \<Rightarrow> db \<Rightarrow> Article list" where
  "candidate_query like f limit d =
     take limit (sort_key art_ID (filter (\<lambda>a.
       candidate_match like f a \<and> (cf_AfterID f = 0 \<or> art_ID a > cf_AfterID f)) (t_articles d)))"

definition candidate_of :: "(uint64 \<Rightarrow> string) \<Rightarrow> Article \<Rightarrow> CandidateArticle" where
  "candidate_of bodies a =
     \<lparr>ca_ID = art_ID a, ca_OrgID = art_OrgID a, ca_Title = art_Title a,
      ca_ShortTitle = nullableStringToString (art_ShortTitle a), ca_RichTitle = art_RichTitle a,
      ca_Keyword = art_Keyword a, ca_Desc = art_Desc a, ca_Body = bodies (art_ID a), ca_State = art_State a,
      ca_PublishAtTime = unixSecondsPointer (art_PublishAtUnix a)\<rparr>"

definition candidate_limit :: "int \<Rightarrow> int" where
  "candidate_limit n = (let l = (if n \<le> 0 then 50 else n) in if l > 200 then 200 else l)"

definition ListCandidateArticles ::
    "ArticleRepository option \<Rightarrow> CandidateArticleFilter \<Rightarrow> world \<Rightarrow> (CandidateArticle list \<times> uint64) res" where
  "ListCandidateArticles repo f w =
     (if \<not> article_ready repo \<or> cf_OrgID f = 0 then (Inl (Sentinel ErrInvalidTaskInput), w)
      else
        (let limit = candidate_limit (cf_Limit f) in
         go_try (db_query (candidate_query (sql_like w) f (nat limit)) w) (\<lambda>articles w.
           if articles = [] then (Inr ([], 0), w)
           else go_try (loadBodies (extractArticleIDsFromModels articles) w) (\<lambda>bodies w.
             (Inr (map (candidate_of bodies) articles, art_ID (last articles)), w)))))"

section \<open>Article centre\<close>

record articleInspectSummary =
  su_ArticleID :: uint64
  su_LatestResultID :: uint64
  su_LatestTaskID :: uint64
  su_LatestRiskLevel :: string
  su_LatestSuggestAction :: string
  su_LatestDisposition :: string
  su_LatestOperatorName :: string
  su_LatestActionAt :: "instant option"

record ArticleListInput =
  ai_OrgID :: uint64
  ai_Page :: int
  ai_PageSize :: int
  ai_State :: "int8 option"
  ai_ArticleID :: uint64
  ai_TitleLike :: string

record ArticleListItem =
  al_ID :: uint64
  al_OrgID :: uint64
  al_Title :: string
  al_Thumbnail :: string
  al_State :: int8
  al_PublishAtTime :: "instant option"
  al_Summary :: articleInspectSummary

record ArticleDetail =
  ad_ID :: uint64
  ad_OrgID :: uint64
  ad_Title :: string
  ad_ShortTitle :: string
  ad_RichTitle :: string
  ad_Keyword :: string
  ad_Desc :: string
  ad_Body :: string
  ad_Thumbnail :: string
  ad_State :: int8
  ad_PublishAtTime :: "instant option"
  ad_Summary :: articleInspectSummary

definition no_summary :: articleInspectSummary where
  "no_summary =
     \<lparr>su_ArticleID = 0, su_LatestResultID = 0, su_LatestTaskID = 0, su_LatestRiskLevel = '''', su_LatestSuggestAction = '''',
      su_LatestDisposition = '''', su_LatestOperatorName = '''', su_LatestActionAt = None\<rparr>"

definition summary_of :: "InspectionResult \<Rightarrow> articleInspectSummary" where
  "summary_of r =
     \<lparr>su_ArticleID = res_ArticleID r, su_LatestResultID = res_ID r, su_LatestTaskID = res_TaskID r,
      su_LatestRiskLevel = res_RiskLevel r, su_LatestSuggestAction = res_SuggestAction r,
      su_LatestDisposition = res_DispositionStatus r, su_LatestOperatorName = res_LatestOperatorName r,
      su_LatestActionAt = res_LatestActionAt r\<rparr>"

text \<open>
  \<open>ORDER BY article_id ASC, latest_action_at DESC, task_id DESC, id DESC\<close>, \<open>NULL\<close> counting as the least
  instant as MySQL has it; the loop keeps the first row of each article.
\<close>

definition action_rank :: "InspectionResult \<Rightarrow> bool \<times> int" where
  "action_rank r = (case res_LatestActionAt r of None \<Rightarrow> (True, 0) | Some t \<Rightarrow> (False, - t))"

definition summary_rows :: "uint64 \<Rightarrow> uint64 list \<Rightarrow> db \<Rightarrow> InspectionResult list" where
  "summary_rows orgID ids d =
     sort_key res_ArticleID (sort_key (\<lambda>r. fst (action_rank r)) (sort_key (\<lambda>r. snd (action_rank r))
       (sort_key (\<lambda>r. - int (res_TaskID r)) (sort_key (\<lambda>r. - int (res_ID r))
         (filter (\<lambda>r. res_OrgID r = orgID \<and> res_ArticleID r \<in> set ids) (t_results d))))))"

definition summary_map :: "InspectionResult list \<Rightarrow> uint64 \<Rightarrow> articleInspectSummary" where
  "summary_map rows i =
     (case find (\<lambda>r. res_ArticleID r = i) rows of None \<Rightarrow> no_summary | Some r \<Rightarrow> summary_of r)"

definition loadLatestInspectSummaries :: "uint64 \<Rightarrow> uint64 list \<Rightarrow> world \<Rightarrow> (uint64 \<Rightarrow> articleInspectSummary) res" where
  "loadLatestInspectSummaries orgID ids w =
     (if ids = [] then (Inr (summary_map []), w)
      else go_try (db_query (summary_rows orgID ids) w) (\<lambda>rows w. (Inr (summary_map rows), w)))"

definition article_query :: "(string \<Rightarrow> string \<Rightarrow> bool) \<Rightarrow> ArticleListInput \<Rightarrow> db \<Rightarrow> Article list" where
  "article_query like inp d =
     (let title = TrimSpace (ai_TitleLike inp) in
      newest_first art_PublishAtUnix art_ID (filter (\<lambda>a.
        art_OrgID a = ai_OrgID inp \<and>
        (case ai_State inp of
           Some s \<Rightarrow> art_State a = s
         | None \<Rightarrow> art_State a = ArticleStateOffline \<or> art_State a = ArticleStateOnline) \<and>
        (ai_ArticleID inp = 0 \<or> art_ID a = ai_ArticleID inp) \<and>
        (title = '''' \<or> like (art_Title a) (''%'' @ title @ ''%''))) (t_articles d)))"

definition ListArticles ::
    "ArticleRepository option \<Rightarrow> ArticleListInput \<Rightarrow> world \<Rightarrow> (ArticleListItem list \<times> int64) res" where
  "ListArticles repo inp w =
     (if \<not> article_ready repo \<or> ai_OrgID inp = 0 then (Inl (Sentinel ErrInvalidArticleQuery), w)
      else
        (let (page, pageSize) = NormalizePage (ai_Page inp) (ai_PageSize inp) in
         go_try (count_and_page (article_query (sql_like w) inp) page pageSize w) (\<lambda>(articles, n) w.
           if articles = [] then (Inr ([], n), w)
           else go_try (loadLatestInspectSummaries (ai_OrgID inp) (extractArticleIDsFromModels articles) w) (\<lambda>summaries w.
             (Inr (map (\<lambda>a. \<lparr>al_ID = art_ID a, al_OrgID = art_OrgID a, al_Title = art_Title a,
                             al_Thumbnail = art_Thumbnail a, al_State = art_State a,
                             al_PublishAtTime = unixSecondsPointer (art_PublishAtUnix a),
                             al_Summary = summaries (art_ID a)\<rparr>) articles, n), w)))))"

definition article_at :: "uint64 \<Rightarrow> uint64 \<Rightarrow> Article \<Rightarrow> bool" where
  "article_at orgID articleID a = (art_OrgID a = orgID \<and> art_ID a = articleID)"

definition GetArticleDetail :: "ArticleRepository option \<Rightarrow> uint64 \<Rightarrow> uint64 \<Rightarrow> world \<Rightarrow> ArticleDetail res" where
  "GetArticleDetail repo orgID articleID w =
     (if \<not> article_ready repo \<or> orgID = 0 \<or> articleID = 0 then (Inl (Sentinel ErrInvalidArticleQuery), w)
      else
        (case db_first t_articles art_ID (article_at orgID articleID) w of
           (Inl e, w1) \<Rightarrow> (Inl (if errors_is e ErrRecordNotFound then Sentinel ErrArticleNotFound else e), w1)
         | (Inr a, w1) \<Rightarrow>
             go_try (loadBodies [articleID] w1) (\<lambda>bodies w.
             go_try (loadLatestInspectSummaries orgID [articleID] w) (\<lambda>summaries w.
               (Inr \<lparr>ad_ID = art_ID a, ad_OrgID = art_OrgID a, ad_Title = art_Title a,
                     ad_ShortTitle = nullableStringToString (art_ShortTitle a), ad_RichTitle = art_RichTitle a,
                     ad_Keyword = art_Keyword a, ad_Desc = art_Desc a, ad_Body = bodies articleID,
                     ad_Thumbnail = art_Thumbnail a, ad_State = art_State a,
                     ad_PublishAtTime = unixSecondsPointer (art_PublishAtUnix a),
                     ad_Summary = summaries articleID\<rparr>, w)))))"

section \<open>Service and routes\<close>

record ArticleListResult =
  ar_Page :: int
  ar_PageSize :: int
  ar_Total :: int64
  ar_Items :: "ArticleListItem list"

record ArticleService =
  av_repo :: "ArticleRepository option"

definition article_repo :: "ArticleService option \<Rightarrow> ArticleRepository option" where
  "article_repo service = (case service of None \<Rightarrow> None | Some s \<Rightarrow> av_repo s)"

definition ArticleService_List :: "ArticleService option \<Rightarrow> ArticleListInput \<Rightarrow> world \<Rightarrow> ArticleListResult res" where
  "ArticleService_List service inp w =
     (if Option.is_none (article_repo service) \<or> ai_OrgID inp = 0 then (Inl (Sentinel ErrInvalidArticleQuery), w)
      else
        (let (page, pageSize) = NormalizePage (ai_Page inp) (ai_PageSize inp) in
         go_try (ListArticles (article_repo service) inp w) (\<lambda>(items, n) w.
           (Inr \<lparr>ar_Page = page, ar_PageSize = pageSize, ar_Total = n, ar_Items = items\<rparr>, w))))"

definition ArticleService_Get :: "ArticleService option \<Rightarrow> uint64 \<Rightarrow> uint64 \<Rightarrow> world \<Rightarrow> ArticleDetail res" where
  "ArticleService_Get service orgID articleID w =
     (if Option.is_none (article_repo service) \<or> orgID = 0 \<or> articleID = 0 then (Inl (Sentinel ErrInvalidArticleQuery), w)
      else GetArticleDetail (article_repo service) orgID articleID w)"

definition articles_statusFromError :: "goerr \<Rightarrow> int \<times> string" where
  "articles_statusFromError e =
     (if errors_is e ErrUnauthorized then (401, ''unauthorized'')
      else if errors_is e ErrArticleNotFound \<or> errors_is e ErrRecordNotFound then (404, ''resource not found'')
      else if errors_is e ErrInvalidArticleQuery then (400, ''invalid article query'')
      else (500, ''internal server error''))"

record articleListRequest =
  aq_OrgID :: string
  aq_Page :: param
  aq_PageSize :: param
  aq_State :: param
  aq_ArticleID :: param
  aq_Title :: string

definition article_list_handler ::
    "ArticleService option \<Rightarrow> gocontext \<Rightarrow> articleListRequest \<Rightarrow> world \<Rightarrow> ArticleListResult EnvelopeOutput \<times> world" where
  "article_list_handler service cx inp =
     or_bad_request (guard_true (ValidateOptionalOrgID (aq_OrgID inp))) ''invalid article query'' (\<lambda>_ w.
       or_failure articles_statusFromError (CurrentOrgID cx, w) (\<lambda>orgID.
         or_bad_request (OptionalIntParam_Value (aq_Page inp)) ''invalid article query'' (\<lambda>page.
           or_bad_request (OptionalIntParam_Value (aq_PageSize inp)) ''invalid article query'' (\<lambda>pageSize.
             or_bad_request (OptionalInt8Param_Ptr (aq_State inp)) ''invalid state'' (\<lambda>state.
               or_bad_request (OptionalUint64Param_Value (aq_ArticleID inp)) ''invalid article query'' (\<lambda>articleID w.
                 or_failure articles_statusFromError
                   (ArticleService_List service
                      \<lparr>ai_OrgID = orgID, ai_Page = page, ai_PageSize = pageSize, ai_State = state,
                       ai_ArticleID = articleID, ai_TitleLike = aq_Title inp\<rparr> w)
                   (\<lambda>result w. (SuccessOKEnvelope 200 ''article list'' result, w))))))))"

definition article_detail_handler ::
    "ArticleService option \<Rightarrow> gocontext \<Rightarrow> string \<Rightarrow> string \<Rightarrow> world \<Rightarrow> ArticleDetail EnvelopeOutput \<times> world" where
  "article_detail_handler service cx rawID rawOrg =
     or_bad_request (Uint64Param_Parse rawID) ''invalid article input'' (\<lambda>articleID.
       or_bad_request (guard_true (ValidateOptionalOrgID rawOrg)) ''invalid article input'' (\<lambda>_ w.
         or_failure articles_statusFromError (CurrentOrgID cx, w) (\<lambda>orgID w.
           or_failure articles_statusFromError (ArticleService_Get service orgID articleID w)
             (\<lambda>result w. (SuccessOKEnvelope 200 ''article detail'' result, w)))))"

section \<open>Properties\<close>

subsection \<open>Candidates\<close>

text \<open>
  The candidates of a filter, all at once: the reference that the keyset pagination is compared with.
\<close>

definition all_candidates :: "(string \<Rightarrow> string \<Rightarrow> bool) \<Rightarrow> CandidateArticleFilter \<Rightarrow> db \<Rightarrow> CandidateArticle list" where
  "all_candidates like f d =
     map (candidate_of (body_map (t_infos d))) (sort_key art_ID (filter (candidate_match like f) (t_articles d)))"

definition behind :: "uint64 \<Rightarrow> CandidateArticle \<Rightarrow> bool" where
  "behind cursor c = (cursor = 0 \<or> ca_ID c > cursor)"

lemma candidate_of_id [simp]: "ca_ID (candidate_of b a) = art_ID a"
  by (simp add: candidate_of_def)

lemma candidate_match_cursor [simp]:
  "candidate_match like (f\<lparr>cf_AfterID := c, cf_Limit := l\<rparr>) = candidate_match like f"
  by (simp add: candidate_match_def fun_eq_iff)

lemma body_map_filter: "i \<in> S \<Longrightarrow> body_map (filter (\<lambda>x. info_ID x \<in> S) infos) i = body_map infos i"
proof (induction infos rule: rev_induct)
  case (snoc x xs)
  then show ?case by (auto simp: body_map_def)
qed (simp add: body_map_def)

lemma candidate_query_eq:
  "map (candidate_of (body_map (filter (\<lambda>x. info_ID x \<in> set (map art_ID (candidate_query like f n d))) (t_infos d))))
     (candidate_query like f n d) =
   take n (filter (behind (cf_AfterID f)) (all_candidates like f d))"
proof -
  let ?q = "candidate_query like f n d"
  have "map (candidate_of (body_map (filter (\<lambda>x. info_ID x \<in> set (map art_ID ?q)) (t_infos d)))) ?q =
        map (candidate_of (body_map (t_infos d))) ?q"
    by (intro map_cong refl) (simp add: candidate_of_def body_map_filter)
  also have "\<dots> = take n (map (candidate_of (body_map (t_infos d)))
      (filter (\<lambda>a. cf_AfterID f = 0 \<or> art_ID a > cf_AfterID f) (sort_key art_ID (filter (candidate_match like f) (t_articles d)))))"
    by (simp add: candidate_query_def take_map filter_sort conj_commute)
  also have "\<dots> = take n (filter (behind (cf_AfterID f)) (all_candidates like f d))"
    by (simp add: all_candidates_def filter_map behind_def comp_def)
  finally show ?thesis .
qed

lemma loadBodies_keeps [frame]: "keeps g (loadBodies ids)"
  unfolding loadBodies_def by (intro frame)

lemma loadBodies_steady [frame]: "steady (loadBodies ids)"
  unfolding loadBodies_def by (intro frame)

lemma ListCandidateArticles_frame:
  "store (snd (ListCandidateArticles repo f w)) = store w" "same_env w (snd (ListCandidateArticles repo f w))"
proof -
  have "keeps (\<lambda>d. d) (\<lambda>w. go_try (db_query q w) (\<lambda>articles w. if articles = [] then (Inr ([], 0), w)
           else go_try (loadBodies (extractArticleIDsFromModels articles) w) (\<lambda>bodies w.
             (Inr (map (candidate_of bodies) articles, art_ID (last articles)), w))))"
    and "steady (\<lambda>w. go_try (db_query q w) (\<lambda>articles w. if articles = [] then (Inr ([], 0), w)
           else go_try (loadBodies (extractArticleIDsFromModels articles) w) (\<lambda>bodies w.
             (Inr (map (candidate_of bodies) articles, art_ID (last articles)), w))))" for q
    by (intro frame)+
  then show "store (snd (ListCandidateArticles repo f w)) = store w" "same_env w (snd (ListCandidateArticles repo f w))"
    by (simp_all add: ListCandidateArticles_def Let_def keeps_def steady_def)
qed

lemma ListCandidateArticles_Inr:
  assumes "ListCandidateArticles repo f w = (Inr (items, next), w')"
  shows "items = take (nat (candidate_limit (cf_Limit f))) (filter (behind (cf_AfterID f)) (all_candidates (sql_like w) f (store w)))"
    and "next = (if items = [] then 0 else ca_ID (last items))"
proof -
  let ?q = "candidate_query (sql_like w) f (nat (candidate_limit (cf_Limit f))) (store w)"
  from assms have "?q = [] \<and> items = [] \<and> next = 0 \<or>
      ?q \<noteq> [] \<and> items = map (candidate_of (body_map (filter (\<lambda>x. info_ID x \<in> set (map art_ID ?q)) (t_infos (store w))))) ?q \<and> next = art_ID (last ?q)"
    by (auto simp: ListCandidateArticles_def Let_def go_try_Inr_iff loadBodies_def extractArticleIDsFromModels_def
        dest!: db_query_Inr split: if_splits)
  then have items: "items = map (candidate_of (body_map (filter (\<lambda>x. info_ID x \<in> set (map art_ID ?q)) (t_infos (store w))))) ?q"
    and nx: "next = (if ?q = [] then 0 else art_ID (last ?q))" by auto
  show "items = take (nat (candidate_limit (cf_Limit f))) (filter (behind (cf_AfterID f)) (all_candidates (sql_like w) f (store w)))"
    unfolding items by (rule candidate_query_eq)
  show "next = (if items = [] then 0 else ca_ID (last items))" unfolding items nx by (simp add: last_map)
qed

lemma ListCandidateArticles_ok:
  assumes "no_faults w" and "article_ready repo" and "cf_OrgID f \<noteq> 0"
  shows "\<exists>x. fst (ListCandidateArticles repo f w) = Inr x"
  using assms by (auto simp: ListCandidateArticles_def Let_def stmt_simps loadBodies_def)

lemma all_candidates_ids: "sorted (map ca_ID (all_candidates like f d))"
  "distinct (map art_ID (t_articles d)) \<Longrightarrow> distinct (map ca_ID (all_candidates like f d))"
  "set (map ca_ID (all_candidates like f d)) \<subseteq> set (map art_ID (t_articles d))"
proof -
  have eq: "map ca_ID (all_candidates like f d) = map art_ID (sort_key art_ID (filter (candidate_match like f) (t_articles d)))"
    by (simp add: all_candidates_def)
  show "sorted (map ca_ID (all_candidates like f d))" unfolding eq by simp
  show "set (map ca_ID (all_candidates like f d)) \<subseteq> set (map art_ID (t_articles d))" unfolding eq by auto
  assume "distinct (map art_ID (t_articles d))"
  then have "distinct (map art_ID (filter (candidate_match like f) (t_articles d)))" by (rule distinct_map_filterI)
  then show "distinct (map ca_ID (all_candidates like f d))" unfolding eq by (simp add: distinct_map)
qed

section \<open>Articles stay in their organisation\<close>

lemma summaries_store [simp]: "store (snd (loadLatestInspectSummaries i ids w)) = store w" "store (snd (loadBodies ids w)) = store w"
  by (auto simp: loadLatestInspectSummaries_def loadBodies_def go_try_pure_store db_query_def db_stmt_def split: option.split)

lemma ArticleService_List_owned:
  "i = ai_OrgID inp \<Longrightarrow> owned al_OrgID ar_Items i (ArticleService_List service inp)"
proof (rule ownedI)
  show "store (snd (ArticleService_List service inp w)) = store w" for w
    by (auto simp: ArticleService_List_def ListArticles_def go_try_pure_store split: prod.split)
  show "al_OrgID r = i" if "i = ai_OrgID inp" "ArticleService_List service inp w = (Inr x, w')" "r \<in> set (ar_Items x)" for x r w w'
    using that set_page_rows
    by (fastforce simp: ArticleService_List_def ListArticles_def go_try_Inr_iff article_query_def newest_first_def
        Let_def dest!: count_and_page_Inr split: if_splits prod.splits)
qed

lemma ArticleService_Get_owned: "owned ad_OrgID (\<lambda>x. [x]) i (ArticleService_Get service i a)"
proof (rule ownedI)
  have f: "store (snd (db_first sel key P w)) = store w" for sel :: "db \<Rightarrow> Article list" and key P w
    by (simp add: db_first_def db_stmt_def split: option.split)
  show "store (snd (ArticleService_Get service i a w)) = store w" for w
    using f [of t_articles art_ID "article_at i a" w]
    by (auto simp: ArticleService_Get_def GetArticleDetail_def go_try_pure_store split: prod.split sum.split)
  show "ad_OrgID r = i" if "ArticleService_Get service i a w = (Inr x, w')" "r \<in> set [x]" for x r w w'
    using that
    by (auto simp: ArticleService_Get_def GetArticleDetail_def go_try_Inr_iff article_at_def
        dest!: db_first_Inr first_row_Some split: if_splits prod.splits sum.splits)
qed

lemma article_routes_confined:
  "confined al_OrgID ar_Items (session_org cx) (article_list_handler service cx q)"
  "confined ad_OrgID (\<lambda>x. [x]) (session_org cx) (article_detail_handler service cx rawID rawOrg)"
  unfolding article_list_handler_def article_detail_handler_def
  by (intro confined_bad_request confined_org confined_service ArticleService_List_owned ArticleService_Get_owned, simp) (intro confined_bad_request confined_org confined_service ArticleService_List_owned ArticleService_Get_owned)

end
