(* ===== verification/Results.thy ===== *)
theory Results
  imports AuditTrail
begin

text \<open>
  The results of inspections (\<open>internal/modules/articleinspect/results\<close>): the list with a preview
  of the first hit, the detail of a result with its hits and logs, and the routes.
\<close>

section \<open>Repository\<close>

record ResultListInput =
  ri_OrgID :: uint64
  ri_TaskID :: uint64
  ri_RiskLevel :: string
  ri_DispositionStatus :: string
  ri_TitleLike :: string
  ri_ArticleID :: uint64
  ri_Page :: int
  ri_PageSize :: int

record ResultListItem =
  rl_Result :: InspectionResult
  rl_PreviewFieldName :: string
  rl_PreviewKeywordText :: string
  rl_PreviewMatchedText :: string
  rl_PreviewSnippet :: string
  rl_ExtraHitCount :: int64

record ResultRepository =
  rr_hasDB :: bool

definition result_ready :: "ResultRepository option \<Rightarrow> bool" where
  "result_ready repo = (case repo of None \<Rightarrow> False | Some r \<Rightarrow> rr_hasDB r)"

text \<open>
  \<open>risk_level\<close> and \<open>disposition_status\<close> hold the constants of the domain, for which the comparison
  of the database is plain equality; the title is compared by \<open>LIKE\<close>.
\<close>

definition result_query :: "(string \<Rightarrow> string \<Rightarrow> bool) \<Rightarrow> ResultListInput \<Rightarrow> db \<Rightarrow> InspectionResult list" where
  "result_query like inp d =
     (let risk = TrimSpace (ri_RiskLevel inp); disposition = TrimSpace (ri_DispositionStatus inp);
          title = TrimSpace (ri_TitleLike inp)
      in sort_key res_ID (filter (\<lambda>r.
        res_OrgID r = ri_OrgID inp \<and>
        (ri_TaskID inp = 0 \<or> res_TaskID r = ri_TaskID inp) \<and>
        (ri_ArticleID inp = 0 \<or> res_ArticleID r = ri_ArticleID inp) \<and>
        (risk = '''' \<or> res_RiskLevel r = risk) \<and>
        (disposition = '''' \<or> res_DispositionStatus r = disposition) \<and>
        (title = '''' \<or> like (res_ArticleTitle r) (''%'' @ title @ ''%''))) (t_results d)))"

definition listHitsByResultIDs :: "uint64 \<Rightarrow> uint64 list \<Rightarrow> world \<Rightarrow> InspectionResultHit list res" where
  "listHitsByResultIDs orgID resultIDs w =
     (if resultIDs = [] then (Inr [], w)
      else db_query (\<lambda>d. sort_key hit_ResultID (sort_key hit_ID
             (filter (\<lambda>h. hit_OrgID h = orgID \<and> hit_ResultID h \<in> set resultIDs) (t_hits d)))) w)"

text \<open>The preview map holds the first hit of a result, the count map the number of its hits.\<close>

definition result_item :: "InspectionResultHit list \<Rightarrow> InspectionResult \<Rightarrow> ResultListItem" where
  "result_item hits row =
     (case find (\<lambda>h. hit_ResultID h = res_ID row) hits of
        None \<Rightarrow> \<lparr>rl_Result = row, rl_PreviewFieldName = '''', rl_PreviewKeywordText = '''', rl_PreviewMatchedText = '''',
                 rl_PreviewSnippet = '''', rl_ExtraHitCount = 0\<rparr>
      | Some h \<Rightarrow>
          (let n = int (length (filter (\<lambda>x. hit_ResultID x = res_ID row) hits)) in
           \<lparr>rl_Result = row, rl_PreviewFieldName = hit_FieldName h, rl_PreviewKeywordText = hit_KeywordText h,
            rl_PreviewMatchedText = hit_MatchedText h, rl_PreviewSnippet = hit_Snippet h,
            rl_ExtraHitCount = (if n > 1 then n - 1 else 0)\<rparr>))"

definition ListResults ::
    "ResultRepository option \<Rightarrow> ResultListInput \<Rightarrow> world \<Rightarrow> (ResultListItem list \<times> int64) res" where
  "ListResults repo inp w =
     (if \<not> result_ready repo \<or> ri_OrgID inp = 0 then (Inl (Sentinel ErrInvalidResultQuery), w)
      else
        (let (page, pageSize) = NormalizePage (ri_Page inp) (ri_PageSize inp) in
         go_try (count_and_page (result_query (sql_like w) inp) page pageSize w) (\<lambda>(rows, n) w.
           if rows = [] then (Inr ([], n), w)
           else go_try (listHitsByResultIDs (ri_OrgID inp) (map res_ID rows) w) (\<lambda>hits w.
             (Inr (map (result_item hits) rows, n), w)))))"

definition result_at :: "uint64 \<Rightarrow> uint64 \<Rightarrow> InspectionResult \<Rightarrow> bool" where
  "result_at orgID resultID r = (res_OrgID r = orgID \<and> res_ID r = resultID)"

definition GetResult :: "ResultRepository option \<Rightarrow> uint64 \<Rightarrow> uint64 \<Rightarrow> world \<Rightarrow> InspectionResult res" where
  "GetResult repo orgID resultID w =
     (if \<not> result_ready repo \<or> orgID = 0 \<or> resultID = 0 then (Inl (Sentinel ErrInvalidResultQuery), w)
      else db_first t_results res_ID (result_at orgID resultID) w)"

definition ListHits :: "ResultRepository option \<Rightarrow> uint64 \<Rightarrow> uint64 \<Rightarrow> world \<Rightarrow> InspectionResultHit list res" where
  "ListHits repo orgID resultID w =
     (if \<not> result_ready repo \<or> orgID = 0 \<or> resultID = 0 then (Inl (Sentinel ErrInvalidResultQuery), w)
      else db_query (\<lambda>d. sort_key hit_ID (filter (\<lambda>h. hit_OrgID h = orgID \<and> hit_ResultID h = resultID) (t_hits d))) w)"

section \<open>Service\<close>

record ResultListResult =
  rs_Page :: int
  rs_PageSize :: int
  rs_Total :: int64
  rs_Items :: "ResultListItem list"

record ResultDetail =
  rd_Result :: InspectionResult
  rd_Hits :: "InspectionResultHit list"
  rd_OperationLogs :: "InspectionOperationLog list"
  rd_FieldChangeLogs :: "InspectionFieldChangeLog list"

record ResultService =
  rv_repo :: "ResultRepository option"
  rv_audit :: "AuditRepository option"

definition NewResultService :: "bool \<Rightarrow> ResultService option" where
  "NewResultService hasDB = Some \<lparr>rv_repo = Some \<lparr>rr_hasDB = hasDB\<rparr>, rv_audit = NewAuditRepository hasDB\<rparr>"

definition ResultService_List :: "ResultService option \<Rightarrow> ResultListInput \<Rightarrow> world \<Rightarrow> ResultListResult res" where
  "ResultService_List service inp w =
     (case service of
        None \<Rightarrow> (Inl (Sentinel ErrInvalidResultQuery), w)
      | Some s \<Rightarrow>
          if Option.is_none (rv_repo s) \<or> ri_OrgID inp = 0 then (Inl (Sentinel ErrInvalidResultQuery), w)
          else
            (let (page, pageSize) = NormalizePage (ri_Page inp) (ri_PageSize inp) in
             go_try (ListResults (rv_repo s) inp w) (\<lambda>(items, n) w.
               (Inr \<lparr>rs_Page = page, rs_PageSize = pageSize, rs_Total = n, rs_Items = items\<rparr>, w))))"

definition GetDetail :: "ResultService option \<Rightarrow> uint64 \<Rightarrow> uint64 \<Rightarrow> world \<Rightarrow> ResultDetail res" where
  "GetDetail service orgID resultID w =
     (case service of
        None \<Rightarrow> (Inl (Sentinel ErrInvalidResultQuery), w)
      | Some s \<Rightarrow>
          if Option.is_none (rv_repo s) \<or> Option.is_none (rv_audit s) \<or> orgID = 0 \<or> resultID = 0
          then (Inl (Sentinel ErrInvalidResultQuery), w)
          else
            go_try (GetResult (rv_repo s) orgID resultID w) (\<lambda>result w.
            go_try (ListHits (rv_repo s) orgID resultID w) (\<lambda>hits w.
            go_try (ListOperationLogs (rv_audit s)
                      \<lparr>ol_OrgID = orgID, ol_ArticleID = res_ArticleID result, ol_TaskID = res_TaskID result,
                       ol_OperatorName = '''', ol_StartAt = None, ol_EndAt = None, ol_Page = 1, ol_PageSize = 20\<rparr> w) (\<lambda>(opLogs, _) w.
            go_try (ListFieldChangeLogs (rv_audit s)
                      \<lparr>fl_OrgID = orgID, fl_ArticleID = res_ArticleID result, fl_FieldName = '''', fl_StartAt = None,
                       fl_EndAt = None, fl_Page = 1, fl_PageSize = 20\<rparr> w) (\<lambda>(changeLogs, _) w.
              (Inr \<lparr>rd_Result = result, rd_Hits = hits, rd_OperationLogs = opLogs, rd_FieldChangeLogs = changeLogs\<rparr>, w))))))"

section \<open>Routes\<close>

definition results_statusFromError :: "goerr \<Rightarrow> int \<times> string" where
  "results_statusFromError e =
     (if errors_is e ErrUnauthorized then (401, ''unauthorized'')
      else if errors_is e ErrRecordNotFound then (404, ''resource not found'')
      else if errors_is e ErrInvalidResultQuery then (400, ''invalid result query'')
      else (500, ''internal server error''))"

record resultListRequest =
  rq_OrgID :: string
  rq_TaskID :: param
  rq_RiskLevel :: string
  rq_DispositionStatus :: string
  rq_TitleLike :: string
  rq_ArticleID :: param
  rq_Page :: param
  rq_PageSize :: param

definition result_list_handler ::
    "ResultService option \<Rightarrow> gocontext \<Rightarrow> resultListRequest \<Rightarrow> world \<Rightarrow> ResultListResult EnvelopeOutput \<times> world" where
  "result_list_handler service cx inp =
     or_bad_request (guard_true (ValidateOptionalOrgID (rq_OrgID inp))) ''invalid result query'' (\<lambda>_ w.
       or_failure results_statusFromError (CurrentOrgID cx, w) (\<lambda>orgID.
         or_bad_request (OptionalUint64Param_Value (rq_TaskID inp)) ''invalid result query'' (\<lambda>taskID.
           or_bad_request (OptionalUint64Param_Value (rq_ArticleID inp)) ''invalid result query'' (\<lambda>articleID.
             or_bad_request (OptionalIntParam_Value (rq_Page inp)) ''invalid result query'' (\<lambda>page.
               or_bad_request (OptionalIntParam_Value (rq_PageSize inp)) ''invalid result query'' (\<lambda>pageSize w.
                 or_failure results_statusFromError
                   (ResultService_List service
                      \<lparr>ri_OrgID = orgID, ri_TaskID = taskID, ri_RiskLevel = rq_RiskLevel inp,
                       ri_DispositionStatus = rq_DispositionStatus inp, ri_TitleLike = rq_TitleLike inp,
                       ri_ArticleID = articleID, ri_Page = page, ri_PageSize = pageSize\<rparr> w)
                   (\<lambda>result w. (SuccessOKEnvelope 200 ''result list'' result, w))))))))"

definition result_detail_handler ::
    "ResultService option \<Rightarrow> gocontext \<Rightarrow> string \<Rightarrow> string \<Rightarrow> world \<Rightarrow> ResultDetail EnvelopeOutput \<times> world" where
  "result_detail_handler service cx rawID rawOrg =
     or_bad_request (Uint64Param_Parse rawID) ''invalid result input'' (\<lambda>i.
       or_bad_request (guard_true (ValidateOptionalOrgID rawOrg)) ''invalid result input'' (\<lambda>_ w.
         or_failure results_statusFromError (CurrentOrgID cx, w) (\<lambda>orgID w.
           or_failure results_statusFromError (GetDetail service orgID i w)
             (\<lambda>result w. (SuccessOKEnvelope 200 ''result detail'' result, w)))))"

section \<open>Results stay in their organisation\<close>

lemma item_result [simp]: "rl_Result (result_item hits row) = row"
  by (simp add: result_item_def Let_def split: option.split)

lemma ListResults_store [simp]: "store (snd (ListResults repo inp w)) = store w"
proof -
  have "store (snd (listHitsByResultIDs i ids v)) = store v" for i ids v
    by (auto simp: listHitsByResultIDs_def db_query_def db_stmt_def split: option.split)
  then show ?thesis by (auto simp: ListResults_def Let_def go_try_pure_store split: prod.split)
qed

lemma ListResults_own:
  assumes "ListResults repo inp w = (Inr (items, n), w')" and "x \<in> set items"
  shows "res_OrgID (rl_Result x) = ri_OrgID inp"
proof -
  obtain page size where np: "NormalizePage (ri_Page inp) (ri_PageSize inp) = (page, size)" by fastforce
  from assms(1) np obtain rows m v where c: "count_and_page (result_query (sql_like w) inp) page size w = (Inr (rows, m), v)"
    and items: "items = [] \<or> (\<exists>hits. items = map (result_item hits) rows)"
    by (auto simp: ListResults_def go_try_Inr_iff split: if_splits)
  have "set rows \<subseteq> set (result_query (sql_like w) inp (store w))" using count_and_page_Inr [OF c] set_page_rows [of page size] by metis
  then have "res_OrgID r = ri_OrgID inp" if "r \<in> set rows" for r using that by (auto simp: result_query_def Let_def)
  with items assms(2) show ?thesis by auto
qed

lemma result_list_confined:
  "confined (\<lambda>x. res_OrgID (rl_Result x)) rs_Items (session_org cx) (result_list_handler service cx q)"
  unfolding result_list_handler_def
proof (intro confined_bad_request confined_org confined_failure)
  fix org inp w
  show "store (snd (ResultService_List service inp w)) = store w" for inp w
    by (auto simp: ResultService_List_def go_try_pure_store split: option.split prod.split)
next
  fix org taskID articleID page size x w w'
  assume "ResultService_List service
      \<lparr>ri_OrgID = org, ri_TaskID = taskID, ri_RiskLevel = rq_RiskLevel q, ri_DispositionStatus = rq_DispositionStatus q,
       ri_TitleLike = rq_TitleLike q, ri_ArticleID = articleID, ri_Page = page, ri_PageSize = size\<rparr> w = (Inr x, w')"
  then show "store (snd (SuccessOKEnvelope 200 ''result list'' x, w')) = store w' \<and>
      (\<forall>r \<in> set (reply_items rs_Items (fst (SuccessOKEnvelope 200 ''result list'' x, w'))). Some (res_OrgID (rl_Result r)) = Some org)"
    using ListResults_own by (fastforce simp: ResultService_List_def go_try_Inr_iff split: option.splits if_splits prod.splits)
qed

lemma logs_own:
  assumes "ListOperationLogs repo inp w = (Inr (ls, n), w')" and "l \<in> set ls"
  shows "log_OrgID l = ol_OrgID inp"
  using assms set_page_rows
  by (fastforce simp: ListOperationLogs_def go_try_Inr_iff operation_log_query_def Let_def dest!: count_and_page_Inr split: if_splits prod.splits)

lemma changes_own:
  assumes "ListFieldChangeLogs repo inp w = (Inr (ls, n), w')" and "l \<in> set ls"
  shows "fcl_OrgID l = fl_OrgID inp"
  using assms set_page_rows
  by (fastforce simp: ListFieldChangeLogs_def go_try_Inr_iff field_change_log_query_def Let_def dest!: count_and_page_Inr split: if_splits prod.splits)

text \<open>Everything a detail is made of, as the organisations of its rows.\<close>

definition detail_orgs :: "ResultDetail \<Rightarrow> uint64 list" where
  "detail_orgs d = res_OrgID (rd_Result d) # map hit_OrgID (rd_Hits d) @ map log_OrgID (rd_OperationLogs d) @ map fcl_OrgID (rd_FieldChangeLogs d)"

lemma GetDetail_own:
  assumes "GetDetail service orgID i w = (Inr d, w')" and "x \<in> set (detail_orgs d)"
  shows "x = orgID"
proof -
  obtain s where s: "service = Some s" using assms(1) by (cases service) (auto simp: GetDetail_def)
  let ?logs = "\<lambda>r. \<lparr>ol_OrgID = orgID, ol_ArticleID = res_ArticleID r, ol_TaskID = res_TaskID r, ol_OperatorName = '''',
                      ol_StartAt = None, ol_EndAt = None, ol_Page = 1, ol_PageSize = 20\<rparr>"
  let ?changes = "\<lambda>r. \<lparr>fl_OrgID = orgID, fl_ArticleID = res_ArticleID r, fl_FieldName = '''', fl_StartAt = None, fl_EndAt = None,
                         fl_Page = 1, fl_PageSize = 20\<rparr>"
  from assms(1) s have "\<exists>r w1. GetResult (rv_repo s) orgID i w = (Inr r, w1) \<and>
      (\<exists>h w2. ListHits (rv_repo s) orgID i w1 = (Inr h, w2) \<and>
      (\<exists>ol n1 w3. ListOperationLogs (rv_audit s) (?logs r) w2 = (Inr (ol, n1), w3) \<and>
      (\<exists>fl n2. ListFieldChangeLogs (rv_audit s) (?changes r) w3 = (Inr (fl, n2), w') \<and>
        d = \<lparr>rd_Result = r, rd_Hits = h, rd_OperationLogs = ol, rd_FieldChangeLogs = fl\<rparr>)))"
    by (auto simp: GetDetail_def go_try_Inr_iff split: if_splits)
  then obtain r w1 h w2 ol n1 w3 fl n2 where
      r: "GetResult (rv_repo s) orgID i w = (Inr r, w1)" and h: "ListHits (rv_repo s) orgID i w1 = (Inr h, w2)"
    and ol: "ListOperationLogs (rv_audit s) (?logs r) w2 = (Inr (ol, n1), w3)"
    and fl: "ListFieldChangeLogs (rv_audit s) (?changes r) w3 = (Inr (fl, n2), w')"
    and d: "d = \<lparr>rd_Result = r, rd_Hits = h, rd_OperationLogs = ol, rd_FieldChangeLogs = fl\<rparr>"
    by blast
  have "res_OrgID r = orgID" using r by (auto simp: GetResult_def result_at_def dest!: db_first_Inr first_row_Some split: if_splits)
  moreover have "hit_OrgID y = orgID" if "y \<in> set h" for y
    using h that by (auto simp: ListHits_def dest!: db_query_Inr split: if_splits)
  ultimately show ?thesis
    using assms(2) logs_own [OF ol] changes_own [OF fl] by (auto simp: d detail_orgs_def)
qed

lemma GetDetail_store: "store (snd (GetDetail service orgID i w)) = store w"
proof -
  have "store (snd (GetResult r a b v)) = store v" "store (snd (ListHits r a b v)) = store v" for r a b v
    by (simp_all add: GetResult_def ListHits_def db_first_def db_query_def db_stmt_def split: option.split)
  moreover have "store (snd (ListOperationLogs r inp v)) = store v" "store (snd (ListFieldChangeLogs r inp' v)) = store v" for r inp inp' v
    by (simp_all add: ListOperationLogs_def ListFieldChangeLogs_def split: prod.split)
  ultimately show ?thesis by (auto simp: GetDetail_def go_try_pure_store split: option.split prod.split)
qed

lemma result_detail_confined:
  "confined id detail_orgs (session_org cx) (result_detail_handler service cx rawID rawOrg)"
  unfolding result_detail_handler_def
proof (intro confined_bad_request confined_org confined_failure)
  show "store (snd (GetDetail service org i w)) = store w" for org i w by (rule GetDetail_store)
next
  fix i org x w w'
  assume "GetDetail service org i w = (Inr x, w')"
  from GetDetail_own [OF this] show "store (snd (SuccessOKEnvelope 200 ''result detail'' x, w')) = store w' \<and>
      (\<forall>r \<in> set (reply_items detail_orgs (fst (SuccessOKEnvelope 200 ''result detail'' x, w'))). Some (id r) = Some org)" by auto
qed

end
