(* ===== verification/Worker.thy ===== *)
theory Worker
  imports Tasks Articles
begin

text \<open>
  The worker (\<open>internal/modules/articleinspect/worker\<close>): it starts a task, decodes the rules stored
  with it, pages through the candidate articles, scans each, stores the results of an
  article in a transaction of their own, and closes the task with its counts.

  The scanner and the article repository are interfaces in the source and arguments here. A
  scan may panic, which unwinds the whole call; \<open>exec_end\<close> separates this from a returned
  error. The loop over the batches is a partial function: \<open>None\<close> would be a loop that does not end.
\<close>

section \<open>Rules and states\<close>

definition rule_fields :: "string list" where
  "rule_fields = [''id'', ''name'', ''category_name'', ''match_type'', ''risk_level'', ''suggest_action'', ''scopes'']"

definition zero_rule :: KeywordRule where
  "zero_rule = \<lparr>kr_ID = 0, kr_Name = '''', kr_Category = '''', kr_MatchType = '''', kr_RiskLevel = '''',
     kr_SuggestAction = '''', kr_Scopes = []\<rparr>"

definition put_rule_field :: "string \<Rightarrow> json \<Rightarrow> KeywordRule \<Rightarrow> KeywordRule option" where
  "put_rule_field n j r =
     (if n = ''id'' then map_option (\<lambda>v. r\<lparr>kr_ID := v\<rparr>) (decode_uint64 j (kr_ID r))
      else if n = ''name'' then map_option (\<lambda>v. r\<lparr>kr_Name := v\<rparr>) (decode_string j (kr_Name r))
      else if n = ''category_name'' then map_option (\<lambda>v. r\<lparr>kr_Category := v\<rparr>) (decode_string j (kr_Category r))
      else if n = ''match_type'' then map_option (\<lambda>v. r\<lparr>kr_MatchType := v\<rparr>) (decode_string j (kr_MatchType r))
      else if n = ''risk_level'' then map_option (\<lambda>v. r\<lparr>kr_RiskLevel := v\<rparr>) (decode_string j (kr_RiskLevel r))
      else if n = ''suggest_action'' then map_option (\<lambda>v. r\<lparr>kr_SuggestAction := v\<rparr>) (decode_string j (kr_SuggestAction r))
      else map_option (\<lambda>v. r\<lparr>kr_Scopes := v\<rparr>) (decode_slice (\<lambda>x. decode_string x '''') j))"

text \<open>
  \<open>json.Unmarshal\<close> into \<open>[]scan.KeywordRule\<close>. The legacy struct has the same tags and types, so the
  second attempt of \<open>DecodeTaskRules\<close> decodes with the same function.
\<close>

definition unmarshal_rules :: "unicode_tables \<Rightarrow> string \<Rightarrow> KeywordRule list option" where
  "unmarshal_rules ut raw =
     (case json_parse raw of
        None \<Rightarrow> None
      | Some j \<Rightarrow> decode_slice (\<lambda>x. decode_struct ut rule_fields put_rule_field x zero_rule) j)"

definition DecodeTaskRules :: "unicode_tables \<Rightarrow> string \<Rightarrow> goerr + KeywordRule list" where
  "DecodeTaskRules ut snapshot =
     (if TrimSpace snapshot = '''' then Inl (Plain ''task rule snapshot is required'')
      else
        (case unmarshal_rules ut snapshot of
           Some (r # rs) \<Rightarrow> Inr (r # rs)
         | _ \<Rightarrow>
             (case unmarshal_rules ut snapshot of
                None \<Rightarrow> Inl (JsonError snapshot)
              | Some legacy \<Rightarrow> Inr legacy)))"

definition ParseArticleStateFilter :: "string \<Rightarrow> int8" where
  "ParseArticleStateFilter s =
     (let v = TrimSpace s in
      if v = '''' then ArticleStateOnline
      else (case Atoi v of None \<Rightarrow> ArticleStateOnline | Some n \<Rightarrow> word_of_int n))"

definition ResolveTaskStatus :: "int64 \<Rightarrow> int64 \<Rightarrow> string" where
  "ResolveTaskStatus totalScanned failCount =
     (if totalScanned = 0 then TaskStatusSuccess
      else if failCount = 0 then TaskStatusSuccess
      else if failCount \<ge> totalScanned then TaskStatusFailed
      else TaskStatusPartialSuccess)"

section \<open>Results of an article\<close>

definition uniqueFieldCount :: "Hit list \<Rightarrow> int" where
  "uniqueFieldCount hits = int (length (remdups (map h_FieldName hits)))"

definition uniqueKeywordCount :: "Hit list \<Rightarrow> int" where
  "uniqueKeywordCount hits = int (length (remdups (map h_KeywordID hits)))"

definition result_row :: "uint64 \<Rightarrow> uint64 \<Rightarrow> CandidateArticle \<Rightarrow> Hit list \<Rightarrow> nat \<Rightarrow> instant \<Rightarrow> InspectionResult" where
  "result_row orgID taskID article hits i at =
     \<lparr>res_ID = i, res_OrgID = orgID, res_TaskID = taskID, res_ArticleID = ca_ID article, res_ArticleTitle = ca_Title article,
      res_ArticleState = ca_State article, res_PublishAtTime = ca_PublishAtTime article,
      res_RiskLevel = h_RiskLevel (hd hits), res_SuggestAction = h_SuggestAction (hd hits),
      res_HitFieldsCount = uniqueFieldCount hits, res_HitKeywordsCount = uniqueKeywordCount hits,
      res_HitCount = int (length hits), res_DispositionStatus = ResultDispositionPending,
      res_LatestActionID = 0, res_LatestOperatorID = 0, res_LatestOperatorName = '''', res_LatestActionAt = None,
      res_CreateAt = at, res_UpdateAt = at\<rparr>"

definition hit_row :: "uint64 \<Rightarrow> uint64 \<Rightarrow> uint64 \<Rightarrow> uint64 \<Rightarrow> Hit \<Rightarrow> nat \<Rightarrow> instant \<Rightarrow> InspectionResultHit" where
  "hit_row orgID taskID resultID articleID h i at =
     \<lparr>hit_ID = i, hit_OrgID = orgID, hit_TaskID = taskID, hit_ResultID = resultID, hit_ArticleID = articleID,
      hit_KeywordID = h_KeywordID h, hit_KeywordText = h_KeywordText h, hit_Category = h_Category h,
      hit_FieldName = h_FieldName h, hit_MatchType = h_MatchType h, hit_RiskLevel = h_RiskLevel h,
      hit_SuggestAction = h_SuggestAction h, hit_MatchedText = h_MatchedText h, hit_Snippet = h_Snippet h,
      hit_PositionStart = h_PositionStart h, hit_PositionEnd = h_PositionEnd h, hit_RuleSnapshot = '''',
      hit_CreateAt = at, hit_UpdateAt = at\<rparr>"

text \<open>The hits are not empty here; \<open>hits[0]\<close> is their head.\<close>

definition persistArticleResult ::
    "uint64 \<Rightarrow> uint64 \<Rightarrow> CandidateArticle \<Rightarrow> Hit list \<Rightarrow> world \<Rightarrow> unit res" where
  "persistArticleResult orgID taskID article hits =
     db_transaction (\<lambda>w.
       go_try (db_delete t_hits t_hits_update
                 (\<lambda>h. hit_OrgID h = orgID \<and> hit_TaskID h = taskID \<and> hit_ArticleID h = ca_ID article) w) (\<lambda>_ w.
       go_try (db_delete t_results t_results_update
                 (\<lambda>r. res_OrgID r = orgID \<and> res_TaskID r = taskID \<and> res_ArticleID r = ca_ID article) w) (\<lambda>_ w.
       go_try (db_create TResults t_results t_results_update no_unique (result_row orgID taskID article hits) w) (\<lambda>result w.
       go_try (db_create_all THits t_hits t_hits_update no_unique
                 (map (hit_row orgID taskID (res_ID result) (ca_ID article)) hits) w) (\<lambda>_ w. (Inr (), w))))))"

section \<open>Start and finish\<close>

definition worker_task_at :: "uint64 \<Rightarrow> uint64 \<Rightarrow> InspectionTask \<Rightarrow> bool" where
  "worker_task_at taskID orgID t = (task_ID t = taskID \<and> task_OrgID t = orgID)"

definition startTask :: "ArticleInspectTaskPayload \<Rightarrow> world \<Rightarrow> InspectionTask res" where
  "startTask payload w =
     (let (now, w) = time_now w in
      go_try (db_update t_tasks t_tasks_update
                (\<lambda>t. worker_task_at (pl_TaskID payload) (pl_OrgID payload) t \<and> task_Status t = TaskStatusPending)
                (\<lambda>at t. t\<lparr>task_Status := TaskStatusRunning, task_StartedAt := Some now, task_UpdateAt := at\<rparr>) w) (\<lambda>n w.
        if n = 0 then (Inl (Plain (''task '' @ nat_str (pl_TaskID payload) @ '' is not pending'')), w)
        else db_first t_tasks task_ID (worker_task_at (pl_TaskID payload) (pl_OrgID payload)) w))"

record scan_counts =
  sn_totalScanned :: int64
  sn_hitArticles :: int64
  sn_hitCount :: int64
  sn_failCount :: int64

definition no_counts :: scan_counts where
  "no_counts = \<lparr>sn_totalScanned = 0, sn_hitArticles = 0, sn_hitCount = 0, sn_failCount = 0\<rparr>"

definition finishTask :: "uint64 \<Rightarrow> uint64 \<Rightarrow> string \<Rightarrow> scan_counts \<Rightarrow> string \<Rightarrow> world \<Rightarrow> unit res" where
  "finishTask taskID orgID status c errorMessage w =
     (let (now, w) = time_now w in
      go_try (db_update t_tasks t_tasks_update (worker_task_at taskID orgID)
                (\<lambda>at t. t\<lparr>task_Status := status, task_TotalScanned := sn_totalScanned c, task_HitArticles := sn_hitArticles c,
                          task_HitCount := sn_hitCount c, task_FailCount := sn_failCount c, task_FinishedAt := Some now,
                          task_ErrorMessage := TrimSpace errorMessage, task_UpdateAt := at\<rparr>) w) (\<lambda>_ w. (Inr (), w)))"

section \<open>Execution\<close>

type_synonym scanner = "CandidateArticle \<Rightarrow> KeywordRule list \<Rightarrow> (goerr + Hit list) option"
type_synonym candidate_source = "CandidateArticleFilter \<Rightarrow> world \<Rightarrow> (CandidateArticle list \<times> uint64) res"

datatype exec_end = Returned "goerr + unit" | Panicked

text \<open>The inner loop over the articles of a batch; \<open>None\<close> is a panic of the scanner.\<close>

fun scan_batch ::
    "scanner \<Rightarrow> KeywordRule list \<Rightarrow> uint64 \<Rightarrow> uint64 \<Rightarrow> CandidateArticle list \<Rightarrow> scan_counts \<Rightarrow> world \<Rightarrow>
     scan_counts option \<times> world" where
  "scan_batch scan rules orgID taskID [] c w = (Some c, w)"
| "scan_batch scan rules orgID taskID (article # articles) c w =
     (let c1 = c\<lparr>sn_totalScanned := sn_totalScanned c + 1\<rparr> in
      case scan article rules of
        None \<Rightarrow> (None, w)
      | Some (Inl _) \<Rightarrow> scan_batch scan rules orgID taskID articles (c1\<lparr>sn_failCount := sn_failCount c1 + 1\<rparr>) w
      | Some (Inr hits) \<Rightarrow>
          if hits = [] then scan_batch scan rules orgID taskID articles c1 w
          else
            (let c2 = c1\<lparr>sn_hitArticles := sn_hitArticles c1 + 1, sn_hitCount := sn_hitCount c1 + int (length hits)\<rparr> in
             case persistArticleResult orgID taskID article hits w of
               (Inl _, w1) \<Rightarrow> scan_batch scan rules orgID taskID articles (c2\<lparr>sn_failCount := sn_failCount c2 + 1\<rparr>) w1
             | (Inr _, w1) \<Rightarrow> scan_batch scan rules orgID taskID articles c2 w1))"

definition batch_filter :: "uint64 \<Rightarrow> InspectionTask \<Rightarrow> int \<Rightarrow> uint64 \<Rightarrow> CandidateArticleFilter" where
  "batch_filter orgID task batchSize afterID =
     \<lparr>cf_OrgID = orgID, cf_ArticleState = ParseArticleStateFilter (task_ArticleStateFilter task),
      cf_PublishTimeStart = task_PublishTimeStart task, cf_PublishTimeEnd = task_PublishTimeEnd task,
      cf_ArticleID = task_ArticleID task, cf_TitleLike = task_TitleLike task, cf_AfterID = afterID, cf_Limit = batchSize\<rparr>"

text \<open>
  The outer loop. It ends with the counts (\<open>Inr\<close>), with an error of the repository (\<open>Inl (Some e)\<close>)
  or with a panic (\<open>Inl None\<close>), together with the counts so far.
\<close>

partial_function (option) scan_batches ::
    "scanner \<Rightarrow> candidate_source \<Rightarrow> KeywordRule list \<Rightarrow> uint64 \<Rightarrow> InspectionTask \<Rightarrow> int \<Rightarrow> uint64 \<Rightarrow> scan_counts \<Rightarrow> world \<Rightarrow>
     (goerr option option \<times> scan_counts \<times> world) option" where
  "scan_batches scan source rules orgID task batchSize afterID c w =
     (case source (batch_filter orgID task batchSize afterID) w of
        (Inl e, w1) \<Rightarrow> Some (Some (Some e), c, w1)
      | (Inr (items, nextCursor), w1) \<Rightarrow>
          if items = [] then Some (None, c, w1)
          else
            (case scan_batch scan rules orgID (task_ID task) items c w1 of
               (None, w2) \<Rightarrow> Some (Some None, c, w2)
             | (Some c1, w2) \<Rightarrow>
                 if int (length items) < batchSize \<or> nextCursor = 0 \<or> nextCursor = afterID then Some (None, c1, w2)
                 else scan_batches scan source rules orgID task batchSize nextCursor c1 w2))"

record Executor =
  xe_hasDB :: bool
  xe_scanner :: "scanner option"
  xe_articleRepo :: "candidate_source option"
  xe_batchSize :: int

definition keyword_scanner :: "unicode_tables \<Rightarrow> regexp_engine \<Rightarrow> KeywordScanner option \<Rightarrow> scanner" where
  "keyword_scanner ut engine sc article rules = map_option Inr (ScanArticle ut engine sc article rules)"

definition NewExecutorWithDeps :: "bool \<Rightarrow> scanner option \<Rightarrow> candidate_source option \<Rightarrow> int \<Rightarrow> Executor option" where
  "NewExecutorWithDeps hasDB scan source batchSize =
     Some \<lparr>xe_hasDB = hasDB, xe_scanner = scan, xe_articleRepo = source, xe_batchSize = batchSize\<rparr>"

definition NewWorker :: "unicode_tables \<Rightarrow> regexp_engine \<Rightarrow> bool \<Rightarrow> Executor option" where
  "NewWorker ut engine hasDB =
     NewExecutorWithDeps hasDB (Some (keyword_scanner ut engine (Some NewKeywordScanner)))
       (Some (ListCandidateArticles (Some \<lparr>ap_hasDB = hasDB\<rparr>))) 100"

text \<open>
  \<open>ExecuteTask\<close>; the texts of JSON errors are an argument. The errors of \<open>finishTask\<close> on the failure
  paths are dropped, as the source does.
\<close>

definition ExecuteTask ::
    "unicode_tables \<Rightarrow> regexp_engine \<Rightarrow> (string \<Rightarrow> string) \<Rightarrow> Executor option \<Rightarrow> ArticleInspectTaskPayload \<Rightarrow> world \<Rightarrow>
     (exec_end \<times> world) option" where
  "ExecuteTask ut engine jt executor payload w =
     (case executor of
        None \<Rightarrow> Some (Returned (Inl (Sentinel ErrInvalidTaskInput)), w)
      | Some x \<Rightarrow>
          if \<not> xe_hasDB x \<or> pl_TaskID payload = 0 \<or> pl_OrgID payload = 0
          then Some (Returned (Inl (Sentinel ErrInvalidTaskInput)), w)
          else
            (let scan = (case xe_scanner x of None \<Rightarrow> keyword_scanner ut engine (Some NewKeywordScanner) | Some s \<Rightarrow> s);
                 source = (case xe_articleRepo x of None \<Rightarrow> ListCandidateArticles (Some \<lparr>ap_hasDB = True\<rparr>) | Some s \<Rightarrow> s);
                 batchSize = (if xe_batchSize x \<le> 0 then 100 else xe_batchSize x)
             in case startTask payload w of
                  (Inl e, w1) \<Rightarrow> Some (Returned (Inl e), w1)
                | (Inr task, w1) \<Rightarrow>
                    (case DecodeTaskRules ut (task_RuleSnapshot task) of
                       Inl e \<Rightarrow>
                         Some (Returned (Inl e),
                               snd (finishTask (task_ID task) (pl_OrgID payload) TaskStatusFailed no_counts (error_text jt e) w1))
                     | Inr rules \<Rightarrow>
                         (case scan_batches scan source rules (pl_OrgID payload) task batchSize 0 no_counts w1 of
                            None \<Rightarrow> None
                          | Some (Some None, c, w2) \<Rightarrow> Some (Panicked, w2)
                          | Some (Some (Some e), c, w2) \<Rightarrow>
                              Some (Returned (Inl e),
                                    snd (finishTask (task_ID task) (pl_OrgID payload) TaskStatusFailed c (error_text jt e) w2))
                          | Some (None, c, w2) \<Rightarrow>
                              (case finishTask (task_ID task) (pl_OrgID payload)
                                      (ResolveTaskStatus (sn_totalScanned c) (sn_failCount c)) c '''' w2 of
                                 (r, w3) \<Rightarrow> Some (Returned r, w3))))))"

section \<open>Rule snapshots\<close>

definition rule_ok :: "KeywordRule \<Rightarrow> bool" where
  "rule_ok r =
     (kr_ID r < 2 ^ 64 \<and> valid_utf8 (kr_Name r) \<and> valid_utf8 (kr_Category r) \<and> valid_utf8 (kr_MatchType r) \<and>
      valid_utf8 (kr_RiskLevel r) \<and> valid_utf8 (kr_SuggestAction r) \<and> list_all valid_utf8 (kr_Scopes r))"

lemma rule_names_valid:
  "valid_utf8 ''id''" "valid_utf8 ''name''" "valid_utf8 ''category_name''" "valid_utf8 ''match_type''"
  "valid_utf8 ''risk_level''" "valid_utf8 ''suggest_action''" "valid_utf8 ''scopes''"
  by (simp_all add: valid_utf8_ascii ascii_def byte_def)

lemma wf_rule_json: "rule_ok r \<Longrightarrow> wf_json (rule_json r)"
  by (auto simp: rule_ok_def rule_json_def rule_names_valid list_all_iff wf_elems_iff)

lemma decode_rule:
  assumes "rule_ok r"
  shows "decode_struct ut rule_fields put_rule_field (rule_json r) zero_rule = Some r"
proof -
  have "decode_slice (\<lambda>x. decode_string x '''') (JArr (map JStr (kr_Scopes r))) = Some (kr_Scopes r)"
    by (simp add: decode_slice_def decode_all_map decode_string_def)
  with assms show ?thesis
    by (simp add: decode_struct_def rule_json_def match_field_def rule_fields_def put_rule_field_def
        decode_JUint rule_ok_def zero_rule_def)
qed

lemma unmarshal_rules_marshal:
  assumes "list_all rule_ok rs"
  shows "unmarshal_rules ut (marshal (rules_json rs)) = Some rs"
proof -
  have "wf_json (rules_json rs)"
    using assms wf_rule_json by (auto simp: rules_json_def wf_elems_iff list_all_iff)
  then have "json_parse (marshal (rules_json rs)) = Some (rules_json rs)" by (rule json_parse_marshal)
  moreover have "decode_all (\<lambda>x. decode_struct ut rule_fields put_rule_field x zero_rule) (map rule_json rs) = Some rs"
    using assms decode_rule by (intro decode_all_map) (auto simp: list_all_iff)
  ultimately show ?thesis by (simp add: unmarshal_rules_def rules_json_def decode_slice_def)
qed

lemma TrimSpace_array: "TrimSpace (marshal (JArr js)) \<noteq> ''''"
proof -
  have "TrimSpace (marshal (JArr js)) = marshal (JArr js)"
    by (rule TrimSpace_graphic) (simp_all add: graphic_def byte_def)
  then show ?thesis by simp
qed

lemma decode_snapshot:
  assumes "list_all rule_ok rs"
  shows "DecodeTaskRules ut (marshal (rules_json rs)) = Inr rs"
  using unmarshal_rules_marshal [OF assms] TrimSpace_array
  by (auto simp: DecodeTaskRules_def rules_json_def split: list.split)

text \<open>
  C20. The rules a task was created with reach the worker unchanged: decoding the stored rule snapshot gives back
  the rules, when their texts are valid UTF-8.
\<close>

theorem rule_snapshot_roundtrip:
  assumes "list_all rule_ok rs"
  shows "DecodeTaskRules ut (marshal (rules_json rs)) = Inr rs"
  using assms by (rule decode_snapshot)

theorem rule_snapshot_roundtrip_witness:
  "DecodeTaskRules ascii_tables (marshal (rules_json
     [\<lparr>kr_ID = 7, kr_Name = ''spam'', kr_Category = ''c'', kr_MatchType = ''contains'', kr_RiskLevel = ''high'',
       kr_SuggestAction = ''offline'', kr_Scopes = [''body'', ''title'']\<rparr>])) =
   Inr [\<lparr>kr_ID = 7, kr_Name = ''spam'', kr_Category = ''c'', kr_MatchType = ''contains'', kr_RiskLevel = ''high'',
         kr_SuggestAction = ''offline'', kr_Scopes = [''body'', ''title'']\<rparr>]"
  by (rule rule_snapshot_roundtrip) (simp add: rule_ok_def valid_utf8_ascii ascii_def byte_def)

section \<open>Starting a task\<close>

lemma startTask_Inr:
  assumes "startTask p w = (Inr t, w')"
  obtains now at where "store w' = t_tasks_update (rows_update (\<lambda>t. worker_task_at (pl_TaskID p) (pl_OrgID p) t \<and> task_Status t = TaskStatusPending)
       (\<lambda>t. t\<lparr>task_Status := TaskStatusRunning, task_StartedAt := Some now, task_UpdateAt := at\<rparr>)) (store w)"
    and "\<exists>x \<in> set (t_tasks (store w)). worker_task_at (pl_TaskID p) (pl_OrgID p) x \<and> task_Status x = TaskStatusPending"
    and "first_row task_ID (worker_task_at (pl_TaskID p) (pl_OrgID p)) (t_tasks (store w')) = Some t"
proof -
  from assms obtain n w1 where
      u: "db_update t_tasks t_tasks_update
                (\<lambda>t. worker_task_at (pl_TaskID p) (pl_OrgID p) t \<and> task_Status t = TaskStatusPending)
                (\<lambda>at t. t\<lparr>task_Status := TaskStatusRunning, task_StartedAt := Some (clock w (tick w)), task_UpdateAt := at\<rparr>) (advance w) = (Inr n, w1)"
    and n: "n \<noteq> 0" and f: "db_first t_tasks task_ID (worker_task_at (pl_TaskID p) (pl_OrgID p)) w1 = (Inr t, w')"
    by (auto simp: startTask_def time_now_def go_try_Inr_iff split: if_splits)
  note u' = db_update_Inr [OF u] and f' = db_first_Inr [OF f]
  from n u' have "\<exists>x \<in> set (t_tasks (store w)). worker_task_at (pl_TaskID p) (pl_OrgID p) x \<and> task_Status x = TaskStatusPending"
    by (auto simp: filter_empty_conv)
  with u' f' that show thesis by auto
qed

lemma startTask_refused:
  assumes "\<And>t. t \<in> set (t_tasks (store w)) \<Longrightarrow> worker_task_at (pl_TaskID p) (pl_OrgID p) t \<Longrightarrow> task_Status t \<noteq> TaskStatusPending"
  shows "\<exists>e w'. startTask p w = (Inl e, w') \<and> t_tasks (store w') = t_tasks (store w)"
proof -
  let ?P = "\<lambda>t. worker_task_at (pl_TaskID p) (pl_OrgID p) t \<and> task_Status t = TaskStatusPending"
  let ?f = "\<lambda>at t. t\<lparr>task_Status := TaskStatusRunning, task_StartedAt := Some (clock w (tick w)), task_UpdateAt := at\<rparr>"
  have none: "filter ?P (t_tasks (store w)) = []" using assms by (auto simp: filter_empty_conv)
  have same: "rows_update ?P g (t_tasks (store w)) = t_tasks (store w)" for g
    using assms by (auto simp: rows_update_def intro!: map_idI)
  obtain q w1 where u: "db_update t_tasks t_tasks_update ?P ?f (advance w) = (q, w1)" by fastforce
  then show ?thesis
    using none same
    by (cases q) (auto simp: startTask_def time_now_def dest: db_update_Inl db_update_Inr)
qed

lemma started_pending:
  "startTask p w = (Inr t, w') \<Longrightarrow>
     \<exists>x \<in> set (t_tasks (store w)). worker_task_at (pl_TaskID p) (pl_OrgID p) x \<and> task_Status x = TaskStatusPending"
  by (erule startTask_Inr)

lemma started_refused:
  assumes "startTask p w = (Inr t, w')" and "t_tasks (store v) = t_tasks (store w')"
  shows "\<exists>e v'. startTask p v = (Inl e, v') \<and> t_tasks (store v') = t_tasks (store v)"
  by (rule startTask_refused) (use assms in \<open>auto elim!: startTask_Inr simp: rows_update_def worker_task_at_def\<close>)

lemma started_running:
  assumes "distinct (map task_ID (t_tasks (store w)))" and "startTask p w = (Inr t, w')"
  shows "task_Status t = TaskStatusRunning" and "distinct (map task_ID (t_tasks (store w')))"
    and "t \<in> set (t_tasks (store w'))" and "task_ID t = pl_TaskID p" and "task_OrgID t = pl_OrgID p"
proof -
  from assms(2) obtain now at where
      st: "store w' = t_tasks_update (rows_update (\<lambda>t. worker_task_at (pl_TaskID p) (pl_OrgID p) t \<and> task_Status t = TaskStatusPending)
       (\<lambda>t. t\<lparr>task_Status := TaskStatusRunning, task_StartedAt := Some now, task_UpdateAt := at\<rparr>)) (store w)"
    and ex: "\<exists>x \<in> set (t_tasks (store w)). worker_task_at (pl_TaskID p) (pl_OrgID p) x \<and> task_Status x = TaskStatusPending"
    and fr: "first_row task_ID (worker_task_at (pl_TaskID p) (pl_OrgID p)) (t_tasks (store w')) = Some t"
    by (rule startTask_Inr)
  note t = first_row_Some [OF fr]
  then show m: "t \<in> set (t_tasks (store w'))" "task_ID t = pl_TaskID p" "task_OrgID t = pl_OrgID p"
    by (auto simp: worker_task_at_def)
  have "map task_ID (rows_update (\<lambda>t. worker_task_at (pl_TaskID p) (pl_OrgID p) t \<and> task_Status t = TaskStatusPending)
       (\<lambda>t. t\<lparr>task_Status := TaskStatusRunning, task_StartedAt := Some now, task_UpdateAt := at\<rparr>) xs) = map task_ID xs" for xs
    by (simp add: rows_update_def)
  with assms(1) st show d: "distinct (map task_ID (t_tasks (store w')))" by simp
  from ex obtain x where x: "x \<in> set (t_tasks (store w))" "worker_task_at (pl_TaskID p) (pl_OrgID p) x" "task_Status x = TaskStatusPending" by blast
  then have "x\<lparr>task_Status := TaskStatusRunning, task_StartedAt := Some now, task_UpdateAt := at\<rparr> \<in> set (t_tasks (store w'))"
    unfolding st by (force simp: rows_update_def)
  moreover have "task_ID t = task_ID (x\<lparr>task_Status := TaskStatusRunning, task_StartedAt := Some now, task_UpdateAt := at\<rparr>)"
    using m x(2) by (simp add: worker_task_at_def)
  ultimately have "t = x\<lparr>task_Status := TaskStatusRunning, task_StartedAt := Some now, task_UpdateAt := at\<rparr>"
    using d m(1) by (metis distinct_map inj_onD)
  then show "task_Status t = TaskStatusRunning" by simp
qed

text \<open>
  A task is started at most once: a start succeeds only on a pending task and leaves it running, and every later
  start of the same task is refused without touching the task table, as long as nothing sets the task back to pending.
\<close>

theorem task_starts_once:
  assumes "distinct (map task_ID (t_tasks (store w)))" and "startTask p w = (Inr t, w')"
    and "t_tasks (store v) = t_tasks (store w')"
  shows "task_Status t = TaskStatusRunning \<and>
         list_ex (\<lambda>x. worker_task_at (pl_TaskID p) (pl_OrgID p) x \<and> task_Status x = TaskStatusPending) (t_tasks (store w)) \<and>
         (\<exists>e v'. startTask p v = (Inl e, v') \<and> t_tasks (store v') = t_tasks (store v))"
  using started_running [OF assms(1,2)] started_pending [OF assms(2)] started_refused [OF assms(2,3)]
  by (auto simp: list_ex_iff)

definition ex_task_row :: InspectionTask where
  "ex_task_row = \<lparr>task_ID = 3, task_OrgID = 100, task_TaskNo = ''inspect-1'', task_Status = ''pending'', task_ArticleStateFilter = ''9'',
     task_PublishTimeStart = None, task_PublishTimeEnd = None, task_ArticleID = 0, task_TitleLike = '''', task_IncludeBody = True,
     task_ScopeOverrideMode = '''', task_ScopeSnapshot = '''', task_RequestSnapshot = ''{}'',
     task_RuleSnapshot = marshal (rules_json [ex_rule]), task_TotalScanned = 0, task_HitArticles = 0, task_HitCount = 0,
     task_SkipCount = 0, task_FailCount = 0, task_BatchCount = 0, task_StartedAt = None, task_FinishedAt = None,
     task_DurationMS = 0, task_ErrorMessage = '''', task_CreatorID = 7, task_CreatorName = '''', task_CreateAt = 0, task_UpdateAt = 0\<rparr>"

definition ex_run_payload :: ArticleInspectTaskPayload where
  "ex_run_payload = \<lparr>pl_TaskID = 3, pl_OrgID = 100, pl_TriggerSource = ''api'', pl_OperatorID = 7, pl_OperatorName = ''''\<rparr>"

definition ex_source_article :: Article where
  "ex_source_article = \<lparr>art_ID = 10, art_OrgID = 100, art_Title = ''spam offer'', art_ShortTitle = None, art_RichTitle = '''',
     art_Keyword = '''', art_Desc = '''', art_Thumbnail = '''', art_State = 9, art_PublishAtUnix = 0, art_UpdateAtUnix = 0\<rparr>"

definition ex_worker_world :: world where
  "ex_worker_world = calm_world (empty_db\<lparr>t_tasks := [ex_task_row], t_articles := [ex_source_article]\<rparr>)"

lemma ex_worker_simps [simp]:
  "no_faults ex_worker_world" "t_tasks (store ex_worker_world) = [ex_task_row]"
  "t_articles (store ex_worker_world) = [ex_source_article]" "t_results (store ex_worker_world) = []"
  "t_infos (store ex_worker_world) = []"
  by (simp_all add: ex_worker_world_def)

lemma ex_start_runs: "\<exists>t w'. startTask ex_run_payload ex_worker_world = (Inr t, w')"
  by (simp add: startTask_def time_now_def stmt_simps ex_run_payload_def ex_task_row_def worker_task_at_def rows_update_def
      first_row_def)

theorem task_starts_once_witness:
  "\<exists>t w' e v'. startTask ex_run_payload ex_worker_world = (Inr t, w') \<and> startTask ex_run_payload w' = (Inl e, v')"
proof -
  obtain t w' where "startTask ex_run_payload ex_worker_world = (Inr t, w')" using ex_start_runs by blast
  moreover from task_starts_once [OF _ this refl] obtain e v' where "startTask ex_run_payload w' = (Inl e, v')" by auto
  ultimately show ?thesis by blast
qed

section \<open>Storing the result of an article\<close>

definition own_hits :: "uint64 \<Rightarrow> uint64 \<Rightarrow> uint64 \<Rightarrow> InspectionResultHit \<Rightarrow> bool" where
  "own_hits orgID taskID articleID h = (hit_OrgID h = orgID \<and> hit_TaskID h = taskID \<and> hit_ArticleID h = articleID)"

definition own_results :: "uint64 \<Rightarrow> uint64 \<Rightarrow> uint64 \<Rightarrow> InspectionResult \<Rightarrow> bool" where
  "own_results orgID taskID articleID r = (res_OrgID r = orgID \<and> res_TaskID r = taskID \<and> res_ArticleID r = articleID)"

text \<open>The rows a stored hit list consists of, without their ids and timestamps.\<close>

definition hit_content :: "InspectionResultHit \<Rightarrow> InspectionResultHit" where
  "hit_content h = h\<lparr>hit_ID := 0, hit_CreateAt := 0, hit_UpdateAt := 0\<rparr>"

lemma store_result_Inr:
  assumes "persistArticleResult orgID taskID article hits w = (Inr (), w')"
  shows "\<exists>row hs i at. store w' = t_hits_update (\<lambda>old. old @ hs) (t_results_update (\<lambda>old. old @ [row])
           (t_results_update (filter (\<lambda>r. \<not> own_results orgID taskID (ca_ID article) r))
             (t_hits_update (filter (\<lambda>h. \<not> own_hits orgID taskID (ca_ID article) h)) (store w)))) \<and>
           row = result_row orgID taskID article hits i at \<and>
           map hit_content hs = map (\<lambda>h. hit_content (hit_row orgID taskID (res_ID row) (ca_ID article) h 0 0)) hits"
proof -
  from assms obtain v where st: "store w' = store v" and
    body: "go_try (db_delete t_hits t_hits_update
                 (\<lambda>h. hit_OrgID h = orgID \<and> hit_TaskID h = taskID \<and> hit_ArticleID h = ca_ID article) (advance w)) (\<lambda>_ w.
       go_try (db_delete t_results t_results_update
                 (\<lambda>r. res_OrgID r = orgID \<and> res_TaskID r = taskID \<and> res_ArticleID r = ca_ID article) w) (\<lambda>_ w.
       go_try (db_create TResults t_results t_results_update no_unique (result_row orgID taskID article hits) w) (\<lambda>result w.
       go_try (db_create_all THits t_hits t_hits_update no_unique
                 (map (hit_row orgID taskID (res_ID result) (ca_ID article)) hits) w) (\<lambda>_ w. (Inr (), w))))) = (Inr (), v)"
    unfolding persistArticleResult_def by (rule transaction_Inr)
  from body obtain n1 w1 n2 w2 row w3 hs where
      d1: "db_delete t_hits t_hits_update (\<lambda>h. hit_OrgID h = orgID \<and> hit_TaskID h = taskID \<and> hit_ArticleID h = ca_ID article) (advance w) = (Inr n1, w1)"
    and d2: "db_delete t_results t_results_update (\<lambda>r. res_OrgID r = orgID \<and> res_TaskID r = taskID \<and> res_ArticleID r = ca_ID article) w1 = (Inr n2, w2)"
    and c1: "db_create TResults t_results t_results_update no_unique (result_row orgID taskID article hits) w2 = (Inr row, w3)"
    and c2: "db_create_all THits t_hits t_hits_update no_unique (map (hit_row orgID taskID (res_ID row) (ca_ID article)) hits) w3 = (Inr hs, v)"
    by (auto simp: go_try_Inr_iff)
  note hs = db_create_all_Inr [OF c2]
  have "map hit_content hs = map (\<lambda>h. hit_content (hit_row orgID taskID (res_ID row) (ca_ID article) h 0 0)) hits"
    using hs by (auto simp: hit_content_def hit_row_def intro!: nth_equalityI)
  moreover have "rows_delete (\<lambda>h. hit_OrgID h = orgID \<and> hit_TaskID h = taskID \<and> hit_ArticleID h = ca_ID article) =
      filter (\<lambda>h. \<not> own_hits orgID taskID (ca_ID article) h)"
    "rows_delete (\<lambda>r. res_OrgID r = orgID \<and> res_TaskID r = taskID \<and> res_ArticleID r = ca_ID article) =
      filter (\<lambda>r. \<not> own_results orgID taskID (ca_ID article) r)"
    by (simp_all add: fun_eq_iff rows_delete_def own_results_def own_hits_def)
  then have "store w' = t_hits_update (\<lambda>old. old @ hs) (t_results_update (\<lambda>old. old @ [row])
           (t_results_update (filter (\<lambda>r. \<not> own_results orgID taskID (ca_ID article) r))
             (t_hits_update (filter (\<lambda>h. \<not> own_hits orgID taskID (ca_ID article) h)) (store w))))"
    using conjunct1 [OF db_delete_Inr [OF d1]] conjunct1 [OF db_delete_Inr [OF d2]] conjunct1 [OF db_create_Inr [OF c1]]
      conjunct1 [OF hs] st by simp
  moreover note conjunct2 [OF db_create_Inr [OF c1]]
  ultimately show ?thesis by blast
qed

text \<open>
  Storing the result of an article is all or nothing and overwrites: an error leaves every table as it was; otherwise
  whatever the task had stored for this article is replaced by one pending result, whose counters describe the hits,
  and one row per hit, in order, that refers to this result. No other row and no other table changes, so storing the same
  article again does not add up.
\<close>

theorem persist_replaces:
  "case persistArticleResult orgID taskID article hits w of
     (Inl e, w') \<Rightarrow> store w' = store w
   | (Inr _, w') \<Rightarrow>
       (\<exists>row hs. t_results (store w') = filter (\<lambda>r. \<not> own_results orgID taskID (ca_ID article) r) (t_results (store w)) @ [row] \<and>
          t_hits (store w') = filter (\<lambda>h. \<not> own_hits orgID taskID (ca_ID article) h) (t_hits (store w)) @ hs \<and>
          own_results orgID taskID (ca_ID article) row \<and> res_DispositionStatus row = ResultDispositionPending \<and>
          res_HitCount row = int (length hits) \<and> res_HitFieldsCount row = int (card (set (map h_FieldName hits))) \<and>
          res_HitKeywordsCount row = int (card (set (map h_KeywordID hits))) \<and>
          map hit_content hs = map (\<lambda>h. hit_content (hit_row orgID taskID (res_ID row) (ca_ID article) h 0 0)) hits \<and>
          (store w')\<lparr>t_results := [], t_hits := []\<rparr> = (store w)\<lparr>t_results := [], t_hits := []\<rparr>)"
proof -
  obtain q w' where q: "persistArticleResult orgID taskID article hits w = (q, w')" by fastforce
  show ?thesis
  proof (cases q)
    case (Inl e)
    with q show ?thesis by (simp add: persistArticleResult_def transaction_Inl)
  next
    case (Inr u)
    with q obtain row hs i at where
        st: "store w' = t_hits_update (\<lambda>old. old @ hs) (t_results_update (\<lambda>old. old @ [row])
           (t_results_update (filter (\<lambda>r. \<not> own_results orgID taskID (ca_ID article) r))
             (t_hits_update (filter (\<lambda>h. \<not> own_hits orgID taskID (ca_ID article) h)) (store w))))"
      and row: "row = result_row orgID taskID article hits i at"
      and hs: "map hit_content hs = map (\<lambda>h. hit_content (hit_row orgID taskID (res_ID row) (ca_ID article) h 0 0)) hits"
      using store_result_Inr by fastforce
    have "own_results orgID taskID (ca_ID article) row" "res_DispositionStatus row = ResultDispositionPending"
      "res_HitCount row = int (length hits)" "res_HitFieldsCount row = int (card (set (map h_FieldName hits)))"
      "res_HitKeywordsCount row = int (card (set (map h_KeywordID hits)))"
      by (simp_all add: row result_row_def own_results_def uniqueFieldCount_def uniqueKeywordCount_def length_remdups_card_conv)
    with q Inr st hs show ?thesis by auto
  qed
qed

section \<open>Scanning\<close>

lemma store_result_keeps [frame]:
  "(\<And>f d. g (t_hits_update f d) = g d) \<Longrightarrow> (\<And>f d. g (t_results_update f d) = g d) \<Longrightarrow> keeps g (persistArticleResult orgID taskID article hits)"
  unfolding persistArticleResult_def by (intro frame)

lemma store_result_steady [frame]: "steady (persistArticleResult orgID taskID article hits)"
  unfolding persistArticleResult_def by (intro frame)

lemma scan_batch_keeps [frame]:
  assumes "\<And>f d. g (t_hits_update f d) = g d" and "\<And>f d. g (t_results_update f d) = g d"
  shows "keeps g (scan_batch scan rules orgID taskID articles c)"
proof (induction articles arbitrary: c)
  case Nil
  show ?case by (simp add: keeps_def)
next
  case (Cons article articles)
  note p = store_result_keeps [of g, OF assms]
  show ?case
  proof (rule keepsI)
    fix w
    show "g (store (snd (scan_batch scan rules orgID taskID (article # articles) c w))) = g (store w)"
      using Cons by (auto simp: keeps_def Let_def dest!: keepsD [OF p] split: option.split sum.split prod.split)
  qed
qed

lemma scan_batch_steady [frame]: "steady (scan_batch scan rules orgID taskID articles c)"
proof (induction articles arbitrary: c)
  case Nil
  show ?case by (simp add: steady_def)
next
  case (Cons article articles)
  show ?case unfolding steady_def
  proof
    fix w
    show "same_env w (snd (scan_batch scan rules orgID taskID (article # articles) c w))"
      using Cons
      by (auto simp: steady_def Let_def dest!: steadyD [OF store_result_steady] intro: same_env_trans
          split: option.split sum.split prod.split)
  qed
qed

text \<open>
  The interface \<open>CandidateRepository\<close>: reading a page changes nothing; a page is the next slice of the candidates behind the
  cursor and comes with the id of its last article as the next cursor.
\<close>

locale candidate_repository =
  fixes source :: candidate_source
  assumes source_frame: "store (snd (source f w)) = store w \<and> same_env w (snd (source f w))"
    and source_page: "source f w = (Inr (items, next), w') \<Longrightarrow>
          items = take (nat (candidate_limit (cf_Limit f))) (filter (behind (cf_AfterID f)) (all_candidates (sql_like w) f (store w))) \<and>
          next = (if items = [] then 0 else ca_ID (last items))"
    and source_ok: "no_faults w \<Longrightarrow> cf_OrgID f \<noteq> 0 \<Longrightarrow> \<exists>x. fst (source f w) = Inr x"
begin

lemma next_cursor:
  assumes "source f w = (Inr (items, next), w')" and "items \<noteq> []"
  shows "next \<in> set (map art_ID (t_articles (store w)))" and "cf_AfterID f = 0 \<or> next > cf_AfterID f"
proof -
  note p = source_page [OF assms(1)]
  have "last items \<in> set (filter (behind (cf_AfterID f)) (all_candidates (sql_like w) f (store w)))"
    using p last_in_set [OF assms(2)] by (metis in_set_takeD)
  then have "last items \<in> set (all_candidates (sql_like w) f (store w))" "behind (cf_AfterID f) (last items)" by auto
  with p assms(2) all_candidates_ids(3) [of "sql_like w" f "store w"]
  show "next \<in> set (map art_ID (t_articles (store w)))" and "cf_AfterID f = 0 \<or> next > cf_AfterID f"
    by (auto simp: behind_def)
qed

text \<open>The loop ends, whatever fails and whatever the batch size is: the cursor moves up through the ids of the article table.\<close>

lemma scan_batches_terminates:
  "\<exists>r. scan_batches scan source rules orgID task batchSize a c w = Some r"
proof (induction "card {i \<in> set (map art_ID (t_articles (store w))). i > a}" arbitrary: a c w rule: less_induct)
  case less
  obtain q w1 where src: "source (batch_filter orgID task batchSize a) w = (q, w1)" by fastforce
  show ?case
  proof (cases q)
    case (Inl e)
    with src show ?thesis by (subst scan_batches.simps) simp
  next
    case (Inr page)
    obtain items nx where page: "page = (items, nx)" by fastforce
    obtain oc w2 where sb: "scan_batch scan rules orgID (task_ID task) items c w1 = (oc, w2)" by fastforce
    show ?thesis
    proof (cases "items = [] \<or> oc = None \<or> int (length items) < batchSize \<or> nx = 0 \<or> nx = a")
      case True
      with src Inr page sb show ?thesis by (subst scan_batches.simps) (auto split: option.split)
    next
      case False
      then obtain c1 where oc: "oc = Some c1" by auto
      have "store w1 = store w" using source_frame [of "batch_filter orgID task batchSize a" w] src by simp
      moreover have "t_articles (store w2) = t_articles (store w1)"
        by (rule keepsD [OF scan_batch_keeps sb]) simp_all
      ultimately have arts: "t_articles (store w2) = t_articles (store w)" by simp
      note nx = next_cursor [OF src [unfolded Inr page]]
      have "nx > a" using nx(2) False by (auto simp: batch_filter_def)
      moreover have "nx \<in> set (map art_ID (t_articles (store w)))" using nx(1) False by simp
      ultimately have "{i \<in> set (map art_ID (t_articles (store w2))). i > nx} \<subset> {i \<in> set (map art_ID (t_articles (store w))). i > a}"
        unfolding arts by auto
      then have "card {i \<in> set (map art_ID (t_articles (store w2))). i > nx} < card {i \<in> set (map art_ID (t_articles (store w))). i > a}"
        by (intro psubset_card_mono) auto
      from less [OF this] obtain r where "scan_batches scan source rules orgID task batchSize nx c1 w2 = Some r" by blast
      with src Inr page sb oc False show ?thesis by (subst scan_batches.simps) (cases r, auto)
    qed
  qed
qed

end

interpretation article_repository: candidate_repository "ListCandidateArticles (Some \<lparr>ap_hasDB = True\<rparr>)"
proof
  fix f w items nx w'
  show "store (snd (ListCandidateArticles (Some \<lparr>ap_hasDB = True\<rparr>) f w)) = store w \<and>
      same_env w (snd (ListCandidateArticles (Some \<lparr>ap_hasDB = True\<rparr>) f w))"
    by (simp add: ListCandidateArticles_frame)
  show "items = take (nat (candidate_limit (cf_Limit f))) (filter (behind (cf_AfterID f)) (all_candidates (sql_like w) f (store w))) \<and>
      nx = (if items = [] then 0 else ca_ID (last items))"
    if "ListCandidateArticles (Some \<lparr>ap_hasDB = True\<rparr>) f w = (Inr (items, nx), w')"
    using ListCandidateArticles_Inr [OF that] by simp
  show "\<exists>x. fst (ListCandidateArticles (Some \<lparr>ap_hasDB = True\<rparr>) f w) = Inr x" if "no_faults w" "cf_OrgID f \<noteq> 0"
    using that by (intro ListCandidateArticles_ok) (simp_all add: article_ready_def)
qed

text \<open>
  C8. The worker always comes to an end: with the article repository of the application, any scanner, any batch size and any
  failures of the database, executing a task returns or panics, it does not loop.
\<close>

theorem execution_terminates:
  "\<exists>r. ExecuteTask ut engine jt
     (NewExecutorWithDeps hasDB scanner (Some (ListCandidateArticles (Some \<lparr>ap_hasDB = True\<rparr>))) batchSize) payload w = Some r"
proof -
  have "\<exists>r. scan_batches sc (ListCandidateArticles (Some \<lparr>ap_hasDB = True\<rparr>)) rules orgID task b 0 no_counts v = Some r"
    for sc rules orgID task b v by (rule article_repository.scan_batches_terminates)
  then show ?thesis
    by (auto simp: ExecuteTask_def NewExecutorWithDeps_def Let_def split: prod.split sum.split option.split) (metis option.distinct(1))+
qed

subsection \<open>Every candidate is scanned once\<close>

text \<open>The counters after one article when its result can be stored, and the articles that have hits.\<close>

definition count_article :: "scanner \<Rightarrow> KeywordRule list \<Rightarrow> CandidateArticle \<Rightarrow> scan_counts \<Rightarrow> scan_counts" where
  "count_article scan rules article c =
     (let c1 = c\<lparr>sn_totalScanned := sn_totalScanned c + 1\<rparr> in
      case scan article rules of
        None \<Rightarrow> c1
      | Some (Inl _) \<Rightarrow> c1\<lparr>sn_failCount := sn_failCount c1 + 1\<rparr>
      | Some (Inr hits) \<Rightarrow>
          if hits = [] then c1
          else c1\<lparr>sn_hitArticles := sn_hitArticles c1 + 1, sn_hitCount := sn_hitCount c1 + int (length hits)\<rparr>)"

definition hits_of :: "scanner \<Rightarrow> KeywordRule list \<Rightarrow> CandidateArticle \<Rightarrow> Hit list" where
  "hits_of scan rules article = (case scan article rules of Some (Inr hits) \<Rightarrow> hits | _ \<Rightarrow> [])"

definition scan_failed :: "scanner \<Rightarrow> KeywordRule list \<Rightarrow> CandidateArticle \<Rightarrow> bool" where
  "scan_failed scan rules article = (case scan article rules of Some (Inl _) \<Rightarrow> True | _ \<Rightarrow> False)"

lemma fold_count:
  "fold (count_article scan rules) xs c =
     \<lparr>sn_totalScanned = sn_totalScanned c + int (length xs),
      sn_hitArticles = sn_hitArticles c + int (length (filter (\<lambda>a. hits_of scan rules a \<noteq> []) xs)),
      sn_hitCount = sn_hitCount c + int (length (concat (map (hits_of scan rules) xs))),
      sn_failCount = sn_failCount c + int (length (filter (scan_failed scan rules) xs))\<rparr>"
  by (induction xs arbitrary: c)
     (auto simp: count_article_def hits_of_def scan_failed_def Let_def split: option.split sum.split)

text \<open>The articles the task has stored a result for, in the order of the table.\<close>

definition stored_articles :: "uint64 \<Rightarrow> uint64 \<Rightarrow> db \<Rightarrow> uint64 list" where
  "stored_articles orgID taskID d = map res_ArticleID (filter (\<lambda>r. res_OrgID r = orgID \<and> res_TaskID r = taskID) (t_results d))"

lemma store_result_ok:
  assumes "no_faults w" and "ca_ID article \<notin> set (stored_articles orgID taskID (store w))"
  shows "\<exists>w'. persistArticleResult orgID taskID article hits w = (Inr (), w') \<and>
           stored_articles orgID taskID (store w') = stored_articles orgID taskID (store w) @ [ca_ID article]"
proof -
  obtain w' where run: "persistArticleResult orgID taskID article hits w = (Inr (), w')"
    using assms(1)
    by (auto simp: persistArticleResult_def db_transaction_def db_stmt_ok stmt_simps db_create_def db_create_all_def Let_def
        no_unique_def list_ex_iff)
  from store_result_Inr [OF run] obtain row hs i at where
      st: "store w' = t_hits_update (\<lambda>old. old @ hs) (t_results_update (\<lambda>old. old @ [row])
           (t_results_update (filter (\<lambda>r. \<not> own_results orgID taskID (ca_ID article) r))
             (t_hits_update (filter (\<lambda>h. \<not> own_hits orgID taskID (ca_ID article) h)) (store w))))"
    and row: "row = result_row orgID taskID article hits i at" by blast
  have none: "filter (\<lambda>r. \<not> own_results orgID taskID (ca_ID article) r) (t_results (store w)) = t_results (store w)"
  proof (rule filter_True, rule ballI)
    fix r
    assume "r \<in> set (t_results (store w))"
    then show "\<not> own_results orgID taskID (ca_ID article) r"
      using assms(2) by (force simp: stored_articles_def own_results_def)
  qed
  show ?thesis
    using run by (auto simp: stored_articles_def st none row result_row_def)
qed

lemma scan_batch_ok:
  assumes "no_faults w" and "distinct (map ca_ID arts)"
    and "set (map ca_ID arts) \<inter> set (stored_articles orgID taskID (store w)) = {}"
    and "\<And>a. a \<in> set arts \<Longrightarrow> scan a rules \<noteq> None"
  shows "\<exists>w'. scan_batch scan rules orgID taskID arts c w = (Some (fold (count_article scan rules) arts c), w') \<and>
           stored_articles orgID taskID (store w') = stored_articles orgID taskID (store w) @
             map ca_ID (filter (\<lambda>a. hits_of scan rules a \<noteq> []) arts)"
  using assms
proof (induction arts arbitrary: c w)
  case (Cons a arts)
  from Cons.prems(4) obtain q where q: "scan a rules = Some q" by fastforce
  have rest: "distinct (map ca_ID arts)" "\<And>x. x \<in> set arts \<Longrightarrow> scan x rules \<noteq> None"
    "set (map ca_ID arts) \<inter> set (stored_articles orgID taskID (store w)) = {}" using Cons.prems by auto
  show ?case
  proof (cases "hits_of scan rules a = []")
    case True
    from Cons.IH [OF Cons.prems(1) rest(1,3,2), of "count_article scan rules a c"] True q show ?thesis
      by (auto simp: hits_of_def count_article_def Let_def split: sum.splits)
  next
    case False
    then have h: "scan a rules = Some (Inr (hits_of scan rules a))" using q by (auto simp: hits_of_def split: sum.splits)
    have "ca_ID a \<notin> set (stored_articles orgID taskID (store w))" using Cons.prems(3) by auto
    from store_result_ok [OF Cons.prems(1) this, of "hits_of scan rules a"] obtain w1 where
        p: "persistArticleResult orgID taskID a (hits_of scan rules a) w = (Inr (), w1)"
      and sa: "stored_articles orgID taskID (store w1) = stored_articles orgID taskID (store w) @ [ca_ID a]" by blast
    have nf: "no_faults w1" using same_env_no_faults [OF steadyD [OF store_result_steady p]] Cons.prems(1) by simp
    have "set (map ca_ID arts) \<inter> set (stored_articles orgID taskID (store w1)) = {}"
      using rest(3) Cons.prems(2) by (auto simp: sa)
    from Cons.IH [OF nf rest(1) this rest(2), of "count_article scan rules a c"] False h p show ?thesis
      by (auto simp: sa count_article_def Let_def)
  qed
qed simp

lemma batch_candidates: "all_candidates like (batch_filter orgID task b a) d = all_candidates like (batch_filter orgID task b' 0) d"
  by (simp add: all_candidates_def candidate_match_def [abs_def] batch_filter_def)

lemma sorted_filter_behind:
  assumes "sorted (map ca_ID C)" and "distinct (map ca_ID C)" and "n \<le> length R" and "0 < n" and "R = filter (behind a) C"
    and "ca_ID (R ! (n - 1)) \<noteq> 0"
  shows "filter (behind (ca_ID (R ! (n - 1)))) C = drop n R"
proof -
  let ?k = "ca_ID (R ! (n - 1))"
  have sR: "sorted (map ca_ID R)" "distinct (map ca_ID R)"
    using assms(1,2,5) by (auto simp: sorted_filter distinct_map_filterI)
  have split: "R = take n R @ drop n R" by simp
  have k: "?k = map ca_ID R ! (n - 1)" using assms(3,4) by simp
  have lo: "ca_ID x \<le> ?k" if "x \<in> set (take n R)" for x
  proof -
    from that obtain j where "j < n" "j < length R" "x = R ! j" by (auto simp: in_set_conv_nth)
    then show ?thesis using sR(1) assms(3,4) by (auto simp: sorted_iff_nth_mono intro!: sorted_nth_mono [of "map ca_ID R", simplified])
  qed
  have hi: "ca_ID x > ?k" if "x \<in> set (drop n R)" for x
  proof -
    from that obtain j where "j < length (drop n R)" "drop n R ! j = x" unfolding in_set_conv_nth by blast
    then have j: "n + j < length R" "x = R ! (n + j)" using assms(3) by auto
    then have "map ca_ID R ! (n - 1) \<le> map ca_ID R ! (n + j)" using sR(1) assms(3,4) by (intro sorted_nth_mono) auto
    moreover have "map ca_ID R ! (n - 1) \<noteq> map ca_ID R ! (n + j)"
      using sR(2) j assms(3,4) by (subst nth_eq_iff_index_eq) auto
    ultimately show ?thesis using j assms(3,4) by simp
  qed
  have "a \<le> ?k"
  proof -
    have "R ! (n - 1) \<in> set R" using assms(3,4) by simp
    then show ?thesis using assms(5) by (auto simp: behind_def)
  qed
  then have "filter (behind ?k) C = filter (behind ?k) (filter (behind a) C)"
    using assms(6) by (auto simp: behind_def intro!: filter_cong)
  also have "\<dots> = filter (behind ?k) (take n R) @ filter (behind ?k) (drop n R)"
    using assms(5) split by (metis filter_append)
  also have "filter (behind ?k) (take n R) = []" using assms(6) by (auto simp: behind_def filter_empty_conv dest!: lo)
  also have "filter (behind ?k) (drop n R) = drop n R" using hi by (auto simp: behind_def)
  finally show ?thesis by simp
qed

lemma fold_append_halves: "fold f (drop n xs) (fold f (take n xs) s) = fold f xs s"
  using fold_append [of f "take n xs" "drop n xs"] by (simp add: fun_eq_iff)

lemma candidates_kept:
  assumes "t_articles (store w') = t_articles (store w)" and "t_infos (store w') = t_infos (store w)" and "same_env w w'"
  shows "all_candidates (sql_like w') f (store w') = all_candidates (sql_like w) f (store w)"
  using assms by (simp add: all_candidates_def same_env_def)

text \<open>
  What the loop needs of a world: the database answers, article ids are positive and distinct, the candidates are \<open>C\<close>, and
  those behind the cursor have no result yet.
\<close>

definition scan_state :: "uint64 \<Rightarrow> InspectionTask \<Rightarrow> int \<Rightarrow> CandidateArticle list \<Rightarrow> uint64 \<Rightarrow> world \<Rightarrow> bool" where
  "scan_state orgID task b C a w =
     (no_faults w \<and> distinct (map art_ID (t_articles (store w))) \<and> 0 \<notin> set (map art_ID (t_articles (store w))) \<and>
      C = all_candidates (sql_like w) (batch_filter orgID task b 0) (store w) \<and>
      set (map ca_ID (filter (behind a) C)) \<inter> set (stored_articles orgID (task_ID task) (store w)) = {})"

context candidate_repository
begin

text \<open>A page in the middle of the loop, with the state it leaves.\<close>

lemma scan_page_ok:
  assumes "scan_state orgID task b C a w" and "orgID \<noteq> 0" and "0 < b" and "b \<le> 200"
    and "\<And>x. x \<in> set C \<Longrightarrow> scan x rules \<noteq> None" and "R = filter (behind a) C" and "R \<noteq> []"
  obtains w1 w2 where "source (batch_filter orgID task b a) w = (Inr (take (nat b) R, ca_ID (last (take (nat b) R))), w1)"
    and "scan_batch scan rules orgID (task_ID task) (take (nat b) R) c w1 = (Some (fold (count_article scan rules) (take (nat b) R) c), w2)"
    and "stored_articles orgID (task_ID task) (store w2) =
          stored_articles orgID (task_ID task) (store w) @ map ca_ID (filter (\<lambda>x. hits_of scan rules x \<noteq> []) (take (nat b) R))"
    and "t_tasks (store w2) = t_tasks (store w)" and "same_env w w2"
    and "scan_state orgID task b C (ca_ID (last (take (nat b) R))) w2"
    and "filter (behind (ca_ID (last (take (nat b) R)))) C = drop (nat b) R"
    and "ca_ID (last (take (nat b) R)) \<noteq> 0" and "a = 0 \<or> ca_ID (last (take (nat b) R)) > a"
proof -
  let ?f = "batch_filter orgID task b a"
  note st = assms(1) [unfolded scan_state_def]
  have lim: "candidate_limit (cf_Limit ?f) = b" using assms(3,4) by (simp add: candidate_limit_def batch_filter_def)
  have cands: "all_candidates (sql_like w) ?f (store w) = C" using st by (subst batch_candidates) simp
  from source_ok [of w ?f] st assms(2) obtain items nx w1 where src: "source ?f w = (Inr (items, nx), w1)"
    by (cases "source ?f w") (auto simp: batch_filter_def)
  have items: "items = take (nat b) R" and nx: "nx = ca_ID (last (take (nat b) R))"
    using source_page [OF src] lim cands assms(3,6,7) by (auto simp: batch_filter_def)
  have w1: "store w1 = store w" "same_env w w1" using source_frame [of ?f w] src by auto
  have ids: "sorted (map ca_ID C)" "distinct (map ca_ID C)" "set (map ca_ID C) \<subseteq> set (map art_ID (t_articles (store w)))"
    using all_candidates_ids [where like = "sql_like w" and d = "store w"] st by auto
  have sub: "set (take (nat b) R) \<subseteq> set C" using assms(6) by (auto dest: in_set_takeD)
  have "distinct (map ca_ID R)" using ids(2) assms(6) by (simp add: distinct_map_filterI)
  then have d: "distinct (map ca_ID (take (nat b) R))" by (simp add: take_map [symmetric])
  have disj: "set (map ca_ID R) \<inter> set (stored_articles orgID (task_ID task) (store w)) = {}" unfolding assms(6) using st by blast
  then have "set (map ca_ID (take (nat b) R)) \<inter> set (stored_articles orgID (task_ID task) (store w1)) = {}"
    using w1 by (auto dest: in_set_takeD)
  moreover have "no_faults w1" using same_env_no_faults [OF w1(2)] st by simp
  moreover have "scan x rules \<noteq> None" if "x \<in> set (take (nat b) R)" for x using assms(5) sub that by blast
  ultimately obtain w2 where sb: "scan_batch scan rules orgID (task_ID task) (take (nat b) R) c w1 =
      (Some (fold (count_article scan rules) (take (nat b) R) c), w2)"
    and sa: "stored_articles orgID (task_ID task) (store w2) =
          stored_articles orgID (task_ID task) (store w) @ map ca_ID (filter (\<lambda>x. hits_of scan rules x \<noteq> []) (take (nat b) R))"
    using scan_batch_ok [of w1 "take (nat b) R" orgID "task_ID task" scan rules c] d w1(1) by metis
  have keep: "t_tasks (store w2) = t_tasks (store w)" "t_articles (store w2) = t_articles (store w)" "t_infos (store w2) = t_infos (store w)"
    using keepsD [OF scan_batch_keeps sb, of t_tasks] keepsD [OF scan_batch_keeps sb, of t_articles]
      keepsD [OF scan_batch_keeps sb, of t_infos] w1 by simp_all
  have env: "same_env w w2" using same_env_trans [OF w1(2) steadyD [OF scan_batch_steady sb]] .
  let ?n = "min (nat b) (length R)"
  have n: "0 < ?n" "?n \<le> length R" "take ?n R = take (nat b) R" using assms(3,7) by (auto simp: min_def)
  have lst: "last (take (nat b) R) = R ! (?n - 1)"
    using n assms(3,7) by (auto simp: last_conv_nth min.commute)
  have nz: "ca_ID (last (take (nat b) R)) \<noteq> 0"
  proof -
    have "last (take (nat b) R) \<in> set C" using sub assms(3,7) by (auto intro!: subsetD [OF sub] last_in_set)
    then show ?thesis using ids(3) st by force
  qed
  have rest: "filter (behind (ca_ID (last (take (nat b) R)))) C = drop (nat b) R"
    using sorted_filter_behind [OF ids(1,2) n(2,1) assms(6)] nz lst by (auto simp: min_def)
  have up: "a = 0 \<or> ca_ID (last (take (nat b) R)) > a"
    using next_cursor(2) [OF src] items nx assms(3,7) by (auto simp: batch_filter_def)
  have "set (map ca_ID (drop (nat b) R)) \<inter> set (stored_articles orgID (task_ID task) (store w2)) = {}"
  proof -
    have "set (map ca_ID (take (nat b) R)) \<inter> set (map ca_ID (drop (nat b) R)) = {}"
      using \<open>distinct (map ca_ID R)\<close> by (metis append_take_drop_id distinct_append map_append)
    moreover have "set (stored_articles orgID (task_ID task) (store w2)) \<subseteq>
        set (stored_articles orgID (task_ID task) (store w)) \<union> set (map ca_ID (take (nat b) R))" unfolding sa by auto
    moreover have "set (map ca_ID (drop (nat b) R)) \<subseteq> set (map ca_ID R)" by (auto dest: in_set_dropD)
    ultimately show ?thesis using disj by blast
  qed
  then have "scan_state orgID task b C (ca_ID (last (take (nat b) R))) w2"
    unfolding scan_state_def rest using st keep same_env_no_faults [OF env] candidates_kept [OF keep(2,3) env] by simp
  with src sb sa keep env rest nz up items nx show thesis by (intro that) auto
qed

text \<open>The loop scans exactly the candidates behind the cursor.\<close>

lemma scan_batches_ok:
  assumes "scan_state orgID task b C a w" and "orgID \<noteq> 0" and "0 < b" and "b \<le> 200"
    and "\<And>x. x \<in> set C \<Longrightarrow> scan x rules \<noteq> None"
  shows "\<exists>w'. scan_batches scan source rules orgID task b a c w = Some (None, fold (count_article scan rules) (filter (behind a) C) c, w') \<and>
           stored_articles orgID (task_ID task) (store w') = stored_articles orgID (task_ID task) (store w) @
             map ca_ID (filter (\<lambda>x. hits_of scan rules x \<noteq> []) (filter (behind a) C)) \<and>
           t_tasks (store w') = t_tasks (store w) \<and> same_env w w'"
  using assms(1)
proof (induction "length (filter (behind a) C)" arbitrary: a c w rule: less_induct)
  case less
  let ?R = "filter (behind a) C"
  show ?case
  proof (cases "?R = []")
    case True
    have st: "no_faults w" "all_candidates (sql_like w) (batch_filter orgID task b a) (store w) = C"
      using less.prems by (simp_all add: scan_state_def batch_candidates [of _ _ _ b a _ b])
    from source_ok [of w "batch_filter orgID task b a"] st assms(2) obtain items nx w1
      where src: "source (batch_filter orgID task b a) w = (Inr (items, nx), w1)"
      by (cases "source (batch_filter orgID task b a) w") (auto simp: batch_filter_def)
    have "items = []" using source_page [OF src] st True by (simp add: batch_filter_def)
    with src source_frame [of "batch_filter orgID task b a" w] True show ?thesis by (subst scan_batches.simps) auto
  next
    case False
    from scan_page_ok [where scan = scan and rules = rules and c = c, OF less.prems assms(2-5) refl False] obtain w1 w2 where
        src: "source (batch_filter orgID task b a) w = (Inr (take (nat b) ?R, ca_ID (last (take (nat b) ?R))), w1)"
      and sb: "scan_batch scan rules orgID (task_ID task) (take (nat b) ?R) c w1 = (Some (fold (count_article scan rules) (take (nat b) ?R) c), w2)"
      and sa: "stored_articles orgID (task_ID task) (store w2) =
          stored_articles orgID (task_ID task) (store w) @ map ca_ID (filter (\<lambda>x. hits_of scan rules x \<noteq> []) (take (nat b) ?R))"
      and keep: "t_tasks (store w2) = t_tasks (store w)" "same_env w w2"
      and st: "scan_state orgID task b C (ca_ID (last (take (nat b) ?R))) w2"
      and rest: "filter (behind (ca_ID (last (take (nat b) ?R)))) C = drop (nat b) ?R"
      and cur: "ca_ID (last (take (nat b) ?R)) \<noteq> 0" "a = 0 \<or> ca_ID (last (take (nat b) ?R)) > a" by blast
    have ne: "take (nat b) ?R \<noteq> []" using False assms(3) by simp
    show ?thesis
    proof (cases "length ?R < nat b")
      case True
      then have "int (length (take (nat b) ?R)) < b" using assms(3) by simp
      with src sb sa keep ne True show ?thesis by (subst scan_batches.simps) auto
    next
      case long: False
      then have "length (drop (nat b) ?R) < length ?R" using assms(3) by simp
      from less.hyps [of "ca_ID (last (take (nat b) ?R))", unfolded rest, OF this st, of "fold (count_article scan rules) (take (nat b) ?R) c"]
      obtain w' where run: "scan_batches scan source rules orgID task b (ca_ID (last (take (nat b) ?R)))
            (fold (count_article scan rules) (take (nat b) ?R) c) w2 =
            Some (None, fold (count_article scan rules) (drop (nat b) ?R) (fold (count_article scan rules) (take (nat b) ?R) c), w')"
        and sa': "stored_articles orgID (task_ID task) (store w') = stored_articles orgID (task_ID task) (store w2) @
             map ca_ID (filter (\<lambda>x. hits_of scan rules x \<noteq> []) (drop (nat b) ?R))"
        and keep': "t_tasks (store w') = t_tasks (store w2)" "same_env w2 w'" by blast
      have halves: "fold (count_article scan rules) (drop (nat b) ?R) (fold (count_article scan rules) (take (nat b) ?R) c) =
          fold (count_article scan rules) ?R c"
        "map ca_ID (filter (\<lambda>x. hits_of scan rules x \<noteq> []) (take (nat b) ?R)) @
         map ca_ID (filter (\<lambda>x. hits_of scan rules x \<noteq> []) (drop (nat b) ?R)) = map ca_ID (filter (\<lambda>x. hits_of scan rules x \<noteq> []) ?R)"
        by (simp_all only: fold_append_halves map_append [symmetric] filter_append [symmetric] append_take_drop_id)
      have "\<not> int (length (take (nat b) ?R)) < b" using long assms(3) by simp
      then have "scan_batches scan source rules orgID task b a c w = Some (None, fold (count_article scan rules) ?R c, w')"
        using src sb ne cur run halves(1) by (subst scan_batches.simps) auto
      moreover have "stored_articles orgID (task_ID task) (store w') = stored_articles orgID (task_ID task) (store w) @
          map ca_ID (filter (\<lambda>x. hits_of scan rules x \<noteq> []) ?R)" using sa sa' halves(2) by simp
      moreover have "t_tasks (store w') = t_tasks (store w)" "same_env w w'"
        using keep keep' same_env_trans [OF keep(2) keep'(2)] by simp_all
      ultimately show ?thesis by blast
    qed
  qed
qed

end

subsection \<open>A whole execution\<close>

lemma keeps_now: "(\<And>now. keeps g (f now)) \<Longrightarrow> keeps g (\<lambda>w. let (now, w) = time_now w in f now w)"
  by (simp add: keeps_def time_now_def)

lemma steady_now: "(\<And>now. steady (f now)) \<Longrightarrow> steady (\<lambda>w. let (now, w) = time_now w in f now w)"
  unfolding steady_def time_now_def by (auto intro: same_env_trans [OF same_env_advance])

lemma startTask_steady: "steady (startTask p)"
  unfolding startTask_def by (intro steady_now frame)

lemma startTask_keeps: "(\<And>f d. g (t_tasks_update f d) = g d) \<Longrightarrow> keeps g (startTask p)"
  unfolding startTask_def by (intro keeps_now frame) simp_all

text \<open>The row \<open>finishTask\<close> writes.\<close>

definition closed_row :: "string \<Rightarrow> scan_counts \<Rightarrow> string \<Rightarrow> InspectionTask \<Rightarrow> bool" where
  "closed_row status c msg t =
     (task_Status t = status \<and> task_TotalScanned t = sn_totalScanned c \<and> task_HitArticles t = sn_hitArticles c \<and>
      task_HitCount t = sn_hitCount c \<and> task_FailCount t = sn_failCount c \<and> task_ErrorMessage t = TrimSpace msg \<and>
      task_FinishedAt t \<noteq> None)"

lemma finishTask_ok:
  assumes "no_faults w" and "t \<in> set (t_tasks (store w))" and "worker_task_at taskID orgID t"
  shows "\<exists>w' t'. finishTask taskID orgID status c msg w = (Inr (), w') \<and> t' \<in> set (t_tasks (store w')) \<and>
           worker_task_at taskID orgID t' \<and> closed_row status c msg t' \<and> t_results (store w') = t_results (store w)"
proof -
  let ?f = "\<lambda>t. t\<lparr>task_Status := status, task_TotalScanned := sn_totalScanned c, task_HitArticles := sn_hitArticles c,
      task_HitCount := sn_hitCount c, task_FailCount := sn_failCount c, task_FinishedAt := Some (clock w (tick w)),
      task_ErrorMessage := TrimSpace msg, task_UpdateAt := clock w (Suc (Suc (tick w)))\<rparr>"
  have "?f t \<in> set (rows_update (worker_task_at taskID orgID) ?f (t_tasks (store w)))"
    using assms(2,3) by (force simp: rows_update_def)
  moreover have "worker_task_at taskID orgID (?f t)" "closed_row status c msg (?f t)"
    using assms(3) by (simp_all add: worker_task_at_def closed_row_def)
  moreover have "finishTask taskID orgID status c msg w = (Inr (), advance (advance w)
      \<lparr>store := t_tasks_update (rows_update (worker_task_at taskID orgID) ?f) (store w)\<rparr>)"
    using assms(1) by (simp add: finishTask_def time_now_def stmt_simps)
  ultimately show ?thesis by fastforce
qed

lemma execution_scans:
  assumes "no_faults w" and "pl_TaskID p \<noteq> 0" and "pl_OrgID p \<noteq> 0" and "0 < b" and "b \<le> 200"
    and "distinct (map task_ID (t_tasks (store w)))" and "startTask p w = (Inr task, w1)"
    and "DecodeTaskRules ut (task_RuleSnapshot task) = Inr rules"
    and "distinct (map art_ID (t_articles (store w)))" and "0 \<notin> set (map art_ID (t_articles (store w)))"
    and "C = all_candidates (sql_like w) (batch_filter (pl_OrgID p) task b 0) (store w)"
    and "\<And>a. a \<in> set C \<Longrightarrow> scan a rules \<noteq> None" and "stored_articles (pl_OrgID p) (pl_TaskID p) (store w) = []"
  shows "\<exists>w' t.
     ExecuteTask ut engine jt (NewExecutorWithDeps True (Some scan) (Some (ListCandidateArticles (Some \<lparr>ap_hasDB = True\<rparr>))) b) p w =
       Some (Returned (Inr ()), w') \<and>
     stored_articles (pl_OrgID p) (pl_TaskID p) (store w') = map ca_ID (filter (\<lambda>a. hits_of scan rules a \<noteq> []) C) \<and>
     t \<in> set (t_tasks (store w')) \<and> worker_task_at (pl_TaskID p) (pl_OrgID p) t \<and>
     task_TotalScanned t = int (length C) \<and> task_HitArticles t = int (length (filter (\<lambda>a. hits_of scan rules a \<noteq> []) C)) \<and>
     task_HitCount t = int (length (concat (map (hits_of scan rules) C))) \<and>
     task_FailCount t = int (length (filter (scan_failed scan rules) C)) \<and>
     task_Status t = ResolveTaskStatus (int (length C)) (int (length (filter (scan_failed scan rules) C))) \<and>
     task_ErrorMessage t = '''' \<and> task_FinishedAt t \<noteq> None"
proof -
  note run = started_running [OF assms(6,7)]
  have env: "same_env w w1" by (rule steadyD [OF startTask_steady assms(7)])
  have keep: "t_articles (store w1) = t_articles (store w)" "t_infos (store w1) = t_infos (store w)"
    "t_results (store w1) = t_results (store w)"
    using keepsD [OF startTask_keeps assms(7), of t_articles] keepsD [OF startTask_keeps assms(7), of t_infos]
      keepsD [OF startTask_keeps assms(7), of t_results] by simp_all
  have st: "scan_state (pl_OrgID p) task b C 0 w1"
    unfolding scan_state_def using keep same_env_no_faults [OF env] candidates_kept [OF keep(1,2) env] run(4) assms(1,9-11,13)
    by (simp add: stored_articles_def)
  have all: "filter (behind 0) C = C" by (simp add: behind_def)
  let ?c = "fold (count_article scan rules) C no_counts"
  from article_repository.scan_batches_ok [OF st assms(3-5), of scan rules no_counts] assms(12) obtain w2 where
      sb: "scan_batches scan (ListCandidateArticles (Some \<lparr>ap_hasDB = True\<rparr>)) rules (pl_OrgID p) task b 0 no_counts w1 =
           Some (None, ?c, w2)"
    and sa: "stored_articles (pl_OrgID p) (task_ID task) (store w2) = stored_articles (pl_OrgID p) (task_ID task) (store w1) @
           map ca_ID (filter (\<lambda>x. hits_of scan rules x \<noteq> []) C)"
    and tk: "t_tasks (store w2) = t_tasks (store w1)" and env2: "same_env w1 w2"
    unfolding all by blast
  have nf: "no_faults w2" using same_env_no_faults [OF env] same_env_no_faults [OF env2] assms(1) by simp
  have "task \<in> set (t_tasks (store w2))" "worker_task_at (task_ID task) (pl_OrgID p) task"
    using run tk by (simp_all add: worker_task_at_def)
  from finishTask_ok [OF nf this, of "ResolveTaskStatus (sn_totalScanned ?c) (sn_failCount ?c)" ?c "''''"] obtain w' t where
      fin: "finishTask (task_ID task) (pl_OrgID p) (ResolveTaskStatus (sn_totalScanned ?c) (sn_failCount ?c)) ?c '''' w2 = (Inr (), w')"
    and t: "t \<in> set (t_tasks (store w'))" "worker_task_at (task_ID task) (pl_OrgID p) t"
      "closed_row (ResolveTaskStatus (sn_totalScanned ?c) (sn_failCount ?c)) ?c '''' t"
    and res: "t_results (store w') = t_results (store w2)" by blast
  have "ExecuteTask ut engine jt (NewExecutorWithDeps True (Some scan) (Some (ListCandidateArticles (Some \<lparr>ap_hasDB = True\<rparr>))) b) p w =
      Some (Returned (Inr ()), w')"
    using assms(2-5,7,8) sb fin by (simp add: ExecuteTask_def NewExecutorWithDeps_def Let_def)
  moreover have "stored_articles (pl_OrgID p) (pl_TaskID p) (store w') = map ca_ID (filter (\<lambda>a. hits_of scan rules a \<noteq> []) C)"
    using sa res keep(3) assms(13) run(4) by (simp add: stored_articles_def)
  ultimately show ?thesis
    using t run(4) by (auto simp: closed_row_def fold_count no_counts_def)
qed

text \<open>
  C3. An execution on a database that answers is complete and exact: for a task that can be started, whose rules decode and
  that has no results yet, a batch size of at most 200 and a scanner that does not panic on the candidates, the call
  succeeds; the articles with a stored result are exactly the candidates with hits, each once and in the order of their ids; the
  task is closed with the number of candidates, of articles with hits, of hits and of failed scans, and with the status
  these numbers call for.
\<close>

theorem execution_scans_every_candidate:
  assumes "no_faults w" and "pl_TaskID p \<noteq> 0" and "pl_OrgID p \<noteq> 0" and "0 < b" and "b \<le> 200"
    and "distinct (map task_ID (t_tasks (store w)))" and "startTask p w = (Inr task, w1)"
    and "DecodeTaskRules ut (task_RuleSnapshot task) = Inr rules"
    and "distinct (map art_ID (t_articles (store w)))" and "0 \<notin> set (map art_ID (t_articles (store w)))"
    and "C = all_candidates (sql_like w) (batch_filter (pl_OrgID p) task b 0) (store w)"
    and "\<And>a. a \<in> set C \<Longrightarrow> scan a rules \<noteq> None" and "stored_articles (pl_OrgID p) (pl_TaskID p) (store w) = []"
  shows "\<exists>w' t.
     ExecuteTask ut engine jt (NewExecutorWithDeps True (Some scan) (Some (ListCandidateArticles (Some \<lparr>ap_hasDB = True\<rparr>))) b) p w =
       Some (Returned (Inr ()), w') \<and>
     stored_articles (pl_OrgID p) (pl_TaskID p) (store w') = map ca_ID (filter (\<lambda>a. hits_of scan rules a \<noteq> []) C) \<and>
     t \<in> set (t_tasks (store w')) \<and> worker_task_at (pl_TaskID p) (pl_OrgID p) t \<and>
     task_TotalScanned t = int (length C) \<and> task_HitArticles t = int (length (filter (\<lambda>a. hits_of scan rules a \<noteq> []) C)) \<and>
     task_HitCount t = int (length (concat (map (hits_of scan rules) C))) \<and>
     task_FailCount t = int (length (filter (scan_failed scan rules) C)) \<and>
     task_Status t = ResolveTaskStatus (int (length C)) (int (length (filter (scan_failed scan rules) C))) \<and>
     task_ErrorMessage t = '''' \<and> task_FinishedAt t \<noteq> None"
  using assms by (rule execution_scans)

text \<open>The example: one pending task, one article that contains the keyword, the scanner of the application.\<close>

abbreviation ex_scanner :: scanner where
  "ex_scanner \<equiv> keyword_scanner ascii_tables literal_engine (Some NewKeywordScanner)"

definition ex_started :: "instant \<Rightarrow> instant \<Rightarrow> InspectionTask" where
  "ex_started now at = ex_task_row\<lparr>task_Status := ''running'', task_StartedAt := Some now, task_UpdateAt := at\<rparr>"

lemma ex_start: "\<exists>now at w'. startTask ex_run_payload ex_worker_world = (Inr (ex_started now at), w')"
  by (simp add: startTask_def time_now_def stmt_simps ex_run_payload_def ex_task_row_def ex_started_def worker_task_at_def
      rows_update_def first_row_def)

lemma ex_rules: "DecodeTaskRules ut (task_RuleSnapshot (ex_started now at)) = Inr [ex_rule]"
  by (simp add: ex_started_def ex_task_row_def, rule decode_snapshot)
     (simp add: ex_rule_def rule_ok_def valid_utf8_ascii ascii_def byte_def)

lemma ex_candidates:
  "all_candidates like (batch_filter 100 (ex_started now at) 100 0) (store ex_worker_world) = [candidate_of (body_map []) ex_source_article]"
proof -
  have "ParseArticleStateFilter ''9'' = 9" by code_simp
  then show ?thesis
    by (simp add: all_candidates_def candidate_match_def ex_source_article_def batch_filter_def ex_started_def ex_task_row_def)
qed

lemma ex_scan: "ex_scanner (candidate_of (body_map []) ex_source_article) [ex_rule] =
   Some (Inr [hit_at NewKeywordScanner ex_rule ''title'' ''spam offer'' 4 0])"
  by code_simp

theorem execution_scans_every_candidate_witness:
  "\<exists>w' t.
     ExecuteTask ascii_tables literal_engine id (NewExecutorWithDeps True (Some ex_scanner)
        (Some (ListCandidateArticles (Some \<lparr>ap_hasDB = True\<rparr>))) 100) ex_run_payload ex_worker_world = Some (Returned (Inr ()), w') \<and>
     stored_articles 100 3 (store w') = [10] \<and> t \<in> set (t_tasks (store w')) \<and>
     task_TotalScanned t = 1 \<and> task_HitCount t = 1 \<and> task_Status t = ''success''"
proof -
  obtain now at w1 where start: "startTask ex_run_payload ex_worker_world = (Inr (ex_started now at), w1)" using ex_start by blast
  have ids: "pl_TaskID ex_run_payload = 3" "pl_OrgID ex_run_payload = 100" by (simp_all add: ex_run_payload_def)
  have none: "stored_articles 100 3 (store ex_worker_world) = []" by (simp add: stored_articles_def)
  have art: "art_ID ex_source_article = 10" by (simp add: ex_source_article_def)
  show ?thesis
    using execution_scans_every_candidate [of ex_worker_world ex_run_payload 100 "ex_started now at" w1 ascii_tables "[ex_rule]"
      "[candidate_of (body_map []) ex_source_article]" ex_scanner literal_engine id]
    by (simp add: start ids none art ex_rules ex_candidates ex_scan hits_of_def scan_failed_def ResolveTaskStatus_def) blast
qed

subsection \<open>Panics\<close>

lemma scan_batches_tasks:
  assumes "scan_batches scan source rules orgID task b a c w = Some r" and "\<forall>f w. store (snd (source f w)) = store w"
  shows "t_tasks (store (snd (snd r))) = t_tasks (store w)"
proof (rule scan_batches.raw_induct [where P = "\<lambda>scan source rules orgID task b a c w r.
    (\<forall>f w. store (snd (source f w)) = store w) \<longrightarrow> t_tasks (store (snd (snd r))) = t_tasks (store w)",
    OF _ assms(1), THEN mp, OF _ assms(2)], rule impI)
  fix rec :: "scanner \<Rightarrow> candidate_source \<Rightarrow> KeywordRule list \<Rightarrow> uint64 \<Rightarrow> InspectionTask \<Rightarrow> int \<Rightarrow> uint64 \<Rightarrow> scan_counts \<Rightarrow> world \<Rightarrow>
     (goerr option option \<times> scan_counts \<times> world) option"
  fix scan source rules orgID task b a c w and r :: "goerr option option \<times> scan_counts \<times> world"
  assume IH: "\<And>scan source rules orgID task b a c w r. rec scan source rules orgID task b a c w = Some r \<Longrightarrow>
      (\<forall>f w. store (snd (source f w)) = store w) \<longrightarrow> t_tasks (store (snd (snd r))) = t_tasks (store w)"
  assume body: "(case source (batch_filter orgID task b a) w of
        (Inl e, w1) \<Rightarrow> Some (Some (Some e), c, w1)
      | (Inr (items, nextCursor), w1) \<Rightarrow>
          if items = [] then Some (None, c, w1)
          else
            (case scan_batch scan rules orgID (task_ID task) items c w1 of
               (None, w2) \<Rightarrow> Some (Some None, c, w2)
             | (Some c1, w2) \<Rightarrow>
                 if int (length items) < b \<or> nextCursor = 0 \<or> nextCursor = a then Some (None, c1, w2)
                 else rec scan source rules orgID task b nextCursor c1 w2)) = Some r"
  assume frame: "\<forall>f w. store (snd (source f w)) = store w"
  obtain q w1 where src: "source (batch_filter orgID task b a) w = (q, w1)" by fastforce
  have w1: "store w1 = store w" using frame src by (metis snd_conv)
  show "t_tasks (store (snd (snd r))) = t_tasks (store w)"
  proof (cases q)
    case (Inl e)
    with body src w1 show ?thesis by auto
  next
    case (Inr page)
    obtain items nx where page: "page = (items, nx)" by fastforce
    obtain oc w2 where sb: "scan_batch scan rules orgID (task_ID task) items c w1 = (oc, w2)" by fastforce
    have "t_tasks (store w2) = t_tasks (store w1)" by (rule keepsD [OF scan_batch_keeps sb]) simp_all
    with body src w1 Inr page sb IH [THEN mp, OF _ frame] show ?thesis by (auto split: if_splits option.splits)
  qed
qed

text \<open>
  A panic of the scanner strands the task: when an execution panics, the task is still running, and every later execution
  of it, such as the retry of the queue, is refused with an error and changes no task.
\<close>

theorem panic_strands_task:
  assumes "distinct (map task_ID (t_tasks (store w)))"
    and "ExecuteTask ut engine jt (NewExecutorWithDeps hasDB (Some scan) (Some (ListCandidateArticles (Some \<lparr>ap_hasDB = True\<rparr>))) b) p w =
         Some (Panicked, w')"
    and "t_tasks (store v) = t_tasks (store w')"
  shows "list_ex (\<lambda>t. worker_task_at (pl_TaskID p) (pl_OrgID p) t \<and> task_Status t = TaskStatusRunning) (t_tasks (store w')) \<and>
         (\<exists>e v'. ExecuteTask ut engine jt (NewExecutorWithDeps hasDB (Some scan)
                    (Some (ListCandidateArticles (Some \<lparr>ap_hasDB = True\<rparr>))) b) p v = Some (Returned (Inl e), v') \<and>
                 t_tasks (store v') = t_tasks (store v))"
proof -
  let ?src = "ListCandidateArticles (Some \<lparr>ap_hasDB = True\<rparr>)"
  from assms(2) obtain task w1 rules bs c where
      start: "startTask p w = (Inr task, w1)"
    and loop: "scan_batches scan ?src rules (pl_OrgID p) task bs 0 no_counts w1 = Some (Some None, c, w')"
    and ok: "hasDB" "pl_TaskID p \<noteq> 0" "pl_OrgID p \<noteq> 0"
    by (auto simp: ExecuteTask_def NewExecutorWithDeps_def Let_def split: if_splits sum.splits prod.splits option.splits)
  have tk: "t_tasks (store w') = t_tasks (store w1)"
    using scan_batches_tasks [OF loop] by (simp add: ListCandidateArticles_frame)
  from started_refused [OF start] assms(3) tk obtain e v' where
      "startTask p v = (Inl e, v')" "t_tasks (store v') = t_tasks (store v)" by metis
  with ok started_running [OF assms(1) start] tk show ?thesis
    by (auto simp: ExecuteTask_def NewExecutorWithDeps_def Let_def list_ex_iff worker_task_at_def)
qed

text \<open>The example: the same task with a scanner that panics on every article.\<close>

abbreviation ex_panicking :: "Executor option" where
  "ex_panicking \<equiv> NewExecutorWithDeps True (Some (\<lambda>_ _. None)) (Some (ListCandidateArticles (Some \<lparr>ap_hasDB = True\<rparr>))) 100"

lemma ex_panics: "\<exists>w'. ExecuteTask ascii_tables literal_engine id ex_panicking ex_run_payload ex_worker_world = Some (Panicked, w')"
proof -
  obtain now at w1 where start: "startTask ex_run_payload ex_worker_world = (Inr (ex_started now at), w1)" using ex_start by blast
  let ?src = "ListCandidateArticles (Some \<lparr>ap_hasDB = True\<rparr>)"
  have env: "same_env ex_worker_world w1" by (rule steadyD [OF startTask_steady start])
  have keep: "t_articles (store w1) = t_articles (store ex_worker_world)" "t_infos (store w1) = t_infos (store ex_worker_world)"
    using keepsD [OF startTask_keeps start, of t_articles] keepsD [OF startTask_keeps start, of t_infos] by simp_all
  have "scan_state 100 (ex_started now at) 100 [candidate_of (body_map []) ex_source_article] 0 w1"
    unfolding scan_state_def using keep same_env_no_faults [OF env] candidates_kept [OF keep env]
      keepsD [OF startTask_keeps start, of t_results] by (simp add: ex_candidates stored_articles_def ex_source_article_def)
  then have "no_faults w1" "all_candidates (sql_like w1) (batch_filter 100 (ex_started now at) 100 0) (store w1) =
      [candidate_of (body_map []) ex_source_article]" by (simp_all add: scan_state_def)
  moreover from this article_repository.source_ok [of w1 "batch_filter 100 (ex_started now at) 100 0"] obtain items nx w2 where
    src: "?src (batch_filter 100 (ex_started now at) 100 0) w1 = (Inr (items, nx), w2)"
    by (cases "?src (batch_filter 100 (ex_started now at) 100 0) w1") (auto simp: batch_filter_def)
  ultimately have "items = [candidate_of (body_map []) ex_source_article]"
    using article_repository.source_page [OF src] by (simp add: batch_filter_def candidate_limit_def behind_def)
  then have "scan_batches (\<lambda>_ _. None) ?src [ex_rule] 100 (ex_started now at) 100 0 no_counts w1 = Some (Some None, no_counts, w2)"
    using src by (subst scan_batches.simps) simp
  then show ?thesis
    using start ex_rules by (simp add: ExecuteTask_def NewExecutorWithDeps_def ex_run_payload_def)
qed

theorem panic_strands_task_witness:
  "\<exists>w' e v'. ExecuteTask ascii_tables literal_engine id ex_panicking ex_run_payload ex_worker_world = Some (Panicked, w') \<and>
     ExecuteTask ascii_tables literal_engine id ex_panicking ex_run_payload w' = Some (Returned (Inl e), v')"
proof -
  obtain w' where r: "ExecuteTask ascii_tables literal_engine id ex_panicking ex_run_payload ex_worker_world = Some (Panicked, w')"
    using ex_panics by blast
  from panic_strands_task [OF _ r refl] show ?thesis using r by auto
qed

end
