(* ===== verification/Lifecycle.thy ===== *)
theory Lifecycle
  imports AuditTrail
begin

text \<open>
  The article life cycle (\<open>internal/modules/articleinspect/lifecycle\<close>): the difference of the
  editable fields, taking an article offline, rectifying its fields with their change logs,
  sending it back to audit, and the three routes.
\<close>

section \<open>Inputs and results\<close>

record OfflineArticleInput =
  of_OrgID :: uint64
  of_ArticleID :: uint64
  of_TaskID :: uint64
  of_ResultID :: uint64
  of_ActionID :: uint64
  of_OperatorID :: uint64
  of_OperatorName :: string
  of_Reason :: string

record EditableArticleFields =
  ef_Title :: string
  ef_ShortTitle :: string
  ef_RichTitle :: string
  ef_Keyword :: string
  ef_Desc :: string
  ef_Body :: string

record UpdateArticleFieldsInput =
  uf_OrgID :: uint64
  uf_ArticleID :: uint64
  uf_TaskID :: uint64
  uf_ResultID :: uint64
  uf_ActionID :: uint64
  uf_OperatorID :: uint64
  uf_OperatorName :: string
  uf_Reason :: string
  uf_Fields :: EditableArticleFields

record RepublishArticleInput =
  rp_OrgID :: uint64
  rp_ArticleID :: uint64
  rp_TaskID :: uint64
  rp_ResultID :: uint64
  rp_ActionID :: uint64
  rp_OperatorID :: uint64
  rp_OperatorName :: string
  rp_Reason :: string

record FieldChange =
  fc_FieldName :: string
  fc_BeforeValue :: string
  fc_AfterValue :: string
  fc_DiffSummary :: string

record LifecycleActionResult =
  lr_Status :: string
  lr_ArticleID :: uint64
  lr_BeforeState :: int8
  lr_AfterState :: int8

section \<open>Differences\<close>

text \<open>Slices of a string count bytes.\<close>

definition truncateDiffText :: "string \<Rightarrow> int \<Rightarrow> string" where
  "truncateDiffText value maxLength =
     (let v = TrimSpace value in
      if maxLength \<le> 0 \<or> int (length v) \<le> maxLength then v
      else if maxLength \<le> 3 then take (nat maxLength) v
      else take (nat (maxLength - 3)) v @ ''...'')"

definition summarizeFieldDiff :: "string \<Rightarrow> string \<Rightarrow> string \<Rightarrow> string" where
  "summarizeFieldDiff fieldName beforeValue afterValue =
     fieldName @ '': '' @ truncateDiffText beforeValue 48 @ '' -> '' @ truncateDiffText afterValue 48"

definition appendFieldChange :: "FieldChange list \<Rightarrow> string \<Rightarrow> string \<Rightarrow> string \<Rightarrow> FieldChange list" where
  "appendFieldChange changes fieldName beforeValue afterValue =
     (if beforeValue = afterValue then changes
      else changes @ [\<lparr>fc_FieldName = fieldName, fc_BeforeValue = beforeValue, fc_AfterValue = afterValue,
                       fc_DiffSummary = summarizeFieldDiff fieldName beforeValue afterValue\<rparr>])"

definition DiffEditableFields :: "EditableArticleFields \<Rightarrow> EditableArticleFields \<Rightarrow> FieldChange list" where
  "DiffEditableFields before after =
     (let c0 = [];
          c1 = appendFieldChange c0 KeywordScopeTitle (ef_Title before) (ef_Title after);
          c2 = appendFieldChange c1 KeywordScopeShortTitle (ef_ShortTitle before) (ef_ShortTitle after);
          c3 = appendFieldChange c2 KeywordScopeRichTitle (ef_RichTitle before) (ef_RichTitle after);
          c4 = appendFieldChange c3 KeywordScopeKeyword (ef_Keyword before) (ef_Keyword after);
          c5 = appendFieldChange c4 KeywordScopeDesc (ef_Desc before) (ef_Desc after)
      in appendFieldChange c5 KeywordScopeBody (ef_Body before) (ef_Body after))"

section \<open>Service\<close>

text \<open>
  The interface \<open>auditWriter\<close> is a record of its two methods. \<open>NewLifecycleService\<close> is the only
  place that makes a service, and it always sets \<open>newAuditWriter\<close>, so the model has no service
  without one.
\<close>

record auditWriter =
  aw_CreateOperationLog :: "InspectionOperationLog option \<Rightarrow> world \<Rightarrow> InspectionOperationLog res"
  aw_CreateFieldChangeLogs :: "InspectionFieldChangeLog list \<Rightarrow> world \<Rightarrow> unit res"

record LifecycleService =
  lf_hasDB :: bool
  lf_newAuditWriter :: "bool \<Rightarrow> auditWriter"
  lf_republishTargetState :: int8

definition repository_writer :: "AuditRepository option \<Rightarrow> auditWriter" where
  "repository_writer repo =
     \<lparr>aw_CreateOperationLog = CreateOperationLog repo, aw_CreateFieldChangeLogs = CreateFieldChangeLogs repo\<rparr>"

definition NewLifecycleService :: "bool \<Rightarrow> LifecycleService option" where
  "NewLifecycleService hasDB =
     Some \<lparr>lf_hasDB = hasDB, lf_newAuditWriter = (\<lambda>db. repository_writer (NewAuditRepository db)),
           lf_republishTargetState = ArticleStateAuditPending\<rparr>"

text \<open>
  \<open>writeOperationLogWithDB\<close>. The log row that \<open>Create\<close> receives has zero id and timestamps; on success
  only the error is returned.
\<close>

definition writeOperationLogWithDB ::
    "gocontext \<Rightarrow> LifecycleService option \<Rightarrow> bool \<Rightarrow> uint64 \<Rightarrow> uint64 \<Rightarrow> uint64 \<Rightarrow> uint64 \<Rightarrow> uint64 \<Rightarrow> string \<Rightarrow>
     int8 \<Rightarrow> int8 \<Rightarrow> string \<Rightarrow> string \<Rightarrow> uint64 \<Rightarrow> string \<Rightarrow> string \<Rightarrow> world \<Rightarrow> unit res" where
  "writeOperationLogWithDB cx service db orgID actionID taskID resultID articleID operationType
       beforeState afterState status reason operatorID operatorName requestSnapshot w =
     (case service of
        None \<Rightarrow> (Inr (), w)
      | Some s \<Rightarrow>
          (let before = Itoa (sint beforeState); after = Itoa (sint afterState);
               entry = \<lparr>log_ID = 0, log_OrgID = orgID, log_ActionID = actionID, log_TaskID = taskID, log_ResultID = resultID,
                 log_ArticleID = articleID, log_OperationType = operationType, log_BeforeState = before,
                 log_AfterState = after, log_Status = status, log_Reason = reason,
                 log_Summary = BuildOperationLogSummary operationType status before after reason taskID articleID resultID,
                 log_RequestSnapshot = requestSnapshot, log_OperatorID = operatorID,
                 log_OperatorName = TrimSpace operatorName, log_RequestID = '''', log_SourceIP = '''',
                 log_CreateAt = 0, log_UpdateAt = 0\<rparr>
           in go_try (aw_CreateOperationLog (lf_newAuditWriter s db) (Some (EnrichOperationLogWithOperator cx entry)) w)
                (\<lambda>_ w. (Inr (), w))))"

definition writeOperationLog ::
    "gocontext \<Rightarrow> LifecycleService option \<Rightarrow> uint64 \<Rightarrow> uint64 \<Rightarrow> uint64 \<Rightarrow> uint64 \<Rightarrow> uint64 \<Rightarrow> string \<Rightarrow>
     int8 \<Rightarrow> int8 \<Rightarrow> string \<Rightarrow> string \<Rightarrow> uint64 \<Rightarrow> string \<Rightarrow> string \<Rightarrow> world \<Rightarrow> unit res" where
  "writeOperationLog cx service =
     writeOperationLogWithDB cx service (case service of None \<Rightarrow> False | Some s \<Rightarrow> lf_hasDB s)"

text \<open>The anonymous struct that \<open>OfflineArticle\<close> and \<open>RepublishArticle\<close> store as the request snapshot.\<close>

definition omit_uint :: "string \<Rightarrow> uint64 \<Rightarrow> (string \<times> json) list" where
  "omit_uint name n = (if n = 0 then [] else [(name, JUint n)])"

definition omit_str :: "string \<Rightarrow> string \<Rightarrow> (string \<times> json) list" where
  "omit_str name s = (if s = '''' then [] else [(name, JStr s)])"

definition article_snapshot ::
    "uint64 \<Rightarrow> uint64 \<Rightarrow> uint64 \<Rightarrow> uint64 \<Rightarrow> uint64 \<Rightarrow> string \<Rightarrow> string \<Rightarrow> (string \<times> json) list" where
  "article_snapshot orgID taskID resultID actionID articleID operationType reason =
     [(''orgid'', JUint orgID)] @ omit_uint ''task_id'' taskID @ omit_uint ''result_id'' resultID @
     omit_uint ''action_id'' actionID @ [(''article_id'', JUint articleID), (''operation_type'', JStr operationType)] @
     omit_str ''reason'' (TrimSpace reason)"

text \<open>\<open>EditableArticleFields\<close> has no JSON tags: the names of its fields are used.\<close>

definition fields_json :: "EditableArticleFields \<Rightarrow> json" where
  "fields_json f =
     JObj [(''Title'', JStr (ef_Title f)), (''ShortTitle'', JStr (ef_ShortTitle f)), (''RichTitle'', JStr (ef_RichTitle f)),
           (''Keyword'', JStr (ef_Keyword f)), (''Desc'', JStr (ef_Desc f)), (''Body'', JStr (ef_Body f))]"

definition own_article :: "uint64 \<Rightarrow> uint64 \<Rightarrow> Article \<Rightarrow> bool" where
  "own_article orgID articleID a = (art_OrgID a = orgID \<and> art_ID a = articleID)"

definition lifecycle_ready :: "LifecycleService option \<Rightarrow> bool" where
  "lifecycle_ready service = (case service of None \<Rightarrow> False | Some s \<Rightarrow> lf_hasDB s)"

text \<open>\<open>_ = s.writeOperationLog(...)\<close>: only the world is kept.\<close>

definition OfflineArticle ::
    "gocontext \<Rightarrow> LifecycleService option \<Rightarrow> OfflineArticleInput \<Rightarrow> world \<Rightarrow> LifecycleActionResult res" where
  "OfflineArticle cx service inp w =
     (if \<not> lifecycle_ready service \<or> of_OrgID inp = 0 \<or> of_ArticleID inp = 0
      then (Inl (Sentinel ErrInvalidActionInput), w)
      else go_try (db_first t_articles art_ID (own_article (of_OrgID inp) (of_ArticleID inp)) w) (\<lambda>article w.
        (let result = \<lparr>lr_Status = ActionStatusSkipped, lr_ArticleID = art_ID article,
                       lr_BeforeState = art_State article, lr_AfterState = art_State article\<rparr>;
             snapshot = BuildSnapshot (Some (JObj (article_snapshot (of_OrgID inp) (of_TaskID inp) (of_ResultID inp)
                          (of_ActionID inp) (art_ID article) ActionTypeOffline (of_Reason inp))))
         in if art_State article = ArticleStateOffline \<or> art_State article = ArticleStateOfflineSync
            then (Inr result,
                  snd (writeOperationLog cx service (of_OrgID inp) (of_ActionID inp) (of_TaskID inp) (of_ResultID inp)
                         (art_ID article) ActionTypeOffline (art_State article) (art_State article) ActionStatusSkipped
                         (of_Reason inp) (of_OperatorID inp) (of_OperatorName inp) snapshot w))
            else if art_State article \<noteq> ArticleStateOnline
            then (Inl (Plain ''article cannot be offlined from current state''), w)
            else go_try (db_update t_articles t_articles_update (own_article (of_OrgID inp) (of_ArticleID inp))
                           (\<lambda>_ a. a\<lparr>art_State := ArticleStateOffline\<rparr>) w) (\<lambda>_ w.
              (Inr (result\<lparr>lr_Status := ActionStatusSuccess, lr_AfterState := ArticleStateOffline\<rparr>),
               snd (writeOperationLog cx service (of_OrgID inp) (of_ActionID inp) (of_TaskID inp) (of_ResultID inp)
                      (art_ID article) ActionTypeOffline (art_State article) ArticleStateOffline ActionStatusSuccess
                      (of_Reason inp) (of_OperatorID inp) (of_OperatorName inp) snapshot w))))))"

definition lifecycle_nullableStringToString :: "string option \<Rightarrow> string" where
  "lifecycle_nullableStringToString value = (case value of None \<Rightarrow> '''' | Some s \<Rightarrow> s)"

definition buildFieldChangeLogs ::
    "gocontext \<Rightarrow> UpdateArticleFieldsInput \<Rightarrow> FieldChange list \<Rightarrow> InspectionFieldChangeLog list" where
  "buildFieldChangeLogs cx inp changes =
     EnrichFieldChangeLogsWithOperator cx
       (map (\<lambda>c. \<lparr>fcl_ID = 0, fcl_OrgID = uf_OrgID inp, fcl_ActionID = uf_ActionID inp, fcl_TaskID = uf_TaskID inp,
                   fcl_ResultID = uf_ResultID inp, fcl_ArticleID = uf_ArticleID inp, fcl_FieldName = fc_FieldName c,
                   fcl_BeforeValue = fc_BeforeValue c, fcl_AfterValue = fc_AfterValue c,
                   fcl_DiffSummary = fc_DiffSummary c, fcl_OperatorID = uf_OperatorID inp,
                   fcl_OperatorName = TrimSpace (uf_OperatorName inp), fcl_RequestID = '''', fcl_SourceIP = '''',
                   fcl_CreateAt = 0, fcl_UpdateAt = 0\<rparr>) changes)"

definition editable_fields :: "Article \<Rightarrow> ArticleInfo \<Rightarrow> EditableArticleFields" where
  "editable_fields article info =
     \<lparr>ef_Title = art_Title article, ef_ShortTitle = lifecycle_nullableStringToString (art_ShortTitle article),
      ef_RichTitle = art_RichTitle article, ef_Keyword = art_Keyword article, ef_Desc = art_Desc article,
      ef_Body = info_Body info\<rparr>"

definition write_article_fields :: "EditableArticleFields \<Rightarrow> Article \<Rightarrow> Article" where
  "write_article_fields f a =
     a\<lparr>art_Title := ef_Title f, art_ShortTitle := Some (ef_ShortTitle f), art_RichTitle := ef_RichTitle f,
       art_Keyword := ef_Keyword f, art_Desc := ef_Desc f\<rparr>"

text \<open>The body of the transaction of \<open>UpdateArticleFields\<close>.\<close>

definition rectify_tx ::
    "gocontext \<Rightarrow> LifecycleService \<Rightarrow> UpdateArticleFieldsInput \<Rightarrow> Article \<Rightarrow> FieldChange list \<Rightarrow> world \<Rightarrow> unit res" where
  "rectify_tx cx s inp article changes w =
     go_try (db_update t_articles t_articles_update (own_article (uf_OrgID inp) (uf_ArticleID inp))
               (\<lambda>_. write_article_fields (uf_Fields inp)) w) (\<lambda>_ w.
     go_try (db_update t_infos t_infos_update (\<lambda>i. info_ID i = uf_ArticleID inp)
               (\<lambda>_ i. i\<lparr>info_Body := ef_Body (uf_Fields inp)\<rparr>) w) (\<lambda>_ w.
     go_try (aw_CreateFieldChangeLogs (lf_newAuditWriter s True) (buildFieldChangeLogs cx inp changes) w) (\<lambda>_.
       writeOperationLogWithDB cx (Some s) True (uf_OrgID inp) (uf_ActionID inp) (uf_TaskID inp) (uf_ResultID inp)
         (uf_ArticleID inp) ActionTypeRectify (art_State article) (art_State article) ActionStatusSuccess
         (uf_Reason inp) (uf_OperatorID inp) (uf_OperatorName inp)
         (BuildSnapshot (Some (JObj (article_snapshot (uf_OrgID inp) (uf_TaskID inp) (uf_ResultID inp) (uf_ActionID inp)
            (uf_ArticleID inp) ActionTypeRectify (uf_Reason inp) @ [(''fields'', fields_json (uf_Fields inp))])))))))"

text \<open>A nil slice of changes is the empty list.\<close>

definition UpdateArticleFields ::
    "gocontext \<Rightarrow> LifecycleService option \<Rightarrow> UpdateArticleFieldsInput \<Rightarrow> world \<Rightarrow> FieldChange list res" where
  "UpdateArticleFields cx service inp w =
     (case service of
        None \<Rightarrow> (Inl (Sentinel ErrInvalidActionInput), w)
      | Some s \<Rightarrow>
          if \<not> lf_hasDB s \<or> uf_OrgID inp = 0 \<or> uf_ArticleID inp = 0 then (Inl (Sentinel ErrInvalidActionInput), w)
          else
            go_try (db_first t_articles art_ID (own_article (uf_OrgID inp) (uf_ArticleID inp)) w) (\<lambda>article w.
            go_try (db_first t_infos info_ID (\<lambda>i. info_ID i = uf_ArticleID inp) w) (\<lambda>info w.
              (let changes = DiffEditableFields (editable_fields article info) (uf_Fields inp) in
               if changes = [] then (Inr [], w)
               else go_try (db_transaction (rectify_tx cx s inp article changes) w) (\<lambda>_ w. (Inr changes, w))))))"

definition RepublishArticle ::
    "gocontext \<Rightarrow> LifecycleService option \<Rightarrow> RepublishArticleInput \<Rightarrow> world \<Rightarrow> LifecycleActionResult res" where
  "RepublishArticle cx service inp w =
     (case service of
        None \<Rightarrow> (Inl (Sentinel ErrInvalidActionInput), w)
      | Some s \<Rightarrow>
          if \<not> lf_hasDB s \<or> rp_OrgID inp = 0 \<or> rp_ArticleID inp = 0 then (Inl (Sentinel ErrInvalidActionInput), w)
          else
            go_try (db_first t_articles art_ID (own_article (rp_OrgID inp) (rp_ArticleID inp)) w) (\<lambda>article w.
              (let targetState = (if lf_republishTargetState s = 0 then ArticleStateAuditPending
                                  else lf_republishTargetState s) in
               if art_State article = targetState
               then (Inr \<lparr>lr_Status = ActionStatusSkipped, lr_ArticleID = art_ID article,
                          lr_BeforeState = art_State article, lr_AfterState = art_State article\<rparr>, w)
               else go_try (db_update t_articles t_articles_update (own_article (rp_OrgID inp) (rp_ArticleID inp))
                              (\<lambda>_ a. a\<lparr>art_State := targetState\<rparr>) w) (\<lambda>_ w.
                 (Inr \<lparr>lr_Status = ActionStatusSuccess, lr_ArticleID = art_ID article,
                       lr_BeforeState = art_State article, lr_AfterState = targetState\<rparr>,
                  snd (writeOperationLog cx service (rp_OrgID inp) (rp_ActionID inp) (rp_TaskID inp) (rp_ResultID inp)
                         (art_ID article) ActionTypeRepublish (art_State article) targetState ActionStatusSuccess
                         (rp_Reason inp) (rp_OperatorID inp) (rp_OperatorName inp)
                         (BuildSnapshot (Some (JObj (article_snapshot (rp_OrgID inp) (rp_TaskID inp) (rp_ResultID inp)
                            (rp_ActionID inp) (art_ID article) ActionTypeRepublish (rp_Reason inp))))) w))))))"

section \<open>Routes\<close>

definition lifecycle_statusFromError :: "goerr \<Rightarrow> int \<times> string" where
  "lifecycle_statusFromError e =
     (if errors_is e ErrUnauthorized then (401, ''unauthorized'')
      else if errors_is e ErrInvalidActionInput then (400, ''invalid action input'')
      else if errors_is e ErrRecordNotFound then (404, ''resource not found'')
      else (500, ''internal server error''))"

record articleLifecycleBody =
  lb_OrgID :: uint64
  lb_TaskID :: uint64
  lb_ResultID :: uint64
  lb_ActionID :: uint64
  lb_Reason :: string

record articleRectifyBody = articleLifecycleBody +
  rb_Title :: string
  rb_ShortTitle :: string
  rb_RichTitle :: string
  rb_Keyword :: string
  rb_Desc :: string
  rb_Body :: string

text \<open>The handlers registered by \<open>RegisterLifecycleRoutes\<close>; the first text is the path parameter.\<close>

definition article_offline_handler ::
    "gocontext \<Rightarrow> LifecycleService option \<Rightarrow> string \<Rightarrow> articleLifecycleBody \<Rightarrow> world \<Rightarrow>
     LifecycleActionResult EnvelopeOutput \<times> world" where
  "article_offline_handler cx service articleParam body =
     or_bad_request (Uint64Param_Parse articleParam) ''invalid article input'' (\<lambda>articleID w.
       or_failure lifecycle_statusFromError (CurrentOrgID cx, w) (\<lambda>orgID w.
         (let operator = ResolveOperator cx in
          or_failure lifecycle_statusFromError
            (OfflineArticle cx service
               \<lparr>of_OrgID = orgID, of_ArticleID = articleID, of_TaskID = lb_TaskID body, of_ResultID = lb_ResultID body,
                of_ActionID = lb_ActionID body, of_OperatorID = op_ID operator, of_OperatorName = op_Name operator,
                of_Reason = lb_Reason body\<rparr> w)
            (\<lambda>result w. (SuccessOKEnvelope 200 ''article offlined'' result, w)))))"

definition article_rectify_handler ::
    "gocontext \<Rightarrow> LifecycleService option \<Rightarrow> string \<Rightarrow> articleRectifyBody \<Rightarrow> world \<Rightarrow>
     FieldChange list EnvelopeOutput \<times> world" where
  "article_rectify_handler cx service articleParam body =
     or_bad_request (Uint64Param_Parse articleParam) ''invalid article input'' (\<lambda>articleID w.
       or_failure lifecycle_statusFromError (CurrentOrgID cx, w) (\<lambda>orgID w.
         (let operator = ResolveOperator cx in
          or_failure lifecycle_statusFromError
            (UpdateArticleFields cx service
               \<lparr>uf_OrgID = orgID, uf_ArticleID = articleID, uf_TaskID = lb_TaskID body, uf_ResultID = lb_ResultID body,
                uf_ActionID = lb_ActionID body, uf_OperatorID = op_ID operator, uf_OperatorName = op_Name operator,
                uf_Reason = lb_Reason body,
                uf_Fields = \<lparr>ef_Title = rb_Title body, ef_ShortTitle = rb_ShortTitle body, ef_RichTitle = rb_RichTitle body,
                             ef_Keyword = rb_Keyword body, ef_Desc = rb_Desc body, ef_Body = rb_Body body\<rparr>\<rparr> w)
            (\<lambda>result w. (SuccessOKEnvelope 200 ''article rectified'' result, w)))))"

definition article_republish_handler ::
    "gocontext \<Rightarrow> LifecycleService option \<Rightarrow> string \<Rightarrow> articleLifecycleBody \<Rightarrow> world \<Rightarrow>
     LifecycleActionResult EnvelopeOutput \<times> world" where
  "article_republish_handler cx service articleParam body =
     or_bad_request (Uint64Param_Parse articleParam) ''invalid article input'' (\<lambda>articleID w.
       or_failure lifecycle_statusFromError (CurrentOrgID cx, w) (\<lambda>orgID w.
         (let operator = ResolveOperator cx in
          or_failure lifecycle_statusFromError
            (RepublishArticle cx service
               \<lparr>rp_OrgID = orgID, rp_ArticleID = articleID, rp_TaskID = lb_TaskID body, rp_ResultID = lb_ResultID body,
                rp_ActionID = lb_ActionID body, rp_OperatorID = op_ID operator, rp_OperatorName = op_Name operator,
                rp_Reason = lb_Reason body\<rparr> w)
            (\<lambda>result w. (SuccessOKEnvelope 200 ''article republished'' result, w)))))"

section \<open>The contract of the audit writer\<close>

text \<open>
  The service relies on a writer that touches only the log tables and, when it reports success,
  has appended the entries it was given. The facts about the three operations are proved from
  this contract; \<open>NewLifecycleService\<close> provides it.
\<close>

definition log_content :: "InspectionOperationLog \<Rightarrow> InspectionOperationLog" where
  "log_content l = l\<lparr>log_ID := 0, log_CreateAt := 0, log_UpdateAt := 0\<rparr>"

definition change_content :: "InspectionFieldChangeLog \<Rightarrow> InspectionFieldChangeLog" where
  "change_content l = l\<lparr>fcl_ID := 0, fcl_CreateAt := 0, fcl_UpdateAt := 0\<rparr>"

locale audited_lifecycle =
  fixes s :: LifecycleService
  assumes has_db: "lf_hasDB s"
    and op_frame: "\<exists>f. store (snd (aw_CreateOperationLog (lf_newAuditWriter s True) entry w)) = t_oplogs_update f (store w)"
    and change_frame: "\<exists>f. store (snd (aw_CreateFieldChangeLogs (lf_newAuditWriter s True) ls w)) = t_fcls_update f (store w)"
    and op_appends: "aw_CreateOperationLog (lf_newAuditWriter s True) (Some l) w = (Inr l', w') \<Longrightarrow>
           t_oplogs (store w') = t_oplogs (store w) @ [l'] \<and> log_content l' = log_content l"
    and change_appends: "aw_CreateFieldChangeLogs (lf_newAuditWriter s True) ls w = (Inr (), w') \<Longrightarrow>
           \<exists>ls'. t_fcls (store w') = t_fcls (store w) @ ls' \<and> map change_content ls' = map change_content ls"
begin

lemma write_log_frame:
  "\<exists>f. store (snd (writeOperationLogWithDB cx (Some s) True i1 i2 i3 i4 i5 ty b a st rs oi on sn w)) = t_oplogs_update f (store w)"
  unfolding writeOperationLogWithDB_def option.case Let_def go_try_drop by (rule op_frame)

lemma write_log_frame':
  "\<exists>f. store (snd (writeOperationLog cx (Some s) i1 i2 i3 i4 i5 ty b a st rs oi on sn w)) = t_oplogs_update f (store w)"
  using write_log_frame by (simp add: writeOperationLog_def has_db)

text \<open>Taking an article offline: what each outcome means for the tables.\<close>

lemma offline_error:
  assumes "OfflineArticle cx (Some s) inp w = (Inl e, w')"
  shows "store w' = store w"
proof -
  obtain r w1 where f: "db_first t_articles art_ID (own_article (of_OrgID inp) (of_ArticleID inp)) w = (r, w1)" by fastforce
  then have st: "store w1 = store w" by (cases r) (auto dest: db_first_Inl db_first_Inr)
  obtain u w2 where u: "db_update t_articles t_articles_update (own_article (of_OrgID inp) (of_ArticleID inp))
                     (\<lambda>_ a. a\<lparr>art_State := ArticleStateOffline\<rparr>) w1 = (u, w2)" by fastforce
  then have "\<And>e. u = Inl e \<Longrightarrow> store w2 = store w1"
    by (auto simp: db_update_def db_stmt_def split: option.splits)
  with assms f st u show ?thesis
    by (cases r; cases u) (auto simp: OfflineArticle_def Let_def split: if_splits)
qed

lemma offline_done:
  assumes "OfflineArticle cx (Some s) inp w = (Inr x, w')"
  obtains a f where "first_row art_ID (own_article (of_OrgID inp) (of_ArticleID inp)) (t_articles (store w)) = Some a"
      and "lr_ArticleID x = art_ID a" and "lr_BeforeState x = art_State a"
      and "art_State a = 8 \<or> art_State a = 7" and "lr_Status x = ActionStatusSkipped" and "lr_AfterState x = art_State a"
      and "store w' = t_oplogs_update f (store w)"
  | a f where "first_row art_ID (own_article (of_OrgID inp) (of_ArticleID inp)) (t_articles (store w)) = Some a"
      and "lr_ArticleID x = art_ID a" and "lr_BeforeState x = art_State a"
      and "art_State a = 9" and "lr_Status x = ActionStatusSuccess" and "lr_AfterState x = 8"
      and "store w' = t_oplogs_update f (t_articles_update (rows_update (own_article (of_OrgID inp) (of_ArticleID inp))
                        (\<lambda>a. a\<lparr>art_State := 8\<rparr>)) (store w))"
proof -
  note step = assms [unfolded OfflineArticle_def Let_def]
  from step obtain a w1 where f: "db_first t_articles art_ID (own_article (of_OrgID inp) (of_ArticleID inp)) w = (Inr a, w1)"
    by (auto simp: go_try_Inr_iff split: if_splits)
  from db_first_Inr [OF f] have fr: "first_row art_ID (own_article (of_OrgID inp) (of_ArticleID inp)) (t_articles (store w)) = Some a"
    and w1: "store w1 = store w" by auto
  show thesis
  proof (cases "art_State a = 8 \<or> art_State a = 7")
    case True
    with step f have "x = \<lparr>lr_Status = ActionStatusSkipped, lr_ArticleID = art_ID a, lr_BeforeState = art_State a, lr_AfterState = art_State a\<rparr>"
      and "\<exists>f. store w' = t_oplogs_update f (store w1)"
      using write_log_frame' by (auto split: if_splits)
    with True fr w1 that(1) show thesis by auto
  next
    case False
    with step f obtain n w2 where u: "db_update t_articles t_articles_update (own_article (of_OrgID inp) (of_ArticleID inp))
                     (\<lambda>_ a. a\<lparr>art_State := ArticleStateOffline\<rparr>) w1 = (Inr n, w2)"
      and on: "art_State a = 9"
      and x: "x = \<lparr>lr_Status = ActionStatusSuccess, lr_ArticleID = art_ID a, lr_BeforeState = art_State a, lr_AfterState = 8\<rparr>"
      and "\<exists>f. store w' = t_oplogs_update f (store w2)"
      using write_log_frame' by (auto simp: go_try_Inr_iff split: if_splits)
    moreover from u have "store w2 = t_articles_update (rows_update (own_article (of_OrgID inp) (of_ArticleID inp))
                        (\<lambda>a. a\<lparr>art_State := 8\<rparr>)) (store w1)"
      by (auto simp: db_update_def db_stmt_def split: option.splits)
    ultimately show thesis using fr w1 that(2) by auto
  qed
qed

text \<open>Rectifying: all the writes and all the logs, or nothing.\<close>

lemma rectify_error:
  assumes "UpdateArticleFields cx (Some s) inp w = (Inl e, w')"
  shows "store w' = store w"
proof -
  obtain r w1 where f: "db_first t_articles art_ID (own_article (uf_OrgID inp) (uf_ArticleID inp)) w = (r, w1)" by fastforce
  then have st: "store w1 = store w" by (cases r) (auto dest: db_first_Inl db_first_Inr)
  obtain i w2 where g: "db_first t_infos info_ID (\<lambda>i. info_ID i = uf_ArticleID inp) w1 = (i, w2)" by fastforce
  then have "store w2 = store w1" by (cases i) (auto dest: db_first_Inl db_first_Inr)
  with assms f g st show ?thesis
    by (cases r; cases i)
       (auto simp: UpdateArticleFields_def Let_def go_try_def split: if_splits prod.splits sum.splits dest!: transaction_Inl)
qed

lemma rectify_tx_done:
  assumes "rectify_tx cx s inp article changes w = (Inr (), w')"
  shows "\<exists>l ls. store w' = t_oplogs_update (\<lambda>old. old @ [l]) (t_fcls_update (\<lambda>old. old @ ls)
           (t_infos_update (rows_update (\<lambda>i. info_ID i = uf_ArticleID inp) (\<lambda>i. i\<lparr>info_Body := ef_Body (uf_Fields inp)\<rparr>))
             (t_articles_update (rows_update (own_article (uf_OrgID inp) (uf_ArticleID inp))
                (write_article_fields (uf_Fields inp))) (store w))))
           \<and> map change_content ls = map change_content (buildFieldChangeLogs cx inp changes)
           \<and> log_OrgID l = uf_OrgID inp \<and> log_ArticleID l = uf_ArticleID inp \<and> log_OperationType l = ActionTypeRectify"
proof -
  from assms obtain n1 w1 n2 w2 w3 where
      u1: "db_update t_articles t_articles_update (own_article (uf_OrgID inp) (uf_ArticleID inp))
             (\<lambda>_. write_article_fields (uf_Fields inp)) w = (Inr n1, w1)"
    and u2: "db_update t_infos t_infos_update (\<lambda>i. info_ID i = uf_ArticleID inp)
               (\<lambda>_ i. i\<lparr>info_Body := ef_Body (uf_Fields inp)\<rparr>) w1 = (Inr n2, w2)"
    and c: "aw_CreateFieldChangeLogs (lf_newAuditWriter s True) (buildFieldChangeLogs cx inp changes) w2 = (Inr (), w3)"
    and l: "\<exists>e l. aw_CreateOperationLog (lf_newAuditWriter s True) (Some e) w3 = (Inr l, w')
              \<and> log_OrgID e = uf_OrgID inp \<and> log_ArticleID e = uf_ArticleID inp \<and> log_OperationType e = ActionTypeRectify"
    unfolding rectify_tx_def writeOperationLogWithDB_def option.case go_try_Inr_iff Let_def
    by (fastforce simp: EnrichOperationLogWithOperator_def Let_def)
  from u1 have s1: "store w1 = t_articles_update (rows_update (own_article (uf_OrgID inp) (uf_ArticleID inp))
                (write_article_fields (uf_Fields inp))) (store w)"
    by (auto simp: db_update_def db_stmt_def split: option.splits)
  from u2 have s2: "store w2 = t_infos_update (rows_update (\<lambda>i. info_ID i = uf_ArticleID inp)
                     (\<lambda>i. i\<lparr>info_Body := ef_Body (uf_Fields inp)\<rparr>)) (store w1)"
    by (auto simp: db_update_def db_stmt_def split: option.splits)
  obtain f3 where "store w3 = t_fcls_update f3 (store w2)"
    using change_frame [of "buildFieldChangeLogs cx inp changes" w2] c by auto
  moreover obtain ls where ls: "t_fcls (store w3) = t_fcls (store w2) @ ls"
      "map change_content ls = map change_content (buildFieldChangeLogs cx inp changes)"
    using change_appends [OF c] by blast
  ultimately have s3: "store w3 = t_fcls_update (\<lambda>old. old @ ls) (store w2)" by simp
  from l obtain e l' where cr: "aw_CreateOperationLog (lf_newAuditWriter s True) (Some e) w3 = (Inr l', w')"
    and e: "log_OrgID e = uf_OrgID inp" "log_ArticleID e = uf_ArticleID inp" "log_OperationType e = ActionTypeRectify" by blast
  obtain f4 where "store w' = t_oplogs_update f4 (store w3)"
    using op_frame [of "Some e" w3] cr by auto
  with op_appends [OF cr] have s4: "store w' = t_oplogs_update (\<lambda>old. old @ [l']) (store w3)"
    and k: "log_content l' = log_content e" by auto
  from k e have "log_OrgID l' = uf_OrgID inp" "log_ArticleID l' = uf_ArticleID inp" "log_OperationType l' = ActionTypeRectify"
    by (auto simp: log_content_def dest!: arg_cong [where f = "\<lambda>l. (log_OrgID l, log_ArticleID l, log_OperationType l)"])
  with s1 s2 s3 s4 ls(2) show ?thesis by metis
qed

lemma rectify_done:
  assumes "UpdateArticleFields cx (Some s) inp w = (Inr changes, w')"
  obtains article info where "first_row art_ID (own_article (uf_OrgID inp) (uf_ArticleID inp)) (t_articles (store w)) = Some article"
    and "first_row info_ID (\<lambda>i. info_ID i = uf_ArticleID inp) (t_infos (store w)) = Some info"
    and "changes = DiffEditableFields (editable_fields article info) (uf_Fields inp)"
    and "changes = [] \<Longrightarrow> store w' = store w"
    and "changes \<noteq> [] \<Longrightarrow> \<exists>l ls. store w' = t_oplogs_update (\<lambda>old. old @ [l]) (t_fcls_update (\<lambda>old. old @ ls)
           (t_infos_update (rows_update (\<lambda>i. info_ID i = uf_ArticleID inp) (\<lambda>i. i\<lparr>info_Body := ef_Body (uf_Fields inp)\<rparr>))
             (t_articles_update (rows_update (own_article (uf_OrgID inp) (uf_ArticleID inp))
                (write_article_fields (uf_Fields inp))) (store w))))
           \<and> map change_content ls = map change_content (buildFieldChangeLogs cx inp changes)
           \<and> log_OrgID l = uf_OrgID inp \<and> log_ArticleID l = uf_ArticleID inp \<and> log_OperationType l = ActionTypeRectify"
proof -
  note step = assms [unfolded UpdateArticleFields_def Let_def option.case]
  from step obtain a w1 i w2 where f: "db_first t_articles art_ID (own_article (uf_OrgID inp) (uf_ArticleID inp)) w = (Inr a, w1)"
    and g: "db_first t_infos info_ID (\<lambda>i. info_ID i = uf_ArticleID inp) w1 = (Inr i, w2)"
    by (auto simp: go_try_Inr_iff split: if_splits)
  have w12: "w1 = advance w" "w2 = advance w1" using db_first_Inr [OF f] db_first_Inr [OF g] by auto
  define cs where "cs = DiffEditableFields (editable_fields a i) (uf_Fields inp)"
  from step f g have res: "(if cs = [] then (Inr [], w2)
        else go_try (db_transaction (rectify_tx cx s inp a cs) w2) (\<lambda>_ w. (Inr cs, w))) = (Inr changes, w')"
    by (auto simp: cs_def split: if_splits)
  show thesis
  proof (rule that)
    show "first_row art_ID (own_article (uf_OrgID inp) (uf_ArticleID inp)) (t_articles (store w)) = Some a"
      using db_first_Inr [OF f] by simp
    show "first_row info_ID (\<lambda>i. info_ID i = uf_ArticleID inp) (t_infos (store w)) = Some i"
      using db_first_Inr [OF g] w12 by simp
    from res have ch: "changes = cs" by (auto simp: go_try_Inr_iff split: if_splits)
    then show "changes = DiffEditableFields (editable_fields a i) (uf_Fields inp)" by (simp add: cs_def)
    show "store w' = store w" if "changes = []" using that ch res w12 by auto
    assume "changes \<noteq> []"
    with ch res have "db_transaction (rectify_tx cx s inp a cs) w2 = (Inr (), w')"
      by (auto simp: go_try_Inr_iff)
    then obtain w3 where "rectify_tx cx s inp a cs (advance w2) = (Inr (), w3)" and "store w' = store w3"
      by (rule transaction_Inr)
    with rectify_tx_done [OF this(1)] ch w12 show "\<exists>l ls. store w' = t_oplogs_update (\<lambda>old. old @ [l]) (t_fcls_update (\<lambda>old. old @ ls)
           (t_infos_update (rows_update (\<lambda>i. info_ID i = uf_ArticleID inp) (\<lambda>i. i\<lparr>info_Body := ef_Body (uf_Fields inp)\<rparr>))
             (t_articles_update (rows_update (own_article (uf_OrgID inp) (uf_ArticleID inp))
                (write_article_fields (uf_Fields inp))) (store w))))
           \<and> map change_content ls = map change_content (buildFieldChangeLogs cx inp changes)
           \<and> log_OrgID l = uf_OrgID inp \<and> log_ArticleID l = uf_ArticleID inp \<and> log_OperationType l = ActionTypeRectify"
      by simp
  qed
qed

text \<open>Sending an article back: its state becomes the target, or nothing changes.\<close>

lemma republish_tables:
  assumes "RepublishArticle cx (Some s) inp w = (r, w')"
  shows "store w' = store w \<or>
         (\<exists>f. store w' = t_oplogs_update f (t_articles_update (rows_update (own_article (rp_OrgID inp) (rp_ArticleID inp))
                (\<lambda>a. a\<lparr>art_State := (if lf_republishTargetState s = 0 then 1 else lf_republishTargetState s)\<rparr>)) (store w)))"
proof -
  let ?t = "if lf_republishTargetState s = 0 then ArticleStateAuditPending else lf_republishTargetState s"
  obtain q w1 where f: "db_first t_articles art_ID (own_article (rp_OrgID inp) (rp_ArticleID inp)) w = (q, w1)" by fastforce
  then have st: "store w1 = store w" by (cases q) (auto dest: db_first_Inl db_first_Inr)
  obtain u w2 where u: "db_update t_articles t_articles_update (own_article (rp_OrgID inp) (rp_ArticleID inp))
                     (\<lambda>_ a. a\<lparr>art_State := ?t\<rparr>) w1 = (u, w2)" by fastforce
  then have "(case u of Inl _ \<Rightarrow> store w2 = store w1
              | Inr _ \<Rightarrow> store w2 = t_articles_update (rows_update (own_article (rp_OrgID inp) (rp_ArticleID inp))
                            (\<lambda>a. a\<lparr>art_State := ?t\<rparr>)) (store w1))"
    by (auto simp: db_update_def db_stmt_def split: option.splits)
  moreover have "\<exists>f. store (snd (writeOperationLog cx (Some s) i1 i2 i3 i4 i5 ty b a sta rs oi on sn w2)) = t_oplogs_update f (store w2)"
    for i1 i2 i3 i4 i5 ty b a sta rs oi on sn by (rule write_log_frame')
  ultimately show ?thesis using assms f st u
    by (cases q; cases u) (auto simp: RepublishArticle_def Let_def split: if_splits)
qed

end

section \<open>The service of the application\<close>

lemma repository_writer_op:
  "aw_CreateOperationLog (repository_writer (NewAuditRepository True)) (Some l) =
     db_create TOpLogs t_oplogs t_oplogs_update no_unique (\<lambda>i at. l\<lparr>log_ID := i, log_CreateAt := at, log_UpdateAt := at\<rparr>)"
  by (simp add: fun_eq_iff repository_writer_def NewAuditRepository_def CreateOperationLog_def audit_ready_def)

lemma create_frame:
  "(\<And>f d. \<exists>g. upd f d = u g d) \<Longrightarrow> (\<And>d. \<exists>g. d = u g d) \<Longrightarrow> \<exists>g. store (snd (db_create t sel upd c mk w)) = u g (store w)"
  by (auto simp: db_create_def db_stmt_def Let_def split: option.splits)

lemma create_all_frame:
  "(\<And>f d. \<exists>g. upd f d = u g d) \<Longrightarrow> (\<And>d. \<exists>g. d = u g d) \<Longrightarrow> \<exists>g. store (snd (db_create_all t sel upd c mks w)) = u g (store w)"
  by (auto simp: db_create_all_def db_stmt_def Let_def split: option.splits)

interpretation article_service: audited_lifecycle "the (NewLifecycleService True)"
proof
  let ?W = "lf_newAuditWriter (the (NewLifecycleService True)) True"
  have W: "?W = repository_writer (NewAuditRepository True)" by (simp add: NewLifecycleService_def)
  show "lf_hasDB (the (NewLifecycleService True))" by (simp add: NewLifecycleService_def)
  show "\<exists>f. store (snd (aw_CreateOperationLog ?W l w)) = t_oplogs_update f (store w)" for l w
  proof (cases l)
    case None
    then show ?thesis
      by (intro exI [of _ id]) (simp add: W repository_writer_def CreateOperationLog_def)
  next
    case (Some e)
    have "d = t_oplogs_update id d" for d :: db by simp
    then show ?thesis unfolding Some W repository_writer_op by (intro create_frame) blast+
  qed
  show "\<exists>f. store (snd (aw_CreateFieldChangeLogs ?W ls w)) = t_fcls_update f (store w)" for ls w
  proof -
    have e: "\<exists>g. d = t_fcls_update g d" for d :: db by (rule exI [of _ id]) simp
    have "\<exists>f. store (snd (db_create_all TFieldLogs t_fcls t_fcls_update no_unique mks w)) = t_fcls_update f (store w)" for mks
      using e by (intro create_all_frame) blast+
    then show ?thesis using e [of "store w"]
      by (simp add: W repository_writer_def CreateFieldChangeLogs_def go_try_drop)
  qed
  show "t_oplogs (store w') = t_oplogs (store w) @ [l'] \<and> log_content l' = log_content l"
    if "aw_CreateOperationLog ?W (Some l) w = (Inr l', w')" for l w l' w'
    using tb_oplogs.create_Inr(1,2) [OF that [unfolded W repository_writer_op]] by (simp add: log_content_def)
  show "\<exists>ls'. t_fcls (store w') = t_fcls (store w) @ ls' \<and> map change_content ls' = map change_content ls"
    if "aw_CreateFieldChangeLogs ?W ls w = (Inr (), w')" for ls w w'
  proof (cases "ls = []")
    case True
    with that show ?thesis
      by (simp add: W repository_writer_def CreateFieldChangeLogs_def NewAuditRepository_def audit_ready_def)
  next
    case False
    let ?mks = "map (\<lambda>l i at. l\<lparr>fcl_ID := i, fcl_CreateAt := at, fcl_UpdateAt := at\<rparr>) ls"
    from False that obtain rs where rs: "db_create_all TFieldLogs t_fcls t_fcls_update no_unique ?mks w = (Inr rs, w')"
      by (auto simp: W repository_writer_def CreateFieldChangeLogs_def NewAuditRepository_def audit_ready_def go_try_Inr_iff)
    then have "t_fcls (store w') = t_fcls (store w) @ rs"
      and "rs = map (\<lambda>i. (?mks ! i) (Suc (autoinc w TFieldLogs + i)) (clock w (Suc (tick w)))) [0..<length ls]"
      by (auto simp: db_create_all_def db_stmt_def Let_def split: option.splits if_splits)
    then show ?thesis
      by (intro exI [of _ rs]) (auto simp: change_content_def intro!: nth_equalityI)
  qed
qed

lemma NewLifecycleService_Some: "NewLifecycleService True = Some (the (NewLifecycleService True))"
  by (simp add: NewLifecycleService_def)

lemmas service_offline_error = article_service.offline_error [folded NewLifecycleService_Some]
lemmas service_offline_done = article_service.offline_done [folded NewLifecycleService_Some]
lemmas service_rectify_error = article_service.rectify_error [folded NewLifecycleService_Some]
lemmas service_rectify_done = article_service.rectify_done [folded NewLifecycleService_Some]
lemmas service_republish_tables = article_service.republish_tables [folded NewLifecycleService_Some]

section \<open>Properties\<close>

subsection \<open>Differences\<close>

text \<open>The field a change names, and the effect of a change.\<close>

definition field_value :: "string \<Rightarrow> EditableArticleFields \<Rightarrow> string" where
  "field_value name f =
     (if name = KeywordScopeTitle then ef_Title f else if name = KeywordScopeShortTitle then ef_ShortTitle f
      else if name = KeywordScopeRichTitle then ef_RichTitle f else if name = KeywordScopeKeyword then ef_Keyword f
      else if name = KeywordScopeDesc then ef_Desc f else ef_Body f)"

definition put_field :: "FieldChange \<Rightarrow> EditableArticleFields \<Rightarrow> EditableArticleFields" where
  "put_field c f =
     (if fc_FieldName c = KeywordScopeTitle then f\<lparr>ef_Title := fc_AfterValue c\<rparr>
      else if fc_FieldName c = KeywordScopeShortTitle then f\<lparr>ef_ShortTitle := fc_AfterValue c\<rparr>
      else if fc_FieldName c = KeywordScopeRichTitle then f\<lparr>ef_RichTitle := fc_AfterValue c\<rparr>
      else if fc_FieldName c = KeywordScopeKeyword then f\<lparr>ef_Keyword := fc_AfterValue c\<rparr>
      else if fc_FieldName c = KeywordScopeDesc then f\<lparr>ef_Desc := fc_AfterValue c\<rparr>
      else f\<lparr>ef_Body := fc_AfterValue c\<rparr>)"

lemma truncateDiffText_length: "length (truncateDiffText v 48) \<le> 48"
  by (simp add: truncateDiffText_def Let_def)

lemma fold_put_append:
  "fold put_field (appendFieldChange cs n b a) f =
     (if b = a then fold put_field cs f
      else put_field \<lparr>fc_FieldName = n, fc_BeforeValue = b, fc_AfterValue = a, fc_DiffSummary = summarizeFieldDiff n b a\<rparr>
             (fold put_field cs f))"
  by (simp add: appendFieldChange_def)

lemma all_append:
  "list_all P (appendFieldChange cs n b a) \<longleftrightarrow>
     list_all P cs \<and> (b = a \<or> P \<lparr>fc_FieldName = n, fc_BeforeValue = b, fc_AfterValue = a,
                                  fc_DiffSummary = summarizeFieldDiff n b a\<rparr>)"
  by (auto simp: appendFieldChange_def)

lemma append_Nil_iff: "appendFieldChange cs n b a = [] \<longleftrightarrow> cs = [] \<and> b = a"
  by (simp add: appendFieldChange_def)

lemma names_append:
  "map fc_FieldName (appendFieldChange cs n b a) = map fc_FieldName cs @ (if b = a then [] else [n])"
  by (simp add: appendFieldChange_def)

text \<open>
  C21. The difference of two versions is exactly what was edited: applying the changes to the old
  version gives the new one, there are no changes just when the versions are equal, every
  change states the old and the new value of its field, which differ, no field is listed
  twice, and a summary has at most 113 bytes however long the values are.
\<close>

theorem diff_is_edit:
  "fold put_field (DiffEditableFields before after) before = after \<and>
   (DiffEditableFields before after = [] \<longleftrightarrow> before = after) \<and>
   list_all (\<lambda>c. fc_BeforeValue c = field_value (fc_FieldName c) before \<and> fc_AfterValue c = field_value (fc_FieldName c) after \<and>
                 fc_BeforeValue c \<noteq> fc_AfterValue c \<and> length (fc_DiffSummary c) \<le> 113) (DiffEditableFields before after) \<and>
   distinct (map fc_FieldName (DiffEditableFields before after))"
proof (intro conjI)
  note [simp] = DiffEditableFields_def Let_def fold_put_append all_append append_Nil_iff names_append
  show "fold put_field (DiffEditableFields before after) before = after"
    by (cases before; cases after) (simp add: put_field_def)
  show "(DiffEditableFields before after = []) = (before = after)"
    by (cases before; cases after) auto
  have len: "length (summarizeFieldDiff n b a) \<le> length n + 102" for n b a
    using truncateDiffText_length [of b] truncateDiffText_length [of a] by (simp add: summarizeFieldDiff_def)
  have "length (summarizeFieldDiff ''title'' b a) \<le> 113" "length (summarizeFieldDiff ''short_title'' b a) \<le> 113"
    "length (summarizeFieldDiff ''rich_title'' b a) \<le> 113" "length (summarizeFieldDiff ''keyword'' b a) \<le> 113"
    "length (summarizeFieldDiff ''desc'' b a) \<le> 113" "length (summarizeFieldDiff ''body'' b a) \<le> 113" for b a
    by (rule order_trans [OF len], simp)+
  then show "list_all (\<lambda>c. fc_BeforeValue c = field_value (fc_FieldName c) before \<and> fc_AfterValue c = field_value (fc_FieldName c) after \<and>
                 fc_BeforeValue c \<noteq> fc_AfterValue c \<and> length (fc_DiffSummary c) \<le> 113) (DiffEditableFields before after)"
    by (simp add: field_value_def)
  show "distinct (map fc_FieldName (DiffEditableFields before after))" by simp
qed

subsection \<open>Rectifying\<close>

definition without_article_tables :: "db \<Rightarrow> db" where
  "without_article_tables d = d\<lparr>t_articles := [], t_infos := [], t_fcls := [], t_oplogs := []\<rparr>"

lemma buildFieldChangeLogs_content:
  "map (\<lambda>l. (fcl_ArticleID l, fcl_FieldName l, fcl_BeforeValue l, fcl_AfterValue l)) (buildFieldChangeLogs cx inp cs) =
   map (\<lambda>c. (uf_ArticleID inp, fc_FieldName c, fc_BeforeValue c, fc_AfterValue c)) cs"
  by (simp add: buildFieldChangeLogs_def EnrichFieldChangeLogsWithOperator_def Let_def)

lemma change_content_facts:
  assumes "map change_content ls = map change_content ls'"
  shows "map (\<lambda>l. (fcl_ArticleID l, fcl_FieldName l, fcl_BeforeValue l, fcl_AfterValue l)) ls =
         map (\<lambda>l. (fcl_ArticleID l, fcl_FieldName l, fcl_BeforeValue l, fcl_AfterValue l)) ls'"
proof -
  let ?g = "\<lambda>l. (fcl_ArticleID l, fcl_FieldName l, fcl_BeforeValue l, fcl_AfterValue l)"
  have g: "map ?g xs = map ?g (map change_content xs)" for xs by (simp add: change_content_def)
  show ?thesis by (subst (1 2) g) (simp only: assms)
qed

text \<open>
  C7. A rectification is all or nothing, whatever the database does: an error leaves every table as
  it was; otherwise the answer is the difference between the stored and the requested version,
  and when that is not empty the article and its body hold the requested version, the change
  log has gained one entry per change with its old and new value, the operation log has gained
  one entry, and no other table has changed.
\<close>

theorem rectify_all_or_nothing:
  "case UpdateArticleFields cx (NewLifecycleService True) inp w of
     (Inl e, w') \<Rightarrow> store w' = store w
   | (Inr changes, w') \<Rightarrow>
       (\<exists>a i. a \<in> set (t_articles (store w)) \<and> own_article (uf_OrgID inp) (uf_ArticleID inp) a \<and>
          i \<in> set (t_infos (store w)) \<and> info_ID i = uf_ArticleID inp \<and>
          changes = DiffEditableFields (editable_fields a i) (uf_Fields inp) \<and>
          (if changes = [] then store w' = store w
           else t_articles (store w') = rows_update (own_article (uf_OrgID inp) (uf_ArticleID inp))
                  (write_article_fields (uf_Fields inp)) (t_articles (store w)) \<and>
                t_infos (store w') = rows_update (\<lambda>i. info_ID i = uf_ArticleID inp)
                  (\<lambda>i. i\<lparr>info_Body := ef_Body (uf_Fields inp)\<rparr>) (t_infos (store w)) \<and>
                editable_fields (write_article_fields (uf_Fields inp) a) (i\<lparr>info_Body := ef_Body (uf_Fields inp)\<rparr>) = uf_Fields inp \<and>
                (\<exists>ls. t_fcls (store w') = t_fcls (store w) @ ls \<and>
                   map (\<lambda>l. (fcl_ArticleID l, fcl_FieldName l, fcl_BeforeValue l, fcl_AfterValue l)) ls =
                   map (\<lambda>c. (uf_ArticleID inp, fc_FieldName c, fc_BeforeValue c, fc_AfterValue c)) changes) \<and>
                (\<exists>l. t_oplogs (store w') = t_oplogs (store w) @ [l] \<and> log_OrgID l = uf_OrgID inp \<and>
                   log_ArticleID l = uf_ArticleID inp \<and> log_OperationType l = ActionTypeRectify) \<and>
                without_article_tables (store w') = without_article_tables (store w)))"
proof -
  obtain r w' where r: "UpdateArticleFields cx (NewLifecycleService True) inp w = (r, w')" by fastforce
  show ?thesis
  proof (cases r)
    case (Inl e)
    with r show ?thesis by (simp add: service_rectify_error)
  next
    case (Inr changes)
    from service_rectify_done [OF r [unfolded Inr]] obtain a i where
        fa: "first_row art_ID (own_article (uf_OrgID inp) (uf_ArticleID inp)) (t_articles (store w)) = Some a"
      and fi: "first_row info_ID (\<lambda>i. info_ID i = uf_ArticleID inp) (t_infos (store w)) = Some i"
      and ch: "changes = DiffEditableFields (editable_fields a i) (uf_Fields inp)"
      and none: "changes = [] \<Longrightarrow> store w' = store w"
      and some: "changes \<noteq> [] \<Longrightarrow> \<exists>l ls. store w' = t_oplogs_update (\<lambda>old. old @ [l]) (t_fcls_update (\<lambda>old. old @ ls)
           (t_infos_update (rows_update (\<lambda>i. info_ID i = uf_ArticleID inp) (\<lambda>i. i\<lparr>info_Body := ef_Body (uf_Fields inp)\<rparr>))
             (t_articles_update (rows_update (own_article (uf_OrgID inp) (uf_ArticleID inp))
                (write_article_fields (uf_Fields inp))) (store w))))
           \<and> map change_content ls = map change_content (buildFieldChangeLogs cx inp changes)
           \<and> log_OrgID l = uf_OrgID inp \<and> log_ArticleID l = uf_ArticleID inp \<and> log_OperationType l = ActionTypeRectify"
      by blast
    have ed: "editable_fields (write_article_fields F a) (i\<lparr>info_Body := ef_Body F\<rparr>) = F" for F
      by (simp add: editable_fields_def write_article_fields_def lifecycle_nullableStringToString_def)
    show ?thesis
    proof (cases "changes = []")
      case True
      with first_row_Some [OF fa] first_row_Some [OF fi] ch none show ?thesis
        unfolding r Inr prod.case sum.case by auto
    next
      case False
      then obtain l ls where st: "store w' = t_oplogs_update (\<lambda>old. old @ [l]) (t_fcls_update (\<lambda>old. old @ ls)
           (t_infos_update (rows_update (\<lambda>i. info_ID i = uf_ArticleID inp) (\<lambda>i. i\<lparr>info_Body := ef_Body (uf_Fields inp)\<rparr>))
             (t_articles_update (rows_update (own_article (uf_OrgID inp) (uf_ArticleID inp))
                (write_article_fields (uf_Fields inp))) (store w))))"
        and ls: "map change_content ls = map change_content (buildFieldChangeLogs cx inp changes)"
        and l: "log_OrgID l = uf_OrgID inp" "log_ArticleID l = uf_ArticleID inp" "log_OperationType l = ActionTypeRectify"
        using some by blast
      from change_content_facts [OF ls] have "\<exists>ls. t_fcls (store w') = t_fcls (store w) @ ls \<and>
          map (\<lambda>l. (fcl_ArticleID l, fcl_FieldName l, fcl_BeforeValue l, fcl_AfterValue l)) ls =
          map (\<lambda>c. (uf_ArticleID inp, fc_FieldName c, fc_BeforeValue c, fc_AfterValue c)) changes"
        unfolding buildFieldChangeLogs_content by (simp add: st)
      then show ?thesis unfolding r Inr prod.case sum.case
        using first_row_Some [OF fa] first_row_Some [OF fi] False l
        by (intro exI [of _ a] exI [of _ i]) (simp add: ch [symmetric] st ed without_article_tables_def)
    qed
  qed
qed

subsection \<open>Taking an article offline\<close>

lemma write_log_ok:
  assumes "no_faults w"
  shows "t_articles (store (snd (writeOperationLog cx (NewLifecycleService True) i1 i2 i3 i4 i5 ty b a st rs oi on sn w))) = t_articles (store w)"
    and "length (t_oplogs (store (snd (writeOperationLog cx (NewLifecycleService True) i1 i2 i3 i4 i5 ty b a st rs oi on sn w)))) =
           Suc (length (t_oplogs (store w)))"
  using assms
  by (auto simp: writeOperationLog_def writeOperationLogWithDB_def NewLifecycleService_def repository_writer_def
      CreateOperationLog_def NewAuditRepository_def audit_ready_def db_create_def db_stmt_ok Let_def no_unique_def
      list_ex_iff)

text \<open>
  When no statement fails, taking an article offline follows its state: an online article becomes
  offline and is reported as a success, an article that is offline already (also by
  synchronisation) stays as it is and is reported as skipped, and any other state is refused.
  The article table changes in the first case only, and the first two write one log entry.
\<close>

theorem offline_transition:
  assumes "no_faults w" and "keys_ok TArticles t_articles art_ID w"
    and "a \<in> set (t_articles (store w))" and "own_article (of_OrgID inp) (of_ArticleID inp) a"
    and "of_OrgID inp \<noteq> 0" and "of_ArticleID inp \<noteq> 0"
  shows "\<exists>w'. OfflineArticle cx (NewLifecycleService True) inp w =
           (if art_State a = ArticleStateOffline \<or> art_State a = ArticleStateOfflineSync
            then Inr \<lparr>lr_Status = ActionStatusSkipped, lr_ArticleID = art_ID a, lr_BeforeState = art_State a, lr_AfterState = art_State a\<rparr>
            else if art_State a = ArticleStateOnline
            then Inr \<lparr>lr_Status = ActionStatusSuccess, lr_ArticleID = art_ID a, lr_BeforeState = ArticleStateOnline, lr_AfterState = ArticleStateOffline\<rparr>
            else Inl (Plain ''article cannot be offlined from current state''), w')
         \<and> t_articles (store w') =
             (if art_State a = ArticleStateOnline
              then rows_update (\<lambda>x. art_ID x = art_ID a) (\<lambda>x. x\<lparr>art_State := ArticleStateOffline\<rparr>) (t_articles (store w))
              else t_articles (store w))
         \<and> length (t_oplogs (store w')) = length (t_oplogs (store w)) +
             (if art_State a \<in> {ArticleStateOffline, ArticleStateOfflineSync, ArticleStateOnline} then 1 else 0)"
proof -
  let ?P = "own_article (of_OrgID inp) (of_ArticleID inp)"
  have key: "\<And>x. x \<in> set (t_articles (store w)) \<Longrightarrow> art_ID x = art_ID a \<longleftrightarrow> ?P x"
    using assms(2-4) by (metis keys_ok_def own_article_def distinct_map inj_onD)
  have fr: "first_row art_ID ?P (t_articles (store w)) = Some a"
    using tb_articles.first_by_key [OF assms(2,3), where Q = "\<lambda>x. art_OrgID x = of_OrgID inp"] assms(4)
    by (simp add: own_article_def [abs_def])
  have upd: "rows_update ?P f (t_articles (store w)) = rows_update (\<lambda>x. art_ID x = art_ID a) f (t_articles (store w))" for f
    using key by (simp add: rows_update_def)
  have ready: "lifecycle_ready (NewLifecycleService True)" by (simp add: lifecycle_ready_def NewLifecycleService_def)
  show ?thesis
    using ready assms(1,5,6) fr
    by (auto simp: OfflineArticle_def stmt_simps write_log_ok upd Let_def)
qed

definition ex_article_row :: Article where
  "ex_article_row = \<lparr>art_ID = 10, art_OrgID = 100, art_Title = ''t'', art_ShortTitle = None, art_RichTitle = '''',
     art_Keyword = '''', art_Desc = '''', art_Thumbnail = '''', art_State = 9, art_PublishAtUnix = 0, art_UpdateAtUnix = 0\<rparr>"

definition ex_offline_input :: OfflineArticleInput where
  "ex_offline_input = \<lparr>of_OrgID = 100, of_ArticleID = 10, of_TaskID = 0, of_ResultID = 0, of_ActionID = 0,
     of_OperatorID = 7, of_OperatorName = '''', of_Reason = ''''\<rparr>"

definition ex_article_world :: world where
  "ex_article_world = calm_world (empty_db\<lparr>t_articles := [ex_article_row]\<rparr>)"

theorem offline_transition_witness:
  "\<exists>w'. OfflineArticle background (NewLifecycleService True) ex_offline_input ex_article_world =
     (Inr \<lparr>lr_Status = ''success'', lr_ArticleID = 10, lr_BeforeState = 9, lr_AfterState = 8\<rparr>, w')
     \<and> t_articles (store w') = [ex_article_row\<lparr>art_State := 8\<rparr>] \<and> length (t_oplogs (store w')) = 1"
proof -
  have "no_faults ex_article_world" "keys_ok TArticles t_articles art_ID ex_article_world"
    "ex_article_row \<in> set (t_articles (store ex_article_world))"
    "own_article (of_OrgID ex_offline_input) (of_ArticleID ex_offline_input) ex_article_row"
    "of_OrgID ex_offline_input \<noteq> 0" "of_ArticleID ex_offline_input \<noteq> 0"
    by (simp_all add: ex_article_world_def keys_ok_def ex_article_row_def own_article_def ex_offline_input_def)
  from offline_transition [OF this, of background] show ?thesis
    by (simp add: ex_article_world_def ex_article_row_def rows_update_def)
qed

subsection \<open>The life cycle as a state machine\<close>

text \<open>
  The life cycle of an article under the routes of the service: the requests, with any bodies, contexts and
  failures, that lead from one world to another.
\<close>

inductive lifecycle_run :: "world \<Rightarrow> world \<Rightarrow> bool" for start :: world where
  at_start: "lifecycle_run start start"
| offline: "lifecycle_run start w \<Longrightarrow> lifecycle_run start (snd (article_offline_handler cx (NewLifecycleService True) p body w))"
| rectify: "lifecycle_run start w \<Longrightarrow> lifecycle_run start (snd (article_rectify_handler cx (NewLifecycleService True) p body2 w))"
| republish: "lifecycle_run start w \<Longrightarrow> lifecycle_run start (snd (article_republish_handler cx (NewLifecycleService True) p body w))"

text \<open>The moves allowed between a version of an article and a later one.\<close>

definition art_moved :: "Article \<Rightarrow> Article \<Rightarrow> bool" where
  "art_moved a b =
     (art_ID b = art_ID a \<and> art_OrgID b = art_OrgID a \<and>
      (art_State b = art_State a \<or> art_State b = ArticleStateAuditPending \<or>
       (art_State a = ArticleStateOnline \<and> art_State b = ArticleStateOffline)))"

lemma art_moved_refl: "art_moved a a"
  by (simp add: art_moved_def)

lemma art_moved_trans: "art_moved a b \<Longrightarrow> art_moved b c \<Longrightarrow> art_moved a c"
  by (auto simp: art_moved_def)

lemma moved_refl: "list_all2 art_moved xs xs"
  by (rule list.rel_refl) (rule art_moved_refl)

lemma moved_trans: "list_all2 art_moved xs ys \<Longrightarrow> list_all2 art_moved ys zs \<Longrightarrow> list_all2 art_moved xs zs"
  by (rule list_all2_trans [OF art_moved_trans])

lemma rows_moved: "(\<And>x. x \<in> set xs \<Longrightarrow> P x \<Longrightarrow> art_moved x (f x)) \<Longrightarrow> list_all2 art_moved xs (rows_update P f xs)"
  by (simp add: rows_update_def list_all2_conv_all_nth art_moved_refl)

lemma moved_ids: "list_all2 art_moved xs ys \<Longrightarrow> map art_ID ys = map art_ID xs"
  by (induction rule: list_all2_induct) (simp_all add: art_moved_def)

lemma or_failure_world: "snd (or_failure sfe r (\<lambda>x w. (g x, w))) = snd r"
  by (auto simp: or_failure_def split: prod.split sum.split)

text \<open>A request changes what the operation it calls changes.\<close>

lemma handler_worlds:
  "snd (article_offline_handler cx service p body w) = w \<or>
     (\<exists>inp. snd (article_offline_handler cx service p body w) = snd (OfflineArticle cx service inp w))"
  "snd (article_rectify_handler cx service p body2 w) = w \<or>
     (\<exists>inp. snd (article_rectify_handler cx service p body2 w) = snd (UpdateArticleFields cx service inp w))"
  "snd (article_republish_handler cx service p body w) = w \<or>
     (\<exists>inp. snd (article_republish_handler cx service p body w) = snd (RepublishArticle cx service inp w))"
  unfolding article_offline_handler_def article_rectify_handler_def article_republish_handler_def
    or_bad_request_def Let_def or_failure_world
  by (cases "Uint64Param_Parse p"; cases "CurrentOrgID cx"; force simp: or_failure_def or_failure_world [unfolded or_failure_def])+

lemma offline_moves:
  assumes "distinct (map art_ID (t_articles (store w)))"
  shows "list_all2 art_moved (t_articles (store w)) (t_articles (store (snd (OfflineArticle cx (NewLifecycleService True) inp w))))"
proof -
  obtain r w' where r: "OfflineArticle cx (NewLifecycleService True) inp w = (r, w')" by fastforce
  show ?thesis
  proof (cases r)
    case (Inl e)
    with r service_offline_error [OF r [unfolded Inl]] show ?thesis by (simp add: moved_refl)
  next
    case (Inr x)
    show ?thesis
    proof (rule service_offline_done [OF r [unfolded Inr]], goal_cases)
      case (1 a f)
      with r show ?case by (simp add: moved_refl)
    next
      case (2 a f)
      have "art_State y = 9" if "y \<in> set (t_articles (store w))" "own_article (of_OrgID inp) (of_ArticleID inp) y" for y
      proof -
        have "y = a" using first_row_Some [OF 2(1)] that assms by (metis own_article_def distinct_map inj_onD)
        with 2(4) show ?thesis by simp
      qed
      with r 2 show ?case by (auto intro!: rows_moved simp: art_moved_def)
    qed
  qed
qed

lemma rectify_moves:
  "list_all2 art_moved (t_articles (store w)) (t_articles (store (snd (UpdateArticleFields cx (NewLifecycleService True) inp w))))"
proof -
  obtain r w' where r: "UpdateArticleFields cx (NewLifecycleService True) inp w = (r, w')" by fastforce
  have upd: "list_all2 art_moved xs (rows_update P (write_article_fields F) xs)" for xs P F
    by (intro rows_moved) (simp add: art_moved_def write_article_fields_def)
  show ?thesis
  proof (cases r)
    case (Inl e)
    with r service_rectify_error [OF r [unfolded Inl]] show ?thesis by (simp add: moved_refl)
  next
    case (Inr changes)
    show ?thesis
      by (rule service_rectify_done [OF r [unfolded Inr]]; cases "changes = []") (auto simp: r moved_refl upd)
  qed
qed

lemma republish_moves:
  "list_all2 art_moved (t_articles (store w)) (t_articles (store (snd (RepublishArticle cx (NewLifecycleService True) inp w))))"
proof -
  obtain r w' where r: "RepublishArticle cx (NewLifecycleService True) inp w = (r, w')" by fastforce
  have upd: "list_all2 art_moved xs (rows_update P (\<lambda>a. a\<lparr>art_State := 1\<rparr>) xs)" for xs P
    by (intro rows_moved) (simp add: art_moved_def)
  have "lf_republishTargetState (the (NewLifecycleService True)) = 1" by (simp add: NewLifecycleService_def)
  with service_republish_tables [OF r] show ?thesis by (auto simp: r moved_refl upd)
qed

lemma run_keeps_ids:
  assumes "lifecycle_run start w" and "distinct (map art_ID (t_articles (store start)))"
  shows "list_all2 art_moved (t_articles (store start)) (t_articles (store w))"
  using assms
proof (induction rule: lifecycle_run.induct)
  case at_start
  show ?case by (rule moved_refl)
next
  case (offline w cx p body)
  then have IH: "list_all2 art_moved (t_articles (store start)) (t_articles (store w))" by simp
  then have "distinct (map art_ID (t_articles (store w)))" using offline.prems by (simp add: moved_ids)
  from offline_moves [OF this] show ?case
    using handler_worlds(1) [of cx "NewLifecycleService True" p body w] IH by (auto intro: moved_trans)
next
  case (rectify w cx p body2)
  then show ?case
    using handler_worlds(2) [of cx "NewLifecycleService True" p body2 w] rectify_moves by (auto intro: moved_trans)
next
  case (republish w cx p body)
  then show ?case
    using handler_worlds(3) [of cx "NewLifecycleService True" p body w] republish_moves by (auto intro: moved_trans)
qed

text \<open>
  C9. However the life cycle routes are called, in any order and with any failures in between, each
  article keeps its id and organisation, and its state either stays, or becomes offline from
  online, or becomes pending audit. In particular no request puts an article online: a
  republished article goes through the audit again.
\<close>

theorem lifecycle_never_publishes:
  assumes "lifecycle_run start w" and "distinct (map art_ID (t_articles (store start)))"
  shows "list_all2 art_moved (t_articles (store start)) (t_articles (store w)) \<and>
         list_all2 (\<lambda>a b. art_State a \<noteq> ArticleStateOnline \<longrightarrow> art_State b \<noteq> ArticleStateOnline)
           (t_articles (store start)) (t_articles (store w))"
proof
  show *: "list_all2 art_moved (t_articles (store start)) (t_articles (store w))"
    using assms by (rule run_keeps_ids)
  show "list_all2 (\<lambda>a b. art_State a \<noteq> ArticleStateOnline \<longrightarrow> art_State b \<noteq> ArticleStateOnline)
           (t_articles (store start)) (t_articles (store w))"
    by (rule list_all2_mono [OF *]) (auto simp: art_moved_def)
qed

theorem lifecycle_never_publishes_witness:
  "list_all2 art_moved [ex_article_row]
     (t_articles (store (snd (article_offline_handler background (NewLifecycleService True) ''10''
        \<lparr>lb_OrgID = 0, lb_TaskID = 0, lb_ResultID = 0, lb_ActionID = 0, lb_Reason = ''''\<rparr> ex_article_world))))"
proof -
  have "lifecycle_run ex_article_world (snd (article_offline_handler background (NewLifecycleService True) ''10''
        \<lparr>lb_OrgID = 0, lb_TaskID = 0, lb_ResultID = 0, lb_ActionID = 0, lb_Reason = ''''\<rparr> ex_article_world))"
    by (intro lifecycle_run.intros)
  moreover have "distinct (map art_ID (t_articles (store ex_article_world)))" by (simp add: ex_article_world_def)
  ultimately show ?thesis
    using lifecycle_never_publishes by (fastforce simp: ex_article_world_def)
qed

end
