(* ===== verification/Actions.thy ===== *)
theory Actions
  imports Lifecycle
begin

text \<open>
  Batch actions on results (\<open>internal/modules/articleinspect/actions\<close>): the action record, taking
  the articles of results offline through the life cycle service, marking results ignored or
  processed, and the three routes.
\<close>

section \<open>Inputs and results\<close>

record BatchActionInput =
  ba_OrgID :: uint64
  ba_TaskID :: uint64
  ba_ResultIDs :: "uint64 list"
  ba_OperatorID :: uint64
  ba_OperatorName :: string
  ba_Reason :: string

record BatchActionSummary =
  bs_ActionID :: uint64
  bs_TargetCount :: int64
  bs_SuccessCount :: int64
  bs_FailCount :: int64
  bs_SkipCount :: int64
  bs_Status :: string
  bs_ActionType :: string

section \<open>Repository\<close>

record ActionRepository =
  acr_hasDB :: bool

definition NewActionRepository :: "bool \<Rightarrow> ActionRepository option" where
  "NewActionRepository hasDB = Some \<lparr>acr_hasDB = hasDB\<rparr>"

definition action_repo_ready :: "ActionRepository option \<Rightarrow> bool" where
  "action_repo_ready repo = (case repo of None \<Rightarrow> False | Some r \<Rightarrow> acr_hasDB r)"

text \<open>\<open>action_no\<close> has a unique index. The result is the stored row, which carries the new id.\<close>

definition same_action_no :: "InspectionAction \<Rightarrow> InspectionAction \<Rightarrow> bool" where
  "same_action_no a x = (act_ActionNo a = act_ActionNo x)"

definition CreateAction :: "ActionRepository option \<Rightarrow> InspectionAction option \<Rightarrow> world \<Rightarrow> InspectionAction res" where
  "CreateAction repo action w =
     (case action of
        None \<Rightarrow> (Inl (Sentinel ErrInvalidActionInput), w)
      | Some a \<Rightarrow>
          if \<not> action_repo_ready repo then (Inl (Sentinel ErrInvalidActionInput), w)
          else db_create TActions t_actions t_actions_update same_action_no
                 (\<lambda>i at. a\<lparr>act_ID := i, act_CreateAt := at, act_UpdateAt := at\<rparr>) w)"

definition UpdateActionSummary ::
    "ActionRepository option \<Rightarrow> uint64 \<Rightarrow> string \<Rightarrow> int64 \<Rightarrow> int64 \<Rightarrow> int64 \<Rightarrow> world \<Rightarrow> unit res" where
  "UpdateActionSummary repo actionID status successCount failCount skipCount w =
     (if \<not> action_repo_ready repo \<or> actionID = 0 then (Inl (Sentinel ErrInvalidActionInput), w)
      else (let (now, w) = time_now w in
            go_try (db_update t_actions t_actions_update (\<lambda>a. act_ID a = actionID)
                      (\<lambda>at a. a\<lparr>act_Status := status, act_SuccessCount := successCount, act_FailCount := failCount,
                                act_SkipCount := skipCount, act_FinishedAt := Some now, act_UpdateAt := at\<rparr>) w)
              (\<lambda>_ w. (Inr (), w))))"

definition buildActionNumber :: "instant \<Rightarrow> string" where
  "buildActionNumber now = ''action-'' @ format_number now"

section \<open>Targets\<close>

text \<open>The exchange sort of \<open>uniqueUint64s\<close>: the two loops over \<open>i\<close> and \<open>j\<close>.\<close>

definition swap_at :: "nat \<Rightarrow> nat \<Rightarrow> uint64 list \<Rightarrow> uint64 list" where
  "swap_at i j xs = xs[i := xs ! j, j := xs ! i]"

definition exchange_step :: "nat \<Rightarrow> nat \<Rightarrow> uint64 list \<Rightarrow> uint64 list" where
  "exchange_step i j xs = (if xs ! j < xs ! i then swap_at i j xs else xs)"

definition exchange_inner :: "nat \<Rightarrow> uint64 list \<Rightarrow> uint64 list" where
  "exchange_inner i xs = fold (exchange_step i) [Suc i..<length xs] xs"

definition exchange_sort :: "uint64 list \<Rightarrow> uint64 list" where
  "exchange_sort xs = fold exchange_inner [0..<length xs] xs"

definition actions_uniqueUint64s :: "uint64 list \<Rightarrow> uint64 list" where
  "actions_uniqueUint64s values = (if values = [] then [] else exchange_sort (collect_unique values []))"

section \<open>Service\<close>

text \<open>The interface \<open>ArticleLifecycle\<close> is its one method.\<close>

type_synonym article_lifecycle = "gocontext \<Rightarrow> OfflineArticleInput \<Rightarrow> world \<Rightarrow> LifecycleActionResult res"

record ActionService =
  sv_hasDB :: bool
  sv_repo :: "ActionRepository option"
  sv_newLifecycle :: "bool \<Rightarrow> article_lifecycle"

definition NewActionService ::
    "bool \<Rightarrow> ActionRepository option \<Rightarrow> (bool \<Rightarrow> article_lifecycle) option \<Rightarrow> ActionService option" where
  "NewActionService hasDB repo newLifecycle =
     Some \<lparr>sv_hasDB = hasDB, sv_repo = repo,
           sv_newLifecycle = (case newLifecycle of
              None \<Rightarrow> (\<lambda>tx cx. OfflineArticle cx (NewLifecycleService tx)) | Some f \<Rightarrow> f)\<rparr>"

definition action_snapshot :: "BatchActionInput \<Rightarrow> string \<Rightarrow> string" where
  "action_snapshot inp actionType =
     BuildSnapshot (Some (JObj (
       [(''orgid'', JUint (ba_OrgID inp))] @ omit_uint ''task_id'' (ba_TaskID inp) @
       [(''result_ids'', JArr (map JUint (ba_ResultIDs inp)))] @ omit_str ''reason'' (TrimSpace (ba_Reason inp)) @
       [(''action_type'', JStr actionType)])))"

definition action_record :: "gocontext \<Rightarrow> BatchActionInput \<Rightarrow> string \<Rightarrow> instant \<Rightarrow> InspectionAction" where
  "action_record cx inp actionType now =
     EnrichActionWithOperator cx
       \<lparr>act_ID = 0, act_OrgID = ba_OrgID inp, act_ActionNo = buildActionNumber now, act_ActionType = actionType,
        act_TaskID = ba_TaskID inp, act_BatchScope = '''', act_TargetCount = int (length (ba_ResultIDs inp)),
        act_SuccessCount = 0, act_FailCount = 0, act_SkipCount = 0, act_Status = ActionStatusRunning,
        act_Reason = TrimSpace (ba_Reason inp), act_RequestSnapshot = action_snapshot inp actionType,
        act_OperatorID = ba_OperatorID inp, act_OperatorName = TrimSpace (ba_OperatorName inp),
        act_RequestID = '''', act_SourceIP = '''', act_StartedAt = Some now, act_FinishedAt = None,
        act_CreateAt = 0, act_UpdateAt = 0\<rparr>"

definition new_summary :: "InspectionAction \<Rightarrow> BatchActionInput \<Rightarrow> BatchActionSummary" where
  "new_summary action inp =
     \<lparr>bs_ActionID = act_ID action, bs_TargetCount = int (length (ba_ResultIDs inp)), bs_SuccessCount = 0,
      bs_FailCount = 0, bs_SkipCount = 0, bs_Status = '''', bs_ActionType = act_ActionType action\<rparr>"

definition count_skip :: "BatchActionSummary \<Rightarrow> BatchActionSummary" where
  "count_skip s = s\<lparr>bs_SkipCount := bs_SkipCount s + 1\<rparr>"

definition count_fail :: "BatchActionSummary \<Rightarrow> BatchActionSummary" where
  "count_fail s = s\<lparr>bs_FailCount := bs_FailCount s + 1\<rparr>"

definition count_success :: "BatchActionSummary \<Rightarrow> BatchActionSummary" where
  "count_success s = s\<lparr>bs_SuccessCount := bs_SuccessCount s + 1\<rparr>"

definition own_result :: "uint64 \<Rightarrow> uint64 \<Rightarrow> InspectionResult \<Rightarrow> bool" where
  "own_result orgID resultID r = (res_OrgID r = orgID \<and> res_ID r = resultID)"

text \<open>The columns of the result that both kinds of action write.\<close>

definition stamp_result :: "BatchActionInput \<Rightarrow> uint64 \<Rightarrow> instant \<Rightarrow> string \<Rightarrow> instant \<Rightarrow> InspectionResult \<Rightarrow> InspectionResult" where
  "stamp_result inp actionID now disposition at r =
     r\<lparr>res_DispositionStatus := disposition, res_LatestActionID := actionID, res_LatestOperatorID := ba_OperatorID inp,
       res_LatestOperatorName := TrimSpace (ba_OperatorName inp), res_LatestActionAt := Some now, res_UpdateAt := at\<rparr>"

text \<open>One turn of the loop of \<open>BatchOffline\<close>; it never ends the transaction.\<close>

definition offline_result ::
    "gocontext \<Rightarrow> article_lifecycle \<Rightarrow> BatchActionInput \<Rightarrow> uint64 \<Rightarrow> instant \<Rightarrow> uint64 \<Rightarrow> BatchActionSummary \<Rightarrow> world \<Rightarrow>
     BatchActionSummary \<times> world" where
  "offline_result cx lifecycle inp actionID now resultID summary w =
     (case db_first t_results res_ID (own_result (ba_OrgID inp) resultID) w of
        (Inl e, w1) \<Rightarrow> if e = Sentinel ErrRecordNotFound then (count_skip summary, w1) else (count_fail summary, w1)
      | (Inr result, w1) \<Rightarrow>
          if res_DispositionStatus result = ResultDispositionOfflined then (count_skip summary, w1)
          else
            (case lifecycle cx
                    \<lparr>of_OrgID = ba_OrgID inp, of_ArticleID = res_ArticleID result,
                     of_TaskID = ResolveTaskID (ba_TaskID inp) (res_TaskID result), of_ResultID = res_ID result,
                     of_ActionID = actionID, of_OperatorID = ba_OperatorID inp,
                     of_OperatorName = ba_OperatorName inp, of_Reason = ba_Reason inp\<rparr> w1 of
               (Inl _, w2) \<Rightarrow> (count_fail summary, w2)
             | (Inr lifecycleResult, w2) \<Rightarrow>
                 (case db_update t_results t_results_update (own_result (ba_OrgID inp) (res_ID result))
                         (\<lambda>at r. (stamp_result inp actionID now ResultDispositionOfflined at r)
                                   \<lparr>res_ArticleState := lr_AfterState lifecycleResult\<rparr>) w2 of
                    (Inl _, w3) \<Rightarrow> (count_fail summary, w3)
                  | (Inr _, w3) \<Rightarrow> (count_success summary, w3))))"

fun offline_results ::
    "gocontext \<Rightarrow> article_lifecycle \<Rightarrow> BatchActionInput \<Rightarrow> uint64 \<Rightarrow> instant \<Rightarrow> uint64 list \<Rightarrow> BatchActionSummary \<Rightarrow> world \<Rightarrow>
     BatchActionSummary \<times> world" where
  "offline_results cx lifecycle inp actionID now [] summary w = (summary, w)"
| "offline_results cx lifecycle inp actionID now (resultID # rest) summary w =
     (let (summary1, w1) = offline_result cx lifecycle inp actionID now resultID summary w in
      offline_results cx lifecycle inp actionID now rest summary1 w1)"

definition batch_status :: "BatchActionSummary \<Rightarrow> string" where
  "batch_status s =
     (let st = ActionStatusSuccess;
          st1 = (if bs_FailCount s > 0 \<and> bs_SuccessCount s > 0 then TaskStatusPartialSuccess else st)
      in if bs_FailCount s > 0 \<and> bs_SuccessCount s = 0 then ActionStatusFailed else st1)"

text \<open>The end of both kinds of action: the status and the counts are written to the action.\<close>

definition close_action :: "ActionRepository option \<Rightarrow> uint64 \<Rightarrow> BatchActionSummary \<Rightarrow> world \<Rightarrow> BatchActionSummary res" where
  "close_action repo actionID summary w =
     (let s = summary\<lparr>bs_Status := batch_status summary\<rparr> in
      go_try (UpdateActionSummary repo actionID (bs_Status s) (bs_SuccessCount s) (bs_FailCount s) (bs_SkipCount s) w)
        (\<lambda>_ w. (Inr s, w)))"

definition action_service_ready :: "ActionService option \<Rightarrow> BatchActionInput \<Rightarrow> bool" where
  "action_service_ready service inp =
     (case service of
        None \<Rightarrow> False
      | Some s \<Rightarrow> sv_hasDB s \<and> \<not> Option.is_none (sv_repo s) \<and> ba_OrgID inp \<noteq> 0 \<and> ba_ResultIDs inp \<noteq> [])"

definition BatchOffline ::
    "gocontext \<Rightarrow> ActionService option \<Rightarrow> BatchActionInput \<Rightarrow> world \<Rightarrow> BatchActionSummary res" where
  "BatchOffline cx service inp w =
     (if \<not> action_service_ready service inp then (Inl (Sentinel ErrInvalidActionInput), w)
      else
        (let s = the service; (now, w) = time_now w in
         go_try (CreateAction (sv_repo s) (Some (action_record cx inp ActionTypeOffline now)) w) (\<lambda>action w.
         go_try (db_transaction (\<lambda>w.
                   (let (summary, w) = offline_results cx (sv_newLifecycle s True) inp (act_ID action) now
                                         (actions_uniqueUint64s (ba_ResultIDs inp)) (new_summary action inp) w
                    in (Inr summary, w))) w) (\<lambda>summary.
           close_action (sv_repo s) (act_ID action) summary))))"

definition disposition_snapshot :: "BatchActionInput \<Rightarrow> uint64 \<Rightarrow> InspectionResult \<Rightarrow> string \<Rightarrow> string \<Rightarrow> string" where
  "disposition_snapshot inp actionID result actionType status =
     BuildSnapshot (Some (JObj (
       [(''orgid'', JUint (ba_OrgID inp))] @ omit_uint ''task_id'' (ResolveTaskID (ba_TaskID inp) (res_TaskID result)) @
       omit_uint ''action_id'' actionID @ omit_uint ''result_id'' (res_ID result) @
       [(''result_ids'', JArr (map JUint (ba_ResultIDs inp)))] @ omit_uint ''article_id'' (res_ArticleID result) @
       [(''operation_type'', JStr actionType), (''status'', JStr status)] @
       omit_str ''reason'' (TrimSpace (ba_Reason inp)))))"

definition disposition_log ::
    "gocontext \<Rightarrow> BatchActionInput \<Rightarrow> uint64 \<Rightarrow> InspectionResult \<Rightarrow> string \<Rightarrow> string \<Rightarrow> string \<Rightarrow> InspectionOperationLog" where
  "disposition_log cx inp actionID result actionType targetDisposition status =
     (let taskID = ResolveTaskID (ba_TaskID inp) (res_TaskID result) in
      EnrichOperationLogWithOperator cx
        \<lparr>log_ID = 0, log_OrgID = ba_OrgID inp, log_ActionID = actionID, log_TaskID = taskID, log_ResultID = res_ID result,
         log_ArticleID = res_ArticleID result, log_OperationType = actionType,
         log_BeforeState = res_DispositionStatus result, log_AfterState = targetDisposition, log_Status = status,
         log_Reason = ba_Reason inp,
         log_Summary = BuildOperationLogSummary actionType status (res_DispositionStatus result) targetDisposition
                         (ba_Reason inp) taskID (res_ArticleID result) (res_ID result),
         log_RequestSnapshot = disposition_snapshot inp actionID result actionType status,
         log_OperatorID = ba_OperatorID inp, log_OperatorName = TrimSpace (ba_OperatorName inp),
         log_RequestID = '''', log_SourceIP = '''', log_CreateAt = 0, log_UpdateAt = 0\<rparr>)"

text \<open>One turn of the loop of \<open>applyDisposition\<close>; a log entry that cannot be written ends the transaction.\<close>

definition dispose_result ::
    "gocontext \<Rightarrow> BatchActionInput \<Rightarrow> string \<Rightarrow> string \<Rightarrow> uint64 \<Rightarrow> instant \<Rightarrow> uint64 \<Rightarrow> BatchActionSummary \<Rightarrow> world \<Rightarrow>
     BatchActionSummary res" where
  "dispose_result cx inp actionType targetDisposition actionID now resultID summary w =
     (case db_first t_results res_ID (own_result (ba_OrgID inp) resultID) w of
        (Inl e, w1) \<Rightarrow>
          (Inr (if e = Sentinel ErrRecordNotFound then count_skip summary else count_fail summary), w1)
      | (Inr result, w1) \<Rightarrow>
          (let log = (\<lambda>status summary w.
                 go_try (CreateOperationLog (NewAuditRepository True)
                           (Some (disposition_log cx inp actionID result actionType targetDisposition status)) w)
                   (\<lambda>_ w. (Inr summary, w)))
           in if res_DispositionStatus result = targetDisposition
              then log ActionStatusSkipped (count_skip summary) w1
              else
                (case db_update t_results t_results_update (own_result (ba_OrgID inp) resultID)
                        (stamp_result inp actionID now targetDisposition) w1 of
                   (Inl _, w2) \<Rightarrow> (Inr (count_fail summary), w2)
                 | (Inr _, w2) \<Rightarrow> log ActionStatusSuccess (count_success summary) w2)))"

fun dispose_results ::
    "gocontext \<Rightarrow> BatchActionInput \<Rightarrow> string \<Rightarrow> string \<Rightarrow> uint64 \<Rightarrow> instant \<Rightarrow> uint64 list \<Rightarrow> BatchActionSummary \<Rightarrow> world \<Rightarrow>
     BatchActionSummary res" where
  "dispose_results cx inp actionType targetDisposition actionID now [] summary w = (Inr summary, w)"
| "dispose_results cx inp actionType targetDisposition actionID now (resultID # rest) summary w =
     go_try (dispose_result cx inp actionType targetDisposition actionID now resultID summary w) (\<lambda>summary.
       dispose_results cx inp actionType targetDisposition actionID now rest summary)"

definition applyDisposition ::
    "gocontext \<Rightarrow> ActionService option \<Rightarrow> BatchActionInput \<Rightarrow> string \<Rightarrow> string \<Rightarrow> world \<Rightarrow> BatchActionSummary res" where
  "applyDisposition cx service inp actionType targetDisposition w =
     (if \<not> action_service_ready service inp then (Inl (Sentinel ErrInvalidActionInput), w)
      else
        (let s = the service; (now, w) = time_now w in
         go_try (CreateAction (sv_repo s) (Some (action_record cx inp actionType now)) w) (\<lambda>action w.
         go_try (db_transaction (dispose_results cx inp actionType targetDisposition (act_ID action) now
                    (actions_uniqueUint64s (ba_ResultIDs inp)) (new_summary action inp)) w) (\<lambda>summary.
           close_action (sv_repo s) (act_ID action) summary))))"

definition BatchIgnore :: "gocontext \<Rightarrow> ActionService option \<Rightarrow> BatchActionInput \<Rightarrow> world \<Rightarrow> BatchActionSummary res" where
  "BatchIgnore cx service inp = applyDisposition cx service inp ActionTypeBatchIgnore ResultDispositionIgnored"

definition BatchProcess :: "gocontext \<Rightarrow> ActionService option \<Rightarrow> BatchActionInput \<Rightarrow> world \<Rightarrow> BatchActionSummary res" where
  "BatchProcess cx service inp = applyDisposition cx service inp ActionTypeBatchProcess ResultDispositionProcessed"

section \<open>Routes\<close>

definition actions_statusFromError :: "goerr \<Rightarrow> int \<times> string" where
  "actions_statusFromError e =
     (if errors_is e ErrUnauthorized then (401, ''unauthorized'')
      else if errors_is e ErrInvalidActionInput then (400, ''invalid action input'')
      else if errors_is e ErrRecordNotFound then (404, ''resource not found'')
      else (500, ''internal server error''))"

record batchActionBody =
  bb_OrgID :: uint64
  bb_TaskID :: uint64
  bb_ResultIDs :: "uint64 list"
  bb_Reason :: string

text \<open>
  The handler that \<open>registerBatchActionRoute\<close> makes of one of the three operations, and the routes of
  \<open>RegisterActionRoutes\<close> by their paths.
\<close>

definition batch_action_handler ::
    "gocontext \<Rightarrow> (BatchActionInput \<Rightarrow> world \<Rightarrow> BatchActionSummary res) \<Rightarrow> batchActionBody \<Rightarrow> world \<Rightarrow>
     BatchActionSummary EnvelopeOutput \<times> world" where
  "batch_action_handler cx handler body w =
     or_failure actions_statusFromError (CurrentOrgID cx, w) (\<lambda>orgID w.
       if bb_ResultIDs body = [] then (FailureOKEnvelope 400 ''result_ids are required'', w)
       else
         (let operator = ResolveOperator cx in
          or_failure actions_statusFromError
            (handler \<lparr>ba_OrgID = orgID, ba_TaskID = bb_TaskID body, ba_ResultIDs = bb_ResultIDs body,
                      ba_OperatorID = op_ID operator, ba_OperatorName = op_Name operator, ba_Reason = bb_Reason body\<rparr> w)
            (\<lambda>result w. (SuccessOKEnvelope 200 ''batch action applied'' result, w))))"

definition action_route ::
    "gocontext \<Rightarrow> ActionService option \<Rightarrow> string \<Rightarrow> (batchActionBody \<Rightarrow> world \<Rightarrow> BatchActionSummary EnvelopeOutput \<times> world) option" where
  "action_route cx service path =
     (if path = ''/actions/batch-offline'' then Some (batch_action_handler cx (BatchOffline cx service))
      else if path = ''/actions/batch-ignore'' then Some (batch_action_handler cx (BatchIgnore cx service))
      else if path = ''/actions/batch-process'' then Some (batch_action_handler cx (BatchProcess cx service))
      else None)"

section \<open>The exchange sort\<close>

lemma exchange_step_facts:
  assumes "i < j" and "j < length xs"
  shows "length (exchange_step i j xs) = length xs" and "mset (exchange_step i j xs) = mset xs"
    and "take i (exchange_step i j xs) = take i xs"
    and "exchange_step i j xs ! i \<le> exchange_step i j xs ! j" and "exchange_step i j xs ! i \<le> xs ! i"
    and "\<And>k. k \<noteq> i \<Longrightarrow> k \<noteq> j \<Longrightarrow> exchange_step i j xs ! k = xs ! k"
  using assms by (auto simp: exchange_step_def swap_at_def mset_swap nth_list_update)

lemma exchange_inner_upto:
  assumes "i < length xs" and "m \<le> length xs" and "i < m"
  shows "length (fold (exchange_step i) [Suc i..<m] xs) = length xs \<and>
         mset (fold (exchange_step i) [Suc i..<m] xs) = mset xs \<and>
         take i (fold (exchange_step i) [Suc i..<m] xs) = take i xs \<and>
         (\<forall>k. i \<le> k \<and> k < m \<longrightarrow> fold (exchange_step i) [Suc i..<m] xs ! i \<le> fold (exchange_step i) [Suc i..<m] xs ! k)"
  using assms(2,3)
proof (induction m)
  case (Suc m)
  show ?case
  proof (cases "m = i")
    case False
    let ?ys = "fold (exchange_step i) [Suc i..<m] xs"
    from False Suc have m: "i < m" "m < length ?ys" by auto
    have e: "fold (exchange_step i) [Suc i..<Suc m] xs = exchange_step i m ?ys" using m(1) by simp
    note f = exchange_step_facts [OF m]
    have "exchange_step i m ?ys ! i \<le> exchange_step i m ?ys ! k" if "i \<le> k" "k < Suc m" for k
    proof (cases "k = i \<or> k = m")
      case False
      with that have "exchange_step i m ?ys ! k = ?ys ! k" "k < m" using f(6) by auto
      moreover have "?ys ! i \<le> ?ys ! k" using Suc m(1) that \<open>k < m\<close> by simp
      ultimately show ?thesis using f(5) by simp
    qed (use f(4) in auto)
    with Suc f(1-3) m(1) show ?thesis unfolding e by simp
  next
    case True
    then show ?thesis by (auto simp: less_Suc_eq_le dest: le_antisym)
  qed
qed simp

lemma exchange_inner_facts:
  assumes "i < length xs"
  shows "length (exchange_inner i xs) = length xs" and "mset (exchange_inner i xs) = mset xs"
    and "take i (exchange_inner i xs) = take i xs"
    and "\<And>k. i \<le> k \<Longrightarrow> k < length xs \<Longrightarrow> exchange_inner i xs ! i \<le> exchange_inner i xs ! k"
  using exchange_inner_upto [OF assms order_refl assms] by (auto simp: exchange_inner_def)

lemma exchange_outer_upto:
  assumes "n \<le> length xs"
  shows "length (fold exchange_inner [0..<n] xs) = length xs \<and> mset (fold exchange_inner [0..<n] xs) = mset xs \<and>
         (\<forall>a b. a < n \<and> a < b \<and> b < length xs \<longrightarrow> fold exchange_inner [0..<n] xs ! a \<le> fold exchange_inner [0..<n] xs ! b)"
  using assms
proof (induction n)
  case (Suc n)
  let ?ys = "fold exchange_inner [0..<n] xs"
  from Suc have IH: "length ?ys = length xs" "mset ?ys = mset xs"
    "\<And>a b. a < n \<Longrightarrow> a < b \<Longrightarrow> b < length xs \<Longrightarrow> ?ys ! a \<le> ?ys ! b" and n: "n < length ?ys" by auto
  have e: "fold exchange_inner [0..<Suc n] xs = exchange_inner n ?ys" by simp
  note f = exchange_inner_facts [OF n]
  have pre: "exchange_inner n ?ys ! a = ?ys ! a" if "a < n" for a
    using f(3) that by (metis nth_take)
  have "mset (take n (exchange_inner n ?ys)) + mset (drop n (exchange_inner n ?ys)) = mset (take n ?ys) + mset (drop n ?ys)"
    using f(2) by (simp flip: mset_append)
  then have post: "set (drop n (exchange_inner n ?ys)) = set (drop n ?ys)"
    by (metis f(3) add_left_cancel set_mset_mset)
  have "exchange_inner n ?ys ! a \<le> exchange_inner n ?ys ! b" if ab: "a < Suc n" "a < b" "b < length xs" for a b
  proof (cases "a = n")
    case True
    then show ?thesis using f(4) [of b] ab IH(1) by simp
  next
    case False
    with ab have a: "a < n" by simp
    show ?thesis
    proof (cases "b < n")
      case True
      then show ?thesis using IH(3) [of a b] a ab pre by simp
    next
      case False
      then have "exchange_inner n ?ys ! b \<in> set (drop n (exchange_inner n ?ys))"
        using ab f(1) IH(1) by (auto simp: in_set_conv_nth intro!: exI [of _ "b - n"])
      then obtain c where "c < length (drop n ?ys)" "drop n ?ys ! c = exchange_inner n ?ys ! b"
        unfolding post by (auto simp only: in_set_conv_nth)
      then have "n + c < length xs" "exchange_inner n ?ys ! b = ?ys ! (n + c)" using IH(1) by auto
      then show ?thesis using IH(3) [of a "n + c"] a pre by simp
    qed
  qed
  with f(1,2) IH(1,2) show ?case unfolding e by simp
qed simp

lemma exchange_sort_eq: "exchange_sort xs = sort xs"
proof (rule properties_for_sort [symmetric])
  note f = exchange_outer_upto [OF order_refl, of xs]
  from f show "mset (exchange_sort xs) = mset xs" by (simp add: exchange_sort_def)
  from f show "sorted (exchange_sort xs)" by (auto simp: exchange_sort_def sorted_iff_nth_mono_less)
qed

lemma actions_uniqueUint64s_sorted_set: "actions_uniqueUint64s ids = sorted_list_of_set (set ids - {0})"
proof -
  have "distinct (collect_unique ids [])" "set (collect_unique ids []) = set ids - {0}"
    using collect_unique_facts [of "[]" ids] by auto
  then have "sort (collect_unique ids []) = sorted_list_of_set (set ids - {0})"
    by (metis sorted_list_of_set_sort_remdups distinct_remdups_id)
  then show ?thesis by (auto simp: actions_uniqueUint64s_def exchange_sort_eq)
qed

text \<open>
  C23. The targets of a batch are the identifiers of the request without zero and without repetitions, in
  ascending order: the nested loops that exchange elements in place sort them.
\<close>

theorem batch_targets_are_sorted_set: "actions_uniqueUint64s ids = sorted_list_of_set (set ids - {0})"
  by (rule actions_uniqueUint64s_sorted_set)

section \<open>Counting\<close>

definition counted :: "BatchActionSummary \<Rightarrow> int" where
  "counted s = bs_SuccessCount s + bs_FailCount s + bs_SkipCount s"

text \<open>A summary on its way: the counts are not negative, and only they change.\<close>

definition grown :: "nat \<Rightarrow> BatchActionSummary \<Rightarrow> BatchActionSummary \<Rightarrow> bool" where
  "grown n s s' =
     (counted s' = counted s + int n \<and> bs_ActionID s' = bs_ActionID s \<and> bs_TargetCount s' = bs_TargetCount s \<and>
      bs_ActionType s' = bs_ActionType s \<and> bs_SuccessCount s \<le> bs_SuccessCount s' \<and> bs_FailCount s \<le> bs_FailCount s' \<and>
      bs_SkipCount s \<le> bs_SkipCount s')"

lemma grown_count: "grown (Suc 0) s (count_skip s)" "grown (Suc 0) s (count_fail s)" "grown (Suc 0) s (count_success s)"
  by (simp_all add: grown_def counted_def count_skip_def count_fail_def count_success_def)

lemma grown_trans: "grown n s s1 \<Longrightarrow> grown m s1 s2 \<Longrightarrow> grown (n + m) s s2"
  by (simp add: grown_def)

lemma grown_refl: "grown 0 s s"
  by (simp add: grown_def)

lemma offline_result_grown: "offline_result cx lifecycle inp actionID now i s w = (s', w') \<Longrightarrow> grown (Suc 0) s s'"
  by (auto simp: offline_result_def grown_count split: prod.splits sum.splits if_splits)

lemma offline_results_grown:
  "offline_results cx lifecycle inp actionID now ids s w = (s', w') \<Longrightarrow> grown (length ids) s s'"
proof (induction ids arbitrary: s w)
  case (Cons i ids)
  obtain s1 w1 where one: "offline_result cx lifecycle inp actionID now i s w = (s1, w1)" by fastforce
  with Cons have "grown (length ids) s1 s'" by simp
  from grown_trans [OF offline_result_grown [OF one] this] show ?case by simp
qed (simp add: grown_refl)

lemma dispose_result_grown:
  "dispose_result cx inp ty target actionID now i s w = (Inr s', w') \<Longrightarrow> grown (Suc 0) s s'"
  by (auto simp: dispose_result_def Let_def go_try_Inr_iff grown_count split: prod.splits sum.splits if_splits)

lemma dispose_results_grown:
  "dispose_results cx inp ty target actionID now ids s w = (Inr s', w') \<Longrightarrow> grown (length ids) s s'"
proof (induction ids arbitrary: s w)
  case (Cons i ids)
  then obtain s1 w1 where one: "dispose_result cx inp ty target actionID now i s w = (Inr s1, w1)"
    and rest: "dispose_results cx inp ty target actionID now ids s1 w1 = (Inr s', w')" by (auto simp: go_try_Inr_iff)
  from grown_trans [OF dispose_result_grown [OF one] Cons.IH [OF rest]] show ?case by simp
qed (simp add: grown_refl)

section \<open>The contract of the life cycle\<close>

text \<open>
  \<open>BatchOffline\<close> relies on a life cycle that changes articles and the operation log only. It is
  provided by \<open>OfflineArticle\<close>.
\<close>

locale offline_provider =
  fixes lifecycle :: article_lifecycle
  assumes offline_frame: "\<exists>f g. store (snd (lifecycle cx inp w)) = t_oplogs_update f (t_articles_update g (store w))"
begin

lemma offline_keeps:
  assumes "\<And>f d. g (t_oplogs_update f d) = g d" and "\<And>f d. g (t_articles_update f d) = g d"
  shows "keeps g (lifecycle cx inp)"
proof (rule keepsI)
  fix w
  from offline_frame [of cx inp w] assms show "g (store (snd (lifecycle cx inp w))) = g (store w)" by force
qed

lemma offline_result_keeps:
  assumes "\<And>f d. g (t_oplogs_update f d) = g d" and "\<And>f d. g (t_articles_update f d) = g d"
    and "\<And>f d. g (t_results_update f d) = g d"
  shows "keeps g (offline_result cx lifecycle inp actionID now i s)"
proof (rule keepsI)
  fix w
  have q: "keeps g (db_first t_results res_ID (own_result (ba_OrgID inp) i))" by (intro frame)
  have u: "keeps g (db_update t_results t_results_update P f)" for P f by (intro frame assms(3))
  note l = offline_keeps [of g, OF assms(1,2)]
  show "g (store (snd (offline_result cx lifecycle inp actionID now i s w))) = g (store w)"
    by (auto simp: offline_result_def dest!: keepsD [OF q] keepsD [OF u] keepsD [OF l] split: prod.split sum.split)
qed

lemma offline_results_keeps:
  assumes "\<And>f d. g (t_oplogs_update f d) = g d" and "\<And>f d. g (t_articles_update f d) = g d"
    and "\<And>f d. g (t_results_update f d) = g d"
  shows "keeps g (offline_results cx lifecycle inp actionID now ids s)"
proof (induction ids arbitrary: s)
  case Nil
  show ?case by (simp add: keeps_def)
next
  case (Cons i ids)
  show ?case
  proof (rule keepsI)
    fix w
    obtain s1 w1 where one: "offline_result cx lifecycle inp actionID now i s w = (s1, w1)" by fastforce
    from keepsD [OF offline_result_keeps [of g, OF assms] one] Cons [of s1]
    show "g (store (snd (offline_results cx lifecycle inp actionID now (i # ids) s w))) = g (store w)"
      by (simp add: one keeps_def)
  qed
qed

end

lemma OfflineArticle_frame:
  "\<exists>f g. store (snd (OfflineArticle cx (NewLifecycleService True) inp w)) = t_oplogs_update f (t_articles_update g (store w))"
proof -
  obtain r w' where r: "OfflineArticle cx (NewLifecycleService True) inp w = (r, w')" by fastforce
  have id: "t_articles_update id d = d" "t_oplogs_update id d = d" for d :: db by simp_all
  show ?thesis
  proof (cases r)
    case (Inl e)
    have "store w' = t_oplogs_update id (t_articles_update id (store w))"
      using service_offline_error [OF r [unfolded Inl]] by simp
    then show ?thesis unfolding r snd_conv by blast
  next
    case (Inr x)
    show ?thesis
    proof (rule service_offline_done [OF r [unfolded Inr]], goal_cases)
      case (1 a f)
      then have "store w' = t_oplogs_update f (t_articles_update id (store w))" by simp
      then show ?case unfolding r snd_conv by blast
    next
      case (2 a f)
      then show ?case unfolding r snd_conv by blast
    qed
  qed
qed

interpretation service_offline: offline_provider "\<lambda>cx. OfflineArticle cx (NewLifecycleService True)"
  by unfold_locales (rule OfflineArticle_frame)

lemma dispose_result_keeps [frame]:
  assumes "\<And>f d. g (t_oplogs_update f d) = g d" and "\<And>f d. g (t_results_update f d) = g d"
  shows "keeps g (dispose_result cx inp ty target actionID now i s)"
proof (rule keepsI)
  fix w
  have q: "keeps g (db_first t_results res_ID (own_result (ba_OrgID inp) i))" by (intro frame)
  have u: "keeps g (db_update t_results t_results_update P f)" for P f by (intro frame assms(2))
  have l: "keeps g (CreateOperationLog repo e)" for repo e by (intro frame assms(1))
  show "g (store (snd (dispose_result cx inp ty target actionID now i s w))) = g (store w)"
    by (auto simp: dispose_result_def Let_def go_try_drop dest!: keepsD [OF q] keepsD [OF u]
        intro: keepsD [OF l, OF surjective_pairing, THEN trans] split: prod.split sum.split)
qed

lemma dispose_results_keeps [frame]:
  assumes "\<And>f d. g (t_oplogs_update f d) = g d" and "\<And>f d. g (t_results_update f d) = g d"
  shows "keeps g (dispose_results cx inp ty target actionID now ids s)"
  using assms
proof (induction ids arbitrary: s)
  case Nil
  show ?case by (simp add: keeps_def)
next
  case (Cons i ids)
  show ?case unfolding dispose_results.simps by (intro frame Cons)
qed

section \<open>Properties\<close>

text \<open>The service as the application builds it.\<close>

definition app_actions :: "ActionService option" where
  "app_actions = NewActionService True (NewActionRepository True) None"

lemma app_ready [simp]: "action_service_ready app_actions inp \<longleftrightarrow> ba_OrgID inp \<noteq> 0 \<and> ba_ResultIDs inp \<noteq> []"
  by (simp add: action_service_ready_def app_actions_def NewActionService_def NewActionRepository_def)

lemma app_repo [simp]:
  "sv_repo (the app_actions) = Some \<lparr>acr_hasDB = True\<rparr>"
  "sv_newLifecycle (the app_actions) True = (\<lambda>cx. OfflineArticle cx (NewLifecycleService True))"
  by (simp_all add: app_actions_def NewActionService_def NewActionRepository_def fun_eq_iff)

text \<open>
  Both kinds of action have the same frame: create the action, run a transaction that leaves the
  actions alone, close the action.
\<close>

definition run_action ::
    "gocontext \<Rightarrow> BatchActionInput \<Rightarrow> string \<Rightarrow> (uint64 \<Rightarrow> instant \<Rightarrow> BatchActionSummary \<Rightarrow> world \<Rightarrow> BatchActionSummary res) \<Rightarrow> world \<Rightarrow> BatchActionSummary res" where
  "run_action cx inp ty body w =
     (let (now, w) = time_now w in
      go_try (CreateAction (Some \<lparr>acr_hasDB = True\<rparr>) (Some (action_record cx inp ty now)) w) (\<lambda>action w.
        go_try (db_transaction (body (act_ID action) now (new_summary action inp)) w) (\<lambda>summary.
          close_action (Some \<lparr>acr_hasDB = True\<rparr>) (act_ID action) summary)))"

definition offline_body ::
    "gocontext \<Rightarrow> BatchActionInput \<Rightarrow> uint64 \<Rightarrow> instant \<Rightarrow> BatchActionSummary \<Rightarrow> world \<Rightarrow> BatchActionSummary res" where
  "offline_body cx inp actionID now s w =
     (let (s1, w1) = offline_results cx (\<lambda>cx. OfflineArticle cx (NewLifecycleService True)) inp actionID now
                       (actions_uniqueUint64s (ba_ResultIDs inp)) s w
      in (Inr s1, w1))"

definition dispose_body ::
    "gocontext \<Rightarrow> BatchActionInput \<Rightarrow> string \<Rightarrow> string \<Rightarrow> uint64 \<Rightarrow> instant \<Rightarrow> BatchActionSummary \<Rightarrow> world \<Rightarrow> BatchActionSummary res" where
  "dispose_body cx inp ty target actionID now =
     dispose_results cx inp ty target actionID now (actions_uniqueUint64s (ba_ResultIDs inp))"

lemma BatchOffline_run:
  "BatchOffline cx app_actions inp w =
     (if ba_OrgID inp \<noteq> 0 \<and> ba_ResultIDs inp \<noteq> [] then run_action cx inp ActionTypeOffline (offline_body cx inp) w
      else (Inl (Sentinel ErrInvalidActionInput), w))"
  unfolding BatchOffline_def run_action_def offline_body_def app_ready app_repo Let_def by simp

lemma applyDisposition_run:
  "applyDisposition cx app_actions inp ty target w =
     (if ba_OrgID inp \<noteq> 0 \<and> ba_ResultIDs inp \<noteq> [] then run_action cx inp ty (dispose_body cx inp ty target) w
      else (Inl (Sentinel ErrInvalidActionInput), w))"
  unfolding applyDisposition_def run_action_def dispose_body_def app_ready app_repo Let_def by simp

locale action_body =
  fixes body :: "uint64 \<Rightarrow> instant \<Rightarrow> BatchActionSummary \<Rightarrow> world \<Rightarrow> BatchActionSummary res"
    and n :: nat
  assumes body_keeps: "keeps t_actions (body i now s)"
    and body_counts: "body i now s w = (Inr s', w') \<Longrightarrow> grown n s s'"
begin

lemma run_Inr:
  assumes "keys_ok TActions t_actions act_ID w" and "run_action cx inp ty body w = (Inr s, w')"
  shows "\<exists>a. t_actions (store w') = t_actions (store w) @ [a] \<and> act_ID a = bs_ActionID s \<and> act_OrgID a = ba_OrgID inp \<and>
           act_ActionType a = ty \<and> act_TargetCount a = int (length (ba_ResultIDs inp)) \<and> act_Status a = bs_Status s \<and>
           act_SuccessCount a = bs_SuccessCount s \<and> act_FailCount a = bs_FailCount s \<and> act_SkipCount a = bs_SkipCount s \<and>
           act_FinishedAt a \<noteq> None"
    and "bs_Status s = batch_status s" and "counted s = int n"
    and "bs_SuccessCount s \<ge> 0" and "bs_FailCount s \<ge> 0" and "bs_SkipCount s \<ge> 0"
proof -
  define now where "now = clock w (tick w)"
  from assms(2) obtain a w1 s1 w2 where
      c: "CreateAction (Some \<lparr>acr_hasDB = True\<rparr>) (Some (action_record cx inp ty now)) (advance w) = (Inr a, w1)"
    and t: "db_transaction (body (act_ID a) now (new_summary a inp)) w1 = (Inr s1, w2)"
    and u: "close_action (Some \<lparr>acr_hasDB = True\<rparr>) (act_ID a) s1 w2 = (Inr s, w')"
    by (auto simp: run_action_def time_now_def go_try_Inr_iff now_def)
  from c have "db_create TActions t_actions t_actions_update same_action_no
      (\<lambda>i at. (action_record cx inp ty now)\<lparr>act_ID := i, act_CreateAt := at, act_UpdateAt := at\<rparr>) (advance w) = (Inr a, w1)"
    by (simp add: CreateAction_def action_repo_ready_def)
  note cr = tb_actions.create_Inr [OF this, unfolded advance_simps]
  obtain w3 where b: "body (act_ID a) now (new_summary a inp) (advance w1) = (Inr s1, w3)" and w3: "store w2 = store w3"
    using t by (rule transaction_Inr)
  have k: "t_actions (store w2) = t_actions (store w1)" using keepsD [OF body_keeps b] w3 by simp
  note g = body_counts [OF b]
  from u obtain m where
      up: "db_update t_actions t_actions_update (\<lambda>x. act_ID x = act_ID a)
             (\<lambda>at x. x\<lparr>act_Status := batch_status s1, act_SuccessCount := bs_SuccessCount s1, act_FailCount := bs_FailCount s1,
                        act_SkipCount := bs_SkipCount s1, act_FinishedAt := Some (clock w2 (tick w2)), act_UpdateAt := at\<rparr>) (advance w2) = (Inr m, w')"
    and s: "s = s1\<lparr>bs_Status := batch_status s1\<rparr>"
    by (auto simp: close_action_def UpdateActionSummary_def time_now_def go_try_Inr_iff Let_def split: if_splits)
  have fresh: "\<And>x. x \<in> set (t_actions (store w)) \<Longrightarrow> act_ID x \<noteq> act_ID a"
    using assms(1) cr(1) by (auto simp: keys_ok_def list_all_iff)
  note facts = cr(1) s g
  show "\<exists>a. t_actions (store w') = t_actions (store w) @ [a] \<and> act_ID a = bs_ActionID s \<and> act_OrgID a = ba_OrgID inp \<and>
           act_ActionType a = ty \<and> act_TargetCount a = int (length (ba_ResultIDs inp)) \<and> act_Status a = bs_Status s \<and>
           act_SuccessCount a = bs_SuccessCount s \<and> act_FailCount a = bs_FailCount s \<and> act_SkipCount a = bs_SkipCount s \<and>
           act_FinishedAt a \<noteq> None"
    unfolding tb_actions.update_Inr(1) [OF up] advance_simps k cr(2) rows_update_def
    using fresh g
    by (simp add: s cr(1) map_idI grown_def new_summary_def action_record_def EnrichActionWithOperator_def Let_def)
  show "bs_Status s = batch_status s" by (simp add: s batch_status_def)
  show "counted s = int n" "bs_SuccessCount s \<ge> 0" "bs_FailCount s \<ge> 0" "bs_SkipCount s \<ge> 0"
    using g by (simp_all add: s grown_def counted_def new_summary_def)
qed

lemma run_Inl:
  assumes "run_action cx inp ty body w = (Inl e, w')"
  shows "t_actions (store w') = t_actions (store w) \<or>
         (\<exists>a. t_actions (store w') = t_actions (store w) @ [a] \<and> act_Status a = ActionStatusRunning \<and> act_FinishedAt a = None)"
proof -
  define now where "now = clock w (tick w)"
  obtain c w1 where c: "db_create TActions t_actions t_actions_update same_action_no
      (\<lambda>i at. (action_record cx inp ty now)\<lparr>act_ID := i, act_CreateAt := at, act_UpdateAt := at\<rparr>) (advance w) = (c, w1)" by fastforce
  then have run: "go_try (c, w1) (\<lambda>action w.
        go_try (db_transaction (body (act_ID action) now (new_summary action inp)) w) (\<lambda>summary.
          close_action (Some \<lparr>acr_hasDB = True\<rparr>) (act_ID action) summary)) = (Inl e, w')"
    using assms by (simp add: run_action_def time_now_def now_def CreateAction_def action_repo_ready_def)
  show ?thesis
  proof (cases c)
    case (Inl x)
    with c run show ?thesis
      by (auto simp: db_create_def db_stmt_def Let_def split: option.splits if_splits)
  next
    case (Inr a)
    note cr = tb_actions.create_Inr [OF c [unfolded Inr], unfolded advance_simps]
    obtain q w2 where t: "db_transaction (body (act_ID a) now (new_summary a inp)) w1 = (q, w2)" by fastforce
    have keep: "t_actions (store w2) = t_actions (store w1)"
      using keepsD [OF keeps_transaction [OF body_keeps] t] .
    have "t_actions (store w') = t_actions (store w2)"
    proof (cases q)
      case (Inl x)
      with run Inr t show ?thesis by simp
    next
      case (Inr s1)
      with run \<open>c = Inr a\<close> t have "close_action (Some \<lparr>acr_hasDB = True\<rparr>) (act_ID a) s1 w2 = (Inl e, w')" by simp
      then show ?thesis
        by (auto simp: close_action_def UpdateActionSummary_def time_now_def go_try_Inl_iff Let_def
            dest!: db_update_Inl split: if_splits)
    qed
    with keep cr(2) have "t_actions (store w') = t_actions (store w) @ [a]" by simp
    moreover have "act_Status a = ActionStatusRunning \<and> act_FinishedAt a = None"
      by (simp add: cr(1) action_record_def EnrichActionWithOperator_def Let_def)
    ultimately show ?thesis by blast
  qed
qed

end

lemma targets_length: "length (actions_uniqueUint64s ids) = card (set ids - {0})"
  by (simp add: actions_uniqueUint64s_sorted_set)

interpretation offlining: action_body "offline_body cx inp" "card (set (ba_ResultIDs inp) - {0})" for cx inp
proof
  fix i now s w s' w'
  have "keeps t_actions (offline_results cx (\<lambda>cx. OfflineArticle cx (NewLifecycleService True)) inp i now ids s)" for ids
    by (rule service_offline.offline_results_keeps) simp_all
  then show "keeps t_actions (offline_body cx inp i now s)"
    by (auto simp: offline_body_def keeps_def split: prod.split) (metis snd_conv)
  show "grown (card (set (ba_ResultIDs inp) - {0})) s s'" if "offline_body cx inp i now s w = (Inr s', w')"
    using that offline_results_grown by (fastforce simp: offline_body_def simp flip: targets_length split: prod.splits)
qed

interpretation disposing: action_body "dispose_body cx inp ty target" "card (set (ba_ResultIDs inp) - {0})" for cx inp ty target
proof
  fix i now s w s' w'
  show "keeps t_actions (dispose_body cx inp ty target i now s)"
    unfolding dispose_body_def by (intro frame) simp_all
  show "grown (card (set (ba_ResultIDs inp) - {0})) s s'" if "dispose_body cx inp ty target i now s w = (Inr s', w')"
    using dispose_results_grown that unfolding dispose_body_def targets_length [symmetric] by blast
qed

text \<open>What a batch that marks results does to a row.\<close>

definition selected :: "uint64 \<Rightarrow> uint64 set \<Rightarrow> InspectionResult \<Rightarrow> bool" where
  "selected orgID ids r = (res_OrgID r = orgID \<and> res_ID r \<in> ids)"

definition disposed :: "uint64 \<Rightarrow> string \<Rightarrow> uint64 set \<Rightarrow> InspectionResult \<Rightarrow> InspectionResult \<Rightarrow> bool" where
  "disposed orgID target ids r r' =
     (res_ID r' = res_ID r \<and> res_OrgID r' = res_OrgID r \<and> res_TaskID r' = res_TaskID r \<and> res_ArticleID r' = res_ArticleID r \<and>
      (if selected orgID ids r then res_DispositionStatus r' = target else r' = r))"

lemma disposed_refl: "selected orgID ids r \<Longrightarrow> res_DispositionStatus r = target \<Longrightarrow> disposed orgID target ids r r"
  by (simp add: disposed_def)

lemma disposed_insert:
  assumes "disposed orgID target {i} r r'" and "disposed orgID target ids r' r''" and "i \<notin> ids"
  shows "disposed orgID target (insert i ids) r r''"
  using assms by (auto simp: disposed_def selected_def split: if_splits)

lemma disposed_ids: "list_all2 (disposed orgID target ids) rs rs' \<Longrightarrow> map res_ID rs' = map res_ID rs"
  by (induction rule: list_all2_induct) (simp_all add: disposed_def)

lemma disposed_count:
  assumes "list_all2 (disposed orgID target {i}) rs rs'" and "i \<notin> ids"
  shows "length (filter (\<lambda>r. selected orgID ids r \<and> Q (res_DispositionStatus r)) rs') =
         length (filter (\<lambda>r. selected orgID ids r \<and> Q (res_DispositionStatus r)) rs)"
  using assms(1)
proof (induction rule: list_all2_induct)
  case (Cons r rs r' rs')
  then show ?case using assms(2) by (auto simp: disposed_def selected_def split: if_splits)
qed simp

lemma count_insert:
  assumes "i \<notin> ids"
  shows "length (filter (\<lambda>r. selected orgID (insert i ids) r \<and> Q (res_DispositionStatus r)) rs) =
         length (filter (\<lambda>r. selected orgID {i} r \<and> Q (res_DispositionStatus r)) rs) +
         length (filter (\<lambda>r. selected orgID ids r \<and> Q (res_DispositionStatus r)) rs)"
  using assms by (induction rs) (auto simp: selected_def)

lemma own_result_selected: "own_result orgID i = selected orgID {i}"
  by (simp add: fun_eq_iff own_result_def selected_def)

lemma count_one:
  assumes "distinct (map res_ID (t_results (store w)))"
  shows "length (filter (\<lambda>r. selected orgID {i} r \<and> Q (res_DispositionStatus r)) (t_results (store w))) =
     (case first_row res_ID (own_result orgID i) (t_results (store w)) of
        None \<Rightarrow> 0 | Some r \<Rightarrow> if Q (res_DispositionStatus r) then 1 else 0)"
proof (cases "first_row res_ID (own_result orgID i) (t_results (store w))")
  case None
  then have "\<And>r. r \<in> set (t_results (store w)) \<Longrightarrow> \<not> selected orgID {i} r" by (simp add: first_row_None own_result_selected)
  with None show ?thesis by (simp add: filter_empty_conv)
next
  case (Some r)
  from first_row_Some [OF this] have r: "r \<in> set (t_results (store w))" "res_OrgID r = orgID" "res_ID r = i"
    by (auto simp: own_result_def)
  have "filter (\<lambda>x. res_ID x = i) (t_results (store w)) = [r]"
    using assms r by (simp add: filter_key_unique)
  then have "filter (\<lambda>x. res_OrgID x = orgID \<and> Q (res_DispositionStatus x)) (filter (\<lambda>x. res_ID x = i) (t_results (store w))) =
      (if Q (res_DispositionStatus r) then [r] else [])" using r by simp
  then have "filter (\<lambda>x. selected orgID {i} x \<and> Q (res_DispositionStatus x)) (t_results (store w)) =
      (if Q (res_DispositionStatus r) then [r] else [])" by (simp add: selected_def conj_ac)
  with Some show ?thesis by simp
qed

lemma write_disposition_log:
  assumes "no_faults w"
  shows "\<exists>l w'. CreateOperationLog (NewAuditRepository True) (Some e) w = (Inr l, w') \<and> no_faults w' \<and>
           t_results (store w') = t_results (store w) \<and> t_oplogs (store w') = t_oplogs (store w) @ [l]"
  using assms
  by (auto simp: CreateOperationLog_def NewAuditRepository_def audit_ready_def db_create_def db_stmt_ok Let_def
      no_unique_def list_ex_iff)

lemma dispose_result_ok:
  assumes "no_faults w" and "distinct (map res_ID (t_results (store w)))"
  shows "\<exists>s' w'. dispose_result cx inp ty target actionID now i s w = (Inr s', w') \<and> no_faults w' \<and>
           list_all2 (disposed (ba_OrgID inp) target {i}) (t_results (store w)) (t_results (store w')) \<and>
           bs_FailCount s' = bs_FailCount s \<and>
           bs_SuccessCount s' = bs_SuccessCount s + int (length (filter (\<lambda>r. selected (ba_OrgID inp) {i} r \<and>
              res_DispositionStatus r \<noteq> target) (t_results (store w)))) \<and>
           length (t_oplogs (store w')) = length (t_oplogs (store w)) + length (filter (\<lambda>r. selected (ba_OrgID inp) {i} r \<and> True) (t_results (store w)))"
proof -
  let ?P = "own_result (ba_OrgID inp) i"
  note ones = count_one [OF assms(2), of "ba_OrgID inp" i "\<lambda>d. d \<noteq> target"]
    count_one [OF assms(2), of "ba_OrgID inp" i "\<lambda>_. True"]
  have same: "list_all2 (disposed orgID target {i}) rs rs"
    if "\<And>r. r \<in> set rs \<Longrightarrow> selected orgID {i} r \<Longrightarrow> res_DispositionStatus r = target" for rs orgID
    using that by (auto simp: list_all2_same disposed_def)
  show ?thesis
  proof (cases "first_row res_ID ?P (t_results (store w))")
    case None
    then have "dispose_result cx inp ty target actionID now i s w = (Inr (count_skip s), advance w)"
      using assms(1) by (simp add: dispose_result_def stmt_simps)
    moreover have "list_all2 (disposed (ba_OrgID inp) target {i}) (t_results (store w)) (t_results (store w))"
      using None by (intro same) (auto simp: first_row_None own_result_selected)
    ultimately show ?thesis using None assms(1) unfolding ones by (simp add: count_skip_def)
  next
    case (Some r)
    note r = first_row_Some [OF Some]
    have uniq: "\<And>x. x \<in> set (t_results (store w)) \<Longrightarrow> ?P x \<Longrightarrow> x = r"
      using r assms(2) by (metis distinct_map inj_onD own_result_def)
    show ?thesis
    proof (cases "res_DispositionStatus r = target")
      case True
      obtain l w' where log: "CreateOperationLog (NewAuditRepository True)
          (Some (disposition_log cx inp actionID r ty target ActionStatusSkipped)) (advance w) = (Inr l, w')"
        "no_faults w'" "t_results (store w') = t_results (store w)" "t_oplogs (store w') = t_oplogs (store w) @ [l]"
        using write_disposition_log [of "advance w"] assms(1) by fastforce
      then have "dispose_result cx inp ty target actionID now i s w = (Inr (count_skip s), w')"
        using Some True assms(1) by (simp add: dispose_result_def stmt_simps)
      moreover have "list_all2 (disposed (ba_OrgID inp) target {i}) (t_results (store w)) (t_results (store w))"
        using uniq True by (intro same) (auto simp: own_result_selected)
      ultimately show ?thesis using log Some True unfolding ones by (simp add: count_skip_def)
    next
      case False
      define v where "v = (advance (advance w))\<lparr>store := t_results_update (rows_update ?P
          (stamp_result inp actionID now target (clock w (Suc (Suc (tick w)))))) (store w)\<rparr>"
      have "no_faults v" using assms(1) by (simp add: v_def)
      from write_disposition_log [OF this] obtain l w' where log: "CreateOperationLog (NewAuditRepository True)
          (Some (disposition_log cx inp actionID r ty target ActionStatusSuccess)) v = (Inr l, w')"
        "no_faults w'" "t_results (store w') = t_results (store v)" "t_oplogs (store w') = t_oplogs (store v) @ [l]"
        by blast
      then have "dispose_result cx inp ty target actionID now i s w = (Inr (count_success s), w')"
        using Some False assms(1) by (simp add: dispose_result_def stmt_simps v_def)
      moreover have "list_all2 (disposed (ba_OrgID inp) target {i}) (t_results (store w)) (t_results (store v))"
        by (auto simp: v_def rows_update_def list_all2_conv_all_nth disposed_def own_result_selected stamp_result_def)
      ultimately show ?thesis using log Some False unfolding ones by (simp add: count_success_def v_def)
    qed
  qed
qed

lemma dispose_results_ok:
  assumes "no_faults w" and "distinct (map res_ID (t_results (store w)))" and "distinct ids"
  shows "\<exists>s' w'. dispose_results cx inp ty target actionID now ids s w = (Inr s', w') \<and> no_faults w' \<and>
           list_all2 (disposed (ba_OrgID inp) target (set ids)) (t_results (store w)) (t_results (store w')) \<and>
           bs_FailCount s' = bs_FailCount s \<and>
           bs_SuccessCount s' = bs_SuccessCount s + int (length (filter (\<lambda>r. selected (ba_OrgID inp) (set ids) r \<and>
              res_DispositionStatus r \<noteq> target) (t_results (store w)))) \<and>
           length (t_oplogs (store w')) = length (t_oplogs (store w)) + length (filter (\<lambda>r. selected (ba_OrgID inp) (set ids) r \<and> True) (t_results (store w)))"
  using assms
proof (induction ids arbitrary: s w)
  case Nil
  have "list_all2 (disposed (ba_OrgID inp) target {}) rs rs" for rs
    by (simp add: list_all2_same disposed_def selected_def)
  with Nil show ?case by (simp add: selected_def)
next
  case (Cons i ids)
  from dispose_result_ok [OF Cons.prems(1,2)] obtain s1 w1 where
      one: "dispose_result cx inp ty target actionID now i s w = (Inr s1, w1)" and nf: "no_faults w1"
    and d1: "list_all2 (disposed (ba_OrgID inp) target {i}) (t_results (store w)) (t_results (store w1))"
    and c1: "bs_FailCount s1 = bs_FailCount s" "bs_SuccessCount s1 = bs_SuccessCount s + int (length (filter (\<lambda>r. selected (ba_OrgID inp) {i} r \<and>
              res_DispositionStatus r \<noteq> target) (t_results (store w))))"
      "length (t_oplogs (store w1)) = length (t_oplogs (store w)) + length (filter (\<lambda>r. selected (ba_OrgID inp) {i} r \<and> True) (t_results (store w)))"
    by blast
  have dist: "distinct (map res_ID (t_results (store w1)))" "distinct ids"
    using disposed_ids [OF d1] Cons.prems(2,3) by simp_all
  from Cons.IH [OF nf dist, of s1] obtain s2 w2 where
      rest: "dispose_results cx inp ty target actionID now ids s1 w1 = (Inr s2, w2)" "no_faults w2"
    and d2: "list_all2 (disposed (ba_OrgID inp) target (set ids)) (t_results (store w1)) (t_results (store w2))"
    and c2: "bs_FailCount s2 = bs_FailCount s1" "bs_SuccessCount s2 = bs_SuccessCount s1 + int (length (filter (\<lambda>r. selected (ba_OrgID inp) (set ids) r \<and>
              res_DispositionStatus r \<noteq> target) (t_results (store w1))))"
      "length (t_oplogs (store w2)) = length (t_oplogs (store w1)) + length (filter (\<lambda>r. selected (ba_OrgID inp) (set ids) r \<and> True) (t_results (store w1)))"
    by blast
  have i: "i \<notin> set ids" using Cons.prems(3) by simp
  have "list_all2 (disposed (ba_OrgID inp) target (insert i (set ids))) (t_results (store w)) (t_results (store w2))"
    using d1 d2 by (rule list_all2_trans [rotated]) (rule disposed_insert [OF _ _ i])
  then show ?case
    using one rest c1 c2
      disposed_count [OF d1 i, of "\<lambda>d. d \<noteq> target"] disposed_count [OF d1 i, of "\<lambda>_. True"]
      count_insert [OF i, of "ba_OrgID inp" "\<lambda>d. d \<noteq> target"] count_insert [OF i, of "ba_OrgID inp" "\<lambda>_. True"]
    by simp
qed

lemma run_dispose_ok:
  assumes "no_faults w" and "distinct (map res_ID (t_results (store w)))"
    and "list_all (\<lambda>a. act_ActionNo a \<noteq> buildActionNumber (clock w (tick w))) (t_actions (store w))"
  shows "\<exists>s w'. run_action cx inp ty (dispose_body cx inp ty target) w = (Inr s, w') \<and>
           list_all2 (disposed (ba_OrgID inp) target (set (ba_ResultIDs inp) - {0})) (t_results (store w)) (t_results (store w')) \<and>
           bs_FailCount s = 0 \<and>
           bs_SuccessCount s = int (length (filter (\<lambda>r. selected (ba_OrgID inp) (set (ba_ResultIDs inp) - {0}) r \<and>
              res_DispositionStatus r \<noteq> target) (t_results (store w)))) \<and>
           length (t_oplogs (store w')) = length (t_oplogs (store w)) +
             length (filter (\<lambda>r. selected (ba_OrgID inp) (set (ba_ResultIDs inp) - {0}) r \<and> True) (t_results (store w)))"
proof -
  define now where "now = clock w (tick w)"
  have no: "act_ActionNo (action_record cx inp ty now) = buildActionNumber now"
    by (simp add: action_record_def EnrichActionWithOperator_def Let_def)
  have "\<exists>a w1. CreateAction (Some \<lparr>acr_hasDB = True\<rparr>) (Some (action_record cx inp ty now)) (advance w) = (Inr a, w1) \<and>
      no_faults w1 \<and> t_results (store w1) = t_results (store w) \<and> t_oplogs (store w1) = t_oplogs (store w) \<and>
      act_ID a \<noteq> 0"
    using assms(1,3) no
    by (auto simp: CreateAction_def action_repo_ready_def db_create_def db_stmt_ok Let_def same_action_no_def
        list_ex_iff list_all_iff now_def)
  then obtain a w1 where c: "CreateAction (Some \<lparr>acr_hasDB = True\<rparr>) (Some (action_record cx inp ty now)) (advance w) = (Inr a, w1)"
    "no_faults w1" "t_results (store w1) = t_results (store w)" "t_oplogs (store w1) = t_oplogs (store w)" "act_ID a \<noteq> 0"
    by blast
  have ids: "distinct (actions_uniqueUint64s (ba_ResultIDs inp))"
    "set (actions_uniqueUint64s (ba_ResultIDs inp)) = set (ba_ResultIDs inp) - {0}"
    by (simp_all add: actions_uniqueUint64s_sorted_set)
  have "no_faults (advance w1)" "distinct (map res_ID (t_results (store (advance w1))))" using c assms(2) by simp_all
  from dispose_results_ok [OF this ids(1), of cx inp ty target "act_ID a" now "new_summary a inp"]
  obtain s1 w2 where b: "dispose_body cx inp ty target (act_ID a) now (new_summary a inp) (advance w1) = (Inr s1, w2)"
    and nf: "no_faults w2"
    and d: "list_all2 (disposed (ba_OrgID inp) target (set (ba_ResultIDs inp) - {0})) (t_results (store w)) (t_results (store w2))"
      "bs_FailCount s1 = 0"
      "bs_SuccessCount s1 = int (length (filter (\<lambda>r. selected (ba_OrgID inp) (set (ba_ResultIDs inp) - {0}) r \<and>
              res_DispositionStatus r \<noteq> target) (t_results (store w))))"
      "length (t_oplogs (store w2)) = length (t_oplogs (store w)) +
             length (filter (\<lambda>r. selected (ba_OrgID inp) (set (ba_ResultIDs inp) - {0}) r \<and> True) (t_results (store w)))"
    unfolding dispose_body_def ids(2) advance_simps c(3,4) by (auto simp: new_summary_def)
  have "db_transaction (dispose_body cx inp ty target (act_ID a) now (new_summary a inp)) w1 = (Inr s1, advance w2)"
    using b nf c(2) by (simp add: db_transaction_def db_stmt_ok)
  moreover have "\<exists>w3. close_action (Some \<lparr>acr_hasDB = True\<rparr>) (act_ID a) s1 (advance w2) = (Inr (s1\<lparr>bs_Status := batch_status s1\<rparr>), w3) \<and>
      t_results (store w3) = t_results (store w2) \<and> t_oplogs (store w3) = t_oplogs (store w2)"
    using nf c(5) by (simp add: close_action_def UpdateActionSummary_def action_repo_ready_def time_now_def stmt_simps)
  ultimately show ?thesis using c(1) d
    by (auto simp: run_action_def time_now_def now_def [symmetric])
qed

text \<open>
  C24. When no statement fails, marking results ends with a summary without failures: exactly the results
  of the organisation that the request names get the target disposition, every other result
  stays as it was, the successes are the results that did not have the disposition before, and
  every named result that exists gets one log entry.
\<close>

theorem disposition_applied:
  assumes "no_faults w" and "distinct (map res_ID (t_results (store w)))"
    and "list_all (\<lambda>a. act_ActionNo a \<noteq> buildActionNumber (clock w (tick w))) (t_actions (store w))"
    and "ba_OrgID inp \<noteq> 0" and "ba_ResultIDs inp \<noteq> []"
  shows "\<exists>s w'. applyDisposition cx app_actions inp ty target w = (Inr s, w') \<and>
           list_all2 (disposed (ba_OrgID inp) target (set (ba_ResultIDs inp) - {0})) (t_results (store w)) (t_results (store w')) \<and>
           bs_FailCount s = 0 \<and>
           bs_SuccessCount s = int (length (filter (\<lambda>r. selected (ba_OrgID inp) (set (ba_ResultIDs inp) - {0}) r \<and>
              res_DispositionStatus r \<noteq> target) (t_results (store w)))) \<and>
           length (t_oplogs (store w')) = length (t_oplogs (store w)) +
             length (filter (selected (ba_OrgID inp) (set (ba_ResultIDs inp) - {0})) (t_results (store w)))"
  using run_dispose_ok [OF assms(1-3), of cx inp ty target] assms(4,5) by (simp add: applyDisposition_run)

definition ex_result_row :: InspectionResult where
  "ex_result_row = \<lparr>res_ID = 5, res_OrgID = 100, res_TaskID = 3, res_ArticleID = 10, res_ArticleTitle = ''t'', res_ArticleState = 9,
     res_PublishAtTime = None, res_RiskLevel = ''high'', res_SuggestAction = ''ignore'', res_HitFieldsCount = 1,
     res_HitKeywordsCount = 1, res_HitCount = 1, res_DispositionStatus = ''pending'', res_LatestActionID = 0,
     res_LatestOperatorID = 0, res_LatestOperatorName = '''', res_LatestActionAt = None, res_CreateAt = 0, res_UpdateAt = 0\<rparr>"

definition ex_batch :: BatchActionInput where
  "ex_batch = \<lparr>ba_OrgID = 100, ba_TaskID = 0, ba_ResultIDs = [5, 0, 5, 6], ba_OperatorID = 7, ba_OperatorName = '''', ba_Reason = ''''\<rparr>"

definition ex_batch_world :: world where
  "ex_batch_world = calm_world (empty_db\<lparr>t_results := [ex_result_row]\<rparr>)"

lemma ex_batch_world_facts:
  "no_faults ex_batch_world" "distinct (map res_ID (t_results (store ex_batch_world)))"
  "list_all (\<lambda>a. act_ActionNo a \<noteq> buildActionNumber (clock ex_batch_world (tick ex_batch_world))) (t_actions (store ex_batch_world))"
  "ba_OrgID ex_batch \<noteq> 0" "ba_ResultIDs ex_batch \<noteq> []"
  by (simp_all add: ex_batch_world_def ex_batch_def)

theorem disposition_applied_witness:
  "\<exists>s w'. applyDisposition background app_actions ex_batch ''batch_ignore'' ''ignored'' ex_batch_world = (Inr s, w') \<and>
     map res_DispositionStatus (t_results (store w')) = [''ignored''] \<and> bs_SuccessCount s = 1 \<and> length (t_oplogs (store w')) = 1"
  using disposition_applied [OF ex_batch_world_facts, of background "''batch_ignore''" "''ignored''"]
  by (auto simp: ex_batch_world_def ex_batch_def ex_result_row_def selected_def disposed_def list_all2_Cons1)

text \<open>
  C25. Whatever the database does, a batch that answers with a summary has counted every target once:
  successes, failures and skips add up to the number of distinct non-zero identifiers. The
  status is failed or partly successful just when there were failures, without or with
  successes, and the action is stored as finished with the same status and counts.
\<close>

theorem batch_counts_add_up:
  assumes "keys_ok TActions t_actions act_ID w"
    and "BatchOffline cx app_actions inp w = (Inr s, w') \<or> applyDisposition cx app_actions inp ty target w = (Inr s, w')"
  shows "bs_SuccessCount s + bs_FailCount s + bs_SkipCount s = int (card (set (ba_ResultIDs inp) - {0})) \<and>
         0 \<le> bs_SuccessCount s \<and> 0 \<le> bs_FailCount s \<and> 0 \<le> bs_SkipCount s \<and>
         bs_Status s = (if bs_FailCount s = 0 then ActionStatusSuccess
                        else if bs_SuccessCount s = 0 then ActionStatusFailed else TaskStatusPartialSuccess) \<and>
         (\<exists>a. t_actions (store w') = t_actions (store w) @ [a] \<and> act_ID a = bs_ActionID s \<and> act_OrgID a = ba_OrgID inp \<and>
           act_TargetCount a = int (length (ba_ResultIDs inp)) \<and> act_Status a = bs_Status s \<and>
           act_SuccessCount a = bs_SuccessCount s \<and> act_FailCount a = bs_FailCount s \<and> act_SkipCount a = bs_SkipCount s \<and>
           act_FinishedAt a \<noteq> None)"
proof -
  from assms(2) consider "run_action cx inp ActionTypeOffline (offline_body cx inp) w = (Inr s, w')"
    | "run_action cx inp ty (dispose_body cx inp ty target) w = (Inr s, w')"
    by (auto simp: BatchOffline_run applyDisposition_run split: if_splits)
  then show ?thesis
  proof cases
    case 1
    from offlining.run_Inr [OF assms(1) this] show ?thesis by (auto simp: counted_def batch_status_def Let_def)
  next
    case 2
    from disposing.run_Inr [OF assms(1) this] show ?thesis by (auto simp: counted_def batch_status_def Let_def)
  qed
qed

theorem batch_counts_add_up_witness:
  "\<exists>s w'. applyDisposition background app_actions ex_batch ''batch_ignore'' ''ignored'' ex_batch_world = (Inr s, w') \<and>
     bs_SuccessCount s + bs_FailCount s + bs_SkipCount s = 2"
proof -
  obtain s w' where run: "run_action background ex_batch ''batch_ignore''
      (dispose_body background ex_batch ''batch_ignore'' ''ignored'') ex_batch_world = (Inr s, w')"
    using run_dispose_ok [OF ex_batch_world_facts(1-3)] by blast
  then have app: "applyDisposition background app_actions ex_batch ''batch_ignore'' ''ignored'' ex_batch_world = (Inr s, w')"
    using ex_batch_world_facts(4,5) by (simp add: applyDisposition_run)
  have "keys_ok TActions t_actions act_ID ex_batch_world" by (simp add: keys_ok_def ex_batch_world_def)
  note counts = batch_counts_add_up [OF this disjI2 [OF app]]
  have "set (ba_ResultIDs ex_batch) - {0} = {5, 6}" by (auto simp: ex_batch_def)
  with counts app show ?thesis by auto
qed




end
