(* ===== verification/GoFloat.thy ===== *)
theory GoFloat
  imports GoJson
begin

text \<open>
  JSON values as \<open>encoding/json\<close> decodes them into an interface: numbers become \<open>float64\<close>,
  rounded to the nearest value with ties to even. A float is a sign, a mantissa and a
  power of two. Formatting a float with the shortest text that reads back, and the
  conversion of a float beyond the range of \<open>uint64\<close>, which Go leaves to the platform, are
  the fields of \<open>float_env\<close>.
\<close>

section \<open>Floats\<close>

record float64 =
  fl_neg :: bool
  fl_mant :: nat
  fl_exp :: int

record float_env =
  fe_text :: "float64 \<Rightarrow> string"
  fe_big_uint64 :: "float64 \<Rightarrow> uint64"

fun bit_len :: "nat \<Rightarrow> nat" where
  "bit_len n = (if n = 0 then 0 else Suc (bit_len (n div 2)))"

declare bit_len.simps [simp del]

definition round_even :: "nat \<Rightarrow> nat \<Rightarrow> nat" where
  "round_even n d =
     (let q = n div d; r = n mod d in
      if 2 * r < d then q else if 2 * r > d then Suc q else if even q then q else Suc q)"

text \<open>The fraction \<open>n / (d * 2 ^ k)\<close>.\<close>

definition scaled :: "nat \<Rightarrow> nat \<Rightarrow> int \<Rightarrow> nat \<times> nat" where
  "scaled n d k = (if k \<ge> 0 then (n, d * 2 ^ nat k) else (n * 2 ^ nat (- k), d))"

text \<open>The float nearest to \<open>n / d\<close>; \<open>None\<close> when it is beyond the largest finite one.\<close>

definition float_of_ratio :: "bool \<Rightarrow> nat \<Rightarrow> nat \<Rightarrow> float64 option" where
  "float_of_ratio neg n d =
     (if n = 0 then Some \<lparr>fl_neg = neg, fl_mant = 0, fl_exp = 0\<rparr>
      else
        (let k0 = int (bit_len n) - int (bit_len d) - 53;
             (n0, d0) = scaled n d k0;
             k = max (-1074) (if n0 div d0 \<ge> 2 ^ 53 then k0 + 1 else k0);
             (n1, d1) = scaled n d k;
             m = round_even n1 d1
         in if k \<ge> 0 \<and> m * 2 ^ nat k \<ge> 2 ^ 1024 then None
            else Some \<lparr>fl_neg = neg, fl_mant = m, fl_exp = k\<rparr>))"

text \<open>The parts of a number literal: sign, integer digits, fraction digits, exponent.\<close>

definition literal_parts :: "string \<Rightarrow> bool \<times> string \<times> string \<times> int" where
  "literal_parts l =
     (let (neg, s1) = (case l of c # cs \<Rightarrow> if c = CHR ''-'' then (True, cs) else (False, l) | [] \<Rightarrow> (False, l));
          (i, s2) = take_digits s1;
          (f, s3) = (case s2 of c # cs \<Rightarrow> if c = CHR ''.'' then take_digits cs else ([], s2) | [] \<Rightarrow> ([], s2));
          e = (case s3 of [] \<Rightarrow> 0 | c # cs \<Rightarrow> (case signed_val cs of None \<Rightarrow> 0 | Some v \<Rightarrow> v))
      in (neg, i, f, e))"

definition float_of_literal :: "string \<Rightarrow> float64 option" where
  "float_of_literal l =
     (let (neg, i, f, e) = literal_parts l;
          v = digits_val (i @ f);
          x = e - int (length f)
      in if x \<ge> 0 then float_of_ratio neg (v * 10 ^ nat x) 1 else float_of_ratio neg v (10 ^ nat (- x)))"

text \<open>Towards zero, as a conversion to an integer does.\<close>

definition float_trunc :: "float64 \<Rightarrow> nat" where
  "float_trunc x = (if fl_exp x \<ge> 0 then fl_mant x * 2 ^ nat (fl_exp x) else fl_mant x div 2 ^ nat (- fl_exp x))"

definition float_negative :: "float64 \<Rightarrow> bool" where
  "float_negative x = (fl_neg x \<and> fl_mant x \<noteq> 0)"

definition uint64_of_float :: "float_env \<Rightarrow> float64 \<Rightarrow> uint64" where
  "uint64_of_float fe x = (if float_trunc x < 2 ^ 64 then float_trunc x else fe_big_uint64 fe x)"

section \<open>Values behind an interface\<close>

datatype any_value =
    UInt64V uint64
  | UInt32V uint64
  | UIntV uint64
  | IntV int
  | Int64V int
  | FloatV float64
  | StringV string
  | BoolV bool
  | NilV
  | SliceV "any_value list"
  | MapV "(string \<times> any_value) list"

fun any_of_json :: "json \<Rightarrow> any_value option"
  and any_of_elems :: "json list \<Rightarrow> any_value list option"
  and any_of_fields :: "(string \<times> json) list \<Rightarrow> (string \<times> any_value) list option" where
  "any_of_json JNull = Some NilV"
| "any_of_json (JBool b) = Some (BoolV b)"
| "any_of_json (JNum l) = map_option FloatV (float_of_literal l)"
| "any_of_json (JStr s) = Some (StringV s)"
| "any_of_json (JArr js) = map_option SliceV (any_of_elems js)"
| "any_of_json (JObj kvs) = map_option MapV (any_of_fields kvs)"
| "any_of_elems [] = Some []"
| "any_of_elems (j # js) =
     (case any_of_json j of None \<Rightarrow> None | Some v \<Rightarrow> map_option ((#) v) (any_of_elems js))"
| "any_of_fields [] = Some []"
| "any_of_fields ((k, j) # kvs) =
     (case any_of_json j of None \<Rightarrow> None | Some v \<Rightarrow> map_option ((#) (k, v)) (any_of_fields kvs))"

text \<open>The entry of a decoded map: of equal keys the last one wins.\<close>

definition map_entry :: "(string \<times> 'v) list \<Rightarrow> string \<Rightarrow> 'v option" where
  "map_entry kvs k = map_of (rev kvs) k"

text \<open>\<open>fmt.Sprint\<close>; a map is printed in the order of its keys.\<close>

fun join_space :: "string list \<Rightarrow> string" where
  "join_space [] = []"
| "join_space [s] = s"
| "join_space (s # t # ss) = s @ '' '' @ join_space (t # ss)"

fun Sprint :: "float_env \<Rightarrow> any_value \<Rightarrow> string" where
  "Sprint fe (UInt64V n) = nat_str n"
| "Sprint fe (UInt32V n) = nat_str n"
| "Sprint fe (UIntV n) = nat_str n"
| "Sprint fe (IntV i) = Itoa i"
| "Sprint fe (Int64V i) = Itoa i"
| "Sprint fe (FloatV x) = fe_text fe x"
| "Sprint fe (StringV s) = s"
| "Sprint fe (BoolV b) = (if b then ''true'' else ''false'')"
| "Sprint fe NilV = ''<nil>''"
| "Sprint fe (SliceV vs) = ''['' @ join_space (map (Sprint fe) vs) @ '']''"
| "Sprint fe (MapV kvs) =
     (let texts = map (\<lambda>(k, v). (k, Sprint fe v)) kvs in
      ''map['' @ join_space (map (\<lambda>k. k @ '':'' @ (case map_entry texts k of None \<Rightarrow> [] | Some t \<Rightarrow> t))
        (sorted_list_of_set (set (map fst kvs)))) @ '']'')"

section \<open>Integers below 2^53 are exact\<close>

lemma bit_len_pos: "0 < n \<Longrightarrow> 0 < bit_len n"
  by (simp add: bit_len.simps)

lemma half_bounds: "x \<le> n div 2 \<Longrightarrow> n div 2 < 2 * x \<Longrightarrow> 2 * x \<le> n \<and> n < 4 * x" for x n :: nat
  by linarith

lemma bit_len_bounds: "0 < n \<Longrightarrow> 2 ^ (bit_len n - 1) \<le> n \<and> n < 2 ^ bit_len n"
proof (induction n rule: bit_len.induct)
  case (1 n)
  show ?case
  proof (cases "n div 2 = 0")
    case True
    with 1(2) have "n = 1" by auto
    then show ?thesis by (simp add: bit_len.simps)
  next
    case False
    with 1 have "2 ^ (bit_len (n div 2) - 1) \<le> n div 2" "n div 2 < 2 ^ bit_len (n div 2)" by auto
    moreover have "2 ^ bit_len (n div 2) = 2 * (2 ^ (bit_len (n div 2) - 1) :: nat)"
      using bit_len_pos [of "n div 2"] False by (metis Suc_pred' power_Suc not_gr_zero)
    moreover have "bit_len n = Suc (bit_len (n div 2))" using 1(2) by (subst bit_len.simps) simp
    ultimately show ?thesis using half_bounds [of "2 ^ (bit_len (n div 2) - 1)" n] by simp
  qed
qed

lemma round_even_1 [simp]: "round_even n (Suc 0) = n"
  by (simp add: round_even_def)

lemma float_of_small:
  assumes "n < 2 ^ 53"
  shows "\<exists>x. float_of_ratio False n 1 = Some x \<and> float_trunc x = n \<and> \<not> float_negative x"
proof (cases "n = 0")
  case True
  then show ?thesis by (simp add: float_of_ratio_def float_trunc_def float_negative_def)
next
  case False
  let ?b = "bit_len n"
  have b: "2 ^ (?b - 1) \<le> n" "n < 2 ^ ?b" "0 < ?b" using bit_len_bounds [of n] bit_len_pos [of n] False by auto
  have "2 ^ (?b - 1) < (2 :: nat) ^ 53" using b(1) assms by (rule le_less_trans)
  then have "?b - 1 < 53" by (rule power_less_imp_less_exp [rotated]) simp
  then have b53: "?b \<le> 53" by simp
  have one: "bit_len (Suc 0) = 1" by (simp add: bit_len.simps)
  have "2 ^ 53 = (2 :: nat) ^ (?b - 1) * 2 ^ (54 - ?b)" using b(3) b53 by (simp flip: power_add)
  also have "\<dots> \<le> n * 2 ^ (54 - ?b)" using b(1) by simp
  finally have big: "9007199254740992 \<le> n * 2 ^ (54 - ?b)" by simp
  have "float_of_ratio False n 1 = Some \<lparr>fl_neg = False, fl_mant = n * 2 ^ (53 - ?b), fl_exp = int ?b - 53\<rparr>"
  proof (cases "?b = 53")
    case True
    with False big assms show ?thesis by (simp add: float_of_ratio_def scaled_def one Let_def)
  next
    case ne: False
    with b53 have lt: "?b < 53" by simp
    have e: "nat (54 - int ?b) = 54 - ?b" "nat (53 - int ?b) = 53 - ?b" using lt by auto
    show ?thesis using False big lt by (simp add: float_of_ratio_def scaled_def one Let_def e)
  qed
  moreover have "nat (53 - int ?b) = 53 - ?b" using b53 by simp
  ultimately show ?thesis using b53 by (cases "?b = 53") (simp_all add: float_trunc_def float_negative_def)
qed

lemma literal_parts_nat_str: "literal_parts (nat_str n) = (False, nat_str n, [], 0)"
proof -
  obtain c cs where s: "nat_str n = c # cs" "is_digit c" using nat_str_digits [of n] by (cases "nat_str n") auto
  have "take_digits (nat_str n) = (nat_str n, [])"
    using nat_str_digits [of n] by (auto simp: take_digits_def list_all_iff takeWhile_eq_all_conv dropWhile_eq_Nil_conv)
  with s digit_not_sign [of c] show ?thesis by (simp add: literal_parts_def)
qed

lemma float_of_literal_small: "n < 2 ^ 53 \<Longrightarrow> \<exists>x. float_of_literal (nat_str n) = Some x \<and> float_trunc x = n \<and> \<not> float_negative x"
  using float_of_small [of n] by (simp add: float_of_literal_def literal_parts_nat_str digits_val_nat_str)

end
