(* ===== verification/Sessions.thy ===== *)
theory Sessions
  imports Shared GoFloat "HOL-Library.Sublist"
begin

text \<open>
  The sessions of the administration console (\<open>internal/identity/admin_session_token.go\<close>): a
  signed token of the old console is exchanged for a session token of this service, and a
  session token is read back.

  The JWT library is not part of the repository; \<open>jwt_library\<close> is what the source uses of it,
  and \<open>jwt_sound\<close> the documented behaviour the properties rely on. Every reading of the
  clock (\<open>m.now\<close>) is an argument.
\<close>

section \<open>The token library\<close>

text \<open>
  \<open>jl_sign key claims\<close> signs a claims text with HS256. \<open>jl_split\<close> takes a token apart into the
  name of its algorithm and its claims text. \<open>jl_verify alg key token\<close> checks the signature.
  \<open>jl_valid now claims\<close> reads the registered claims and compares them with the time.
\<close>

record jwt_library =
  jl_sign :: "string \<Rightarrow> string \<Rightarrow> goerr + string"
  jl_split :: "string \<Rightarrow> (string \<times> string) option"
  jl_verify :: "string \<Rightarrow> string \<Rightarrow> string \<Rightarrow> bool"
  jl_valid :: "instant \<Rightarrow> json \<Rightarrow> bool"

definition HS256 :: string where
  [simp]: "HS256 = ''HS256''"

text \<open>
  \<open>Parser.ParseWithClaims\<close>: \<open>decode\<close> fills the claims value, \<open>keyfunc\<close> chooses the key by the
  algorithm. \<open>None\<close> stands for every error.
\<close>

definition ParseWithClaims ::
    "jwt_library \<Rightarrow> instant \<Rightarrow> (json \<Rightarrow> 'c option) \<Rightarrow> (string \<Rightarrow> string option) \<Rightarrow> string \<Rightarrow> 'c option" where
  "ParseWithClaims lib now decode keyfunc token =
     (case jl_split lib token of
        None \<Rightarrow> None
      | Some (alg, text) \<Rightarrow>
          (case json_parse text of
             None \<Rightarrow> None
           | Some j \<Rightarrow>
               (case decode j of
                  None \<Rightarrow> None
                | Some c \<Rightarrow>
                    (case keyfunc alg of
                       None \<Rightarrow> None
                     | Some key \<Rightarrow> if jl_verify lib alg key token \<and> jl_valid lib now j then Some c else None))))"

section \<open>The manager\<close>

record SessionConfig =
  sc_LegacySecret :: string
  sc_LegacySecretFile :: string
  sc_Secret :: string
  sc_SecretFile :: string
  sc_Issuer :: string
  sc_TTLHours :: int
  sc_SecureCookie :: bool
  sc_LoginURL :: string
  sc_RedirectURL :: string

record AdminSessionManager =
  sm_legacySecret :: string
  sm_secret :: string
  sm_issuer :: string
  sm_ttl :: duration
  sm_secureCookie :: bool
  sm_err :: "goerr option"

definition adminSessionCookieName :: string where
  "adminSessionCookieName = ''as_admin_session''"

definition NewAdminSessionManager :: "SessionConfig \<Rightarrow> AdminSessionManager" where
  "NewAdminSessionManager cfg =
     (let ttl0 = wrap64 (sc_TTLHours cfg * Hour);
          ttl = (if ttl0 \<le> 0 then 24 * Hour else ttl0);
          issuer0 = TrimSpace (sc_Issuer cfg);
          issuer = (if issuer0 = '''' then ''article-sentinel-admin'' else issuer0)
      in \<lparr>sm_legacySecret = sc_LegacySecret cfg, sm_secret = sc_Secret cfg, sm_issuer = issuer, sm_ttl = ttl,
          sm_secureCookie = sc_SecureCookie cfg,
          sm_err = (if TrimSpace (sc_LegacySecret cfg) = '''' \<or> TrimSpace (sc_Secret cfg) = ''''
                    then Some (Plain ''admin session secrets are required'') else None)\<rparr>)"

definition CookieName :: "AdminSessionManager option \<Rightarrow> string" where
  "CookieName m = adminSessionCookieName"

definition SecureCookie :: "AdminSessionManager option \<Rightarrow> bool" where
  "SecureCookie m = (case m of None \<Rightarrow> False | Some x \<Rightarrow> sm_secureCookie x)"

definition manager_TTL :: "AdminSessionManager option \<Rightarrow> duration" where
  "manager_TTL m = (case m of None \<Rightarrow> 24 * Hour | Some x \<Rightarrow> sm_ttl x)"

definition Issuer :: "AdminSessionManager option \<Rightarrow> string" where
  "Issuer m = (case m of None \<Rightarrow> ''article-sentinel-admin'' | Some x \<Rightarrow> sm_issuer x)"

section \<open>Claims of a session token\<close>

text \<open>Fields with \<open>omitempty\<close> are left out when they are empty.\<close>

definition opt_str :: "string \<Rightarrow> string \<Rightarrow> (string \<times> json) list" where
  "opt_str k s = (if s = '''' then [] else [(k, JStr s)])"

definition opt_uint :: "string \<Rightarrow> uint64 \<Rightarrow> (string \<times> json) list" where
  "opt_uint k n = (if n = 0 then [] else [(k, JUint n)])"

definition opt_bool :: "string \<Rightarrow> bool \<Rightarrow> (string \<times> json) list" where
  "opt_bool k b = (if b then [(k, JBool True)] else [])"

text \<open>\<open>jwt.NewNumericDate\<close> cuts off the fraction of a second and is written as a whole number.\<close>

definition numeric_date :: "instant \<Rightarrow> json" where
  "numeric_date t = JNum (Itoa (t div Second))"

definition session_fields :: "AdminSession \<Rightarrow> (string \<times> json) list" where
  "session_fields s =
     [(''id'', JUint (as_UserID s)), (''orgid'', JUint (as_OrgID s))] @
     opt_str ''orgname'' (as_OrgName s) @ opt_str ''platform'' (as_Platform s) @ opt_str ''priv'' (as_Priv s) @
     opt_str ''roleid'' (as_RoleID s) @ opt_str ''nickname'' (as_Nickname s) @ opt_str ''avatar'' (as_Avatar s) @
     opt_uint ''departmentid'' (as_DepartmentID s) @ opt_bool ''is_open_edu'' (as_IsOpenEdu s) @
     opt_str ''status'' (as_Status s)"

definition adminSessionClaims :: "AdminSession \<Rightarrow> string \<Rightarrow> instant \<Rightarrow> instant \<Rightarrow> json" where
  "adminSessionClaims s issuer now expiresAt =
     JObj (session_fields s @ opt_str ''iss'' issuer @
       [(''sub'', JStr (nat_str (as_UserID s))), (''exp'', numeric_date expiresAt), (''nbf'', numeric_date now),
        (''iat'', numeric_date now)])"

definition trimmed_session :: "AdminSession \<Rightarrow> AdminSession" where
  "trimmed_session s =
     s\<lparr>as_OrgName := TrimSpace (as_OrgName s), as_Platform := TrimSpace (as_Platform s), as_Priv := TrimSpace (as_Priv s),
       as_RoleID := TrimSpace (as_RoleID s), as_Nickname := TrimSpace (as_Nickname s), as_Avatar := TrimSpace (as_Avatar s),
       as_Status := TrimSpace (as_Status s)\<rparr>"

definition SignSessionJWT ::
    "jwt_library \<Rightarrow> AdminSessionManager option \<Rightarrow> AdminSession \<Rightarrow> instant \<Rightarrow> goerr + string \<times> instant" where
  "SignSessionJWT lib manager session now =
     (case manager of
        None \<Rightarrow> Inl (Sentinel ErrUnauthorized)
      | Some m \<Rightarrow>
          (case sm_err m of
             Some e \<Rightarrow> Inl e
           | None \<Rightarrow>
               if as_UserID session = 0 \<or> as_OrgID session = 0 then Inl (Sentinel ErrUnauthorized)
               else
                 (let expiresAt = now + sm_ttl m;
                      claims = adminSessionClaims (trimmed_session session) (sm_issuer m) now expiresAt
                  in case jl_sign lib (sm_secret m) (marshal claims) of
                       Inl e \<Rightarrow> Inl e
                     | Inr tok \<Rightarrow> Inr (tok, expiresAt))))"

definition claim_names :: "string list" where
  "claim_names = [''id'', ''orgid'', ''orgname'', ''platform'', ''priv'', ''roleid'', ''nickname'', ''avatar'', ''departmentid'',
     ''is_open_edu'', ''status'']"

definition zero_session :: AdminSession where
  "zero_session = \<lparr>as_UserID = 0, as_OrgID = 0, as_OrgName = '''', as_Platform = '''', as_Priv = '''', as_RoleID = '''',
     as_Nickname = '''', as_Avatar = '''', as_DepartmentID = 0, as_IsOpenEdu = False, as_Status = ''''\<rparr>"

definition decode_bool :: "json \<Rightarrow> bool \<Rightarrow> bool option" where
  "decode_bool j old = (case j of JNull \<Rightarrow> Some old | JBool b \<Rightarrow> Some b | _ \<Rightarrow> None)"

definition put_claim :: "string \<Rightarrow> json \<Rightarrow> AdminSession \<Rightarrow> AdminSession option" where
  "put_claim n j s =
     (if n = ''id'' then map_option (\<lambda>v. s\<lparr>as_UserID := v\<rparr>) (decode_uint64 j (as_UserID s))
      else if n = ''orgid'' then map_option (\<lambda>v. s\<lparr>as_OrgID := v\<rparr>) (decode_uint64 j (as_OrgID s))
      else if n = ''orgname'' then map_option (\<lambda>v. s\<lparr>as_OrgName := v\<rparr>) (decode_string j (as_OrgName s))
      else if n = ''platform'' then map_option (\<lambda>v. s\<lparr>as_Platform := v\<rparr>) (decode_string j (as_Platform s))
      else if n = ''priv'' then map_option (\<lambda>v. s\<lparr>as_Priv := v\<rparr>) (decode_string j (as_Priv s))
      else if n = ''roleid'' then map_option (\<lambda>v. s\<lparr>as_RoleID := v\<rparr>) (decode_string j (as_RoleID s))
      else if n = ''nickname'' then map_option (\<lambda>v. s\<lparr>as_Nickname := v\<rparr>) (decode_string j (as_Nickname s))
      else if n = ''avatar'' then map_option (\<lambda>v. s\<lparr>as_Avatar := v\<rparr>) (decode_string j (as_Avatar s))
      else if n = ''departmentid'' then map_option (\<lambda>v. s\<lparr>as_DepartmentID := v\<rparr>) (decode_uint64 j (as_DepartmentID s))
      else if n = ''is_open_edu'' then map_option (\<lambda>v. s\<lparr>as_IsOpenEdu := v\<rparr>) (decode_bool j (as_IsOpenEdu s))
      else map_option (\<lambda>v. s\<lparr>as_Status := v\<rparr>) (decode_string j (as_Status s)))"

text \<open>
  \<open>json.Unmarshal\<close> into \<open>adminSessionClaims\<close> followed by \<open>claims.Session()\<close>: the session has
  the fields of the claims under the same names. The registered claims are read by
  \<open>jl_valid\<close>.
\<close>

definition claims_session :: "unicode_tables \<Rightarrow> json \<Rightarrow> AdminSession option" where
  "claims_session ut j = decode_struct ut claim_names put_claim j zero_session"

definition ParseSessionJWT ::
    "unicode_tables \<Rightarrow> jwt_library \<Rightarrow> AdminSessionManager option \<Rightarrow> string \<Rightarrow> instant \<Rightarrow> goerr + AdminSession" where
  "ParseSessionJWT ut lib manager token now =
     (case manager of
        None \<Rightarrow> Inl (Sentinel ErrUnauthorized)
      | Some m \<Rightarrow>
          (case sm_err m of
             Some e \<Rightarrow> Inl e
           | None \<Rightarrow>
               (case ParseWithClaims lib now (claims_session ut) (\<lambda>alg. if alg = HS256 then Some (sm_secret m) else None) token of
                  None \<Rightarrow> Inl (Sentinel ErrUnauthorized)
                | Some session \<Rightarrow>
                    if as_UserID session = 0 \<or> as_OrgID session = 0 then Inl (Sentinel ErrUnauthorized)
                    else Inr session)))"

section \<open>Tokens of the old console\<close>

definition coerceUint64 :: "float_env \<Rightarrow> any_value \<Rightarrow> uint64 option" where
  "coerceUint64 fe v =
     (case v of
        UInt64V n \<Rightarrow> Some n
      | UInt32V n \<Rightarrow> Some n
      | UIntV n \<Rightarrow> Some n
      | IntV i \<Rightarrow> if i < 0 then None else Some (nat i)
      | Int64V i \<Rightarrow> if i < 0 then None else Some (nat i)
      | FloatV x \<Rightarrow> if float_negative x then None else Some (uint64_of_float fe x)
      | StringV s \<Rightarrow> ParseUint64 (TrimSpace s)
      | _ \<Rightarrow> None)"

type_synonym map_claims = "(string \<times> any_value) list"

definition legacyStringClaim :: "float_env \<Rightarrow> map_claims \<Rightarrow> string \<Rightarrow> string" where
  "legacyStringClaim fe claims key =
     (case map_entry claims key of
        None \<Rightarrow> ''''
      | Some (StringV s) \<Rightarrow> TrimSpace s
      | Some v \<Rightarrow> TrimSpace (Sprint fe v))"

definition legacyUint64Claim :: "float_env \<Rightarrow> map_claims \<Rightarrow> string \<Rightarrow> uint64 option" where
  "legacyUint64Claim fe claims key =
     (case map_entry claims key of None \<Rightarrow> None | Some v \<Rightarrow> coerceUint64 fe v)"

definition legacyOptionalUint64Claim :: "float_env \<Rightarrow> map_claims \<Rightarrow> string \<Rightarrow> uint64" where
  "legacyOptionalUint64Claim fe claims key =
     (case map_entry claims key of
        None \<Rightarrow> 0
      | Some v \<Rightarrow> (case coerceUint64 fe v of None \<Rightarrow> 0 | Some n \<Rightarrow> n))"

definition legacyOptionalBoolClaim :: "map_claims \<Rightarrow> string \<Rightarrow> bool" where
  "legacyOptionalBoolClaim claims key =
     (case map_entry claims key of
        None \<Rightarrow> False
      | Some (BoolV b) \<Rightarrow> b
      | Some (StringV s) \<Rightarrow> ParseBool (TrimSpace s) = Some True
      | Some (FloatV x) \<Rightarrow> fl_mant x \<noteq> 0
      | Some _ \<Rightarrow> False)"

definition mapLegacyAdminSession :: "float_env \<Rightarrow> map_claims \<Rightarrow> goerr + AdminSession" where
  "mapLegacyAdminSession fe claims =
     (case legacyUint64Claim fe claims ''id'' of
        None \<Rightarrow> Inl (Sentinel ErrUnauthorized)
      | Some userID \<Rightarrow>
          if userID = 0 then Inl (Sentinel ErrUnauthorized)
          else
            (case legacyUint64Claim fe claims ''orgid'' of
               None \<Rightarrow> Inl (Sentinel ErrUnauthorized)
             | Some orgID \<Rightarrow>
                 if orgID = 0 then Inl (Sentinel ErrUnauthorized)
                 else Inr \<lparr>as_UserID = userID, as_OrgID = orgID, as_OrgName = legacyStringClaim fe claims ''orgname'',
                   as_Platform = legacyStringClaim fe claims ''platform'', as_Priv = legacyStringClaim fe claims ''priv'',
                   as_RoleID = legacyStringClaim fe claims ''roleid'', as_Nickname = legacyStringClaim fe claims ''nickname'',
                   as_Avatar = legacyStringClaim fe claims ''avatar'',
                   as_DepartmentID = legacyOptionalUint64Claim fe claims ''departmentid'',
                   as_IsOpenEdu = legacyOptionalBoolClaim claims ''is_open_edu'',
                   as_Status = legacyStringClaim fe claims ''status''\<rparr>))"

text \<open>\<open>json.Unmarshal\<close> into \<open>jwt.MapClaims\<close>.\<close>

definition decode_map_claims :: "json \<Rightarrow> map_claims option" where
  "decode_map_claims j = (case j of JNull \<Rightarrow> Some [] | JObj kvs \<Rightarrow> any_of_fields kvs | _ \<Rightarrow> None)"

text \<open>\<open>now1\<close> is the time of the check of the old token, \<open>now2\<close> that of the new session.\<close>

definition ExchangeLegacyJWT ::
    "float_env \<Rightarrow> jwt_library \<Rightarrow> AdminSessionManager option \<Rightarrow> string \<Rightarrow> instant \<Rightarrow> instant \<Rightarrow>
     goerr + string \<times> AdminSession \<times> instant" where
  "ExchangeLegacyJWT fe lib manager token now1 now2 =
     (case manager of
        None \<Rightarrow> Inl (Sentinel ErrUnauthorized)
      | Some m \<Rightarrow>
          (case sm_err m of
             Some e \<Rightarrow> Inl e
           | None \<Rightarrow>
               (case ParseWithClaims lib now1 decode_map_claims
                       (\<lambda>alg. if alg = HS256 then Some (sm_legacySecret m) else None) token of
                  None \<Rightarrow> Inl (Sentinel ErrUnauthorized)
                | Some claims \<Rightarrow>
                    (case mapLegacyAdminSession fe claims of
                       Inl e \<Rightarrow> Inl e
                     | Inr session \<Rightarrow>
                         (case SignSessionJWT lib manager session now2 of
                            Inl e \<Rightarrow> Inl e
                          | Inr (tok, expiresAt) \<Rightarrow> Inr (tok, session, expiresAt))))))"

section \<open>What the properties rely on\<close>

text \<open>The registered claims the service writes, under the names it uses.\<close>

definition service_claims :: "(string \<times> json) list \<Rightarrow> int \<Rightarrow> int \<Rightarrow> bool" where
  "service_claims kvs e n =
     (distinct (map fst kvs) \<and> set (map fst kvs) \<subseteq> set (claim_names @ [''iss'', ''sub'', ''exp'', ''nbf'', ''iat'']) \<and>
      map_of kvs ''exp'' = Some (JNum (Itoa e)) \<and> map_of kvs ''nbf'' = Some (JNum (Itoa n)) \<and>
      map_of kvs ''iat'' = Some (JNum (Itoa n)) \<and>
      (case map_of kvs ''iss'' of None \<Rightarrow> True | Some (JStr _) \<Rightarrow> True | _ \<Rightarrow> False) \<and>
      (case map_of kvs ''sub'' of None \<Rightarrow> True | Some (JStr _) \<Rightarrow> True | _ \<Rightarrow> False))"

text \<open>
  The documented behaviour of the library: a token it signs with HS256 is taken apart into that
  algorithm and the signed text, its signature verifies under the same key, and claims with an
  expiry and a start are valid from the start on and before the expiry.
\<close>

definition jwt_sound :: "jwt_library \<Rightarrow> bool" where
  "jwt_sound lib =
     ((\<forall>key text tok. jl_sign lib key text = Inr tok \<longrightarrow> jl_split lib tok = Some (HS256, text) \<and> jl_verify lib HS256 key tok) \<and>
      (\<forall>kvs e n now. service_claims kvs e n \<longrightarrow> jl_valid lib now (JObj kvs) = (n * Second \<le> now \<and> now < e * Second)))"

section \<open>Writing and reading a session\<close>

definition session_ok :: "AdminSession \<Rightarrow> bool" where
  "session_ok s =
     (as_UserID s < 2 ^ 64 \<and> as_OrgID s < 2 ^ 64 \<and> as_DepartmentID s < 2 ^ 64 \<and> valid_utf8 (as_OrgName s) \<and> valid_utf8 (as_Platform s) \<and>
      valid_utf8 (as_Priv s) \<and> valid_utf8 (as_RoleID s) \<and> valid_utf8 (as_Nickname s) \<and> valid_utf8 (as_Avatar s) \<and>
      valid_utf8 (as_Status s))"

lemma wf_fields_append [simp]: "wf_fields (xs @ ys) = (wf_fields xs \<and> wf_fields ys)"
  by (induction xs) auto

lemma wf_opt: "valid_utf8 k \<Longrightarrow> valid_utf8 s \<Longrightarrow> wf_fields (opt_str k s)" "valid_utf8 k \<Longrightarrow> wf_fields (opt_uint k n)"
  "valid_utf8 k \<Longrightarrow> wf_fields (opt_bool k b)"
  by (simp_all add: opt_str_def opt_uint_def opt_bool_def)

lemma ascii_names: "list_all valid_utf8 (claim_names @ [''iss'', ''sub'', ''exp'', ''nbf'', ''iat''])"
  by (simp add: claim_names_def valid_utf8_ascii ascii_def byte_def)

lemma valid_nat_str: "valid_utf8 (nat_str n)"
  by (rule valid_utf8_ascii) (use nat_str_digits [of n] in \<open>auto simp: list_all_iff ascii_def is_digit_def\<close>)

lemma wf_claims:
  assumes "session_ok s" and "valid_utf8 issuer"
  shows "wf_json (adminSessionClaims s issuer now e)"
  using assms ascii_names
  by (simp add: adminSessionClaims_def session_fields_def session_ok_def claim_names_def wf_opt numeric_date_def valid_nat_str)

text \<open>Reading the fields back, one group at a time.\<close>

lemma decode_fields_append:
  "decode_fields ut names put (xs @ ys) s = (case decode_fields ut names put xs s of None \<Rightarrow> None | Some t \<Rightarrow> decode_fields ut names put ys t)"
  by (induction xs arbitrary: s) (auto split: option.split)

lemma put_strings:
  "put_claim ''orgname'' (JStr v) t = Some (t\<lparr>as_OrgName := v\<rparr>)" "put_claim ''platform'' (JStr v) t = Some (t\<lparr>as_Platform := v\<rparr>)"
  "put_claim ''priv'' (JStr v) t = Some (t\<lparr>as_Priv := v\<rparr>)" "put_claim ''roleid'' (JStr v) t = Some (t\<lparr>as_RoleID := v\<rparr>)"
  "put_claim ''nickname'' (JStr v) t = Some (t\<lparr>as_Nickname := v\<rparr>)" "put_claim ''avatar'' (JStr v) t = Some (t\<lparr>as_Avatar := v\<rparr>)"
  "put_claim ''status'' (JStr v) t = Some (t\<lparr>as_Status := v\<rparr>)" "put_claim ''is_open_edu'' (JBool b) t = Some (t\<lparr>as_IsOpenEdu := b\<rparr>)"
  by (simp_all add: put_claim_def decode_bool_def)

lemma put_numbers:
  assumes "n < 2 ^ 64"
  shows "put_claim ''id'' (JUint n) t = Some (t\<lparr>as_UserID := n\<rparr>)" "put_claim ''orgid'' (JUint n) t = Some (t\<lparr>as_OrgID := n\<rparr>)"
    "put_claim ''departmentid'' (JUint n) t = Some (t\<lparr>as_DepartmentID := n\<rparr>)"
  using assms by (simp_all add: put_claim_def decode_JUint)

lemma match_names:
  "match_field ut claim_names ''id'' = Some ''id''" "match_field ut claim_names ''orgid'' = Some ''orgid''"
  "match_field ut claim_names ''orgname'' = Some ''orgname''" "match_field ut claim_names ''platform'' = Some ''platform''"
  "match_field ut claim_names ''priv'' = Some ''priv''" "match_field ut claim_names ''roleid'' = Some ''roleid''"
  "match_field ut claim_names ''nickname'' = Some ''nickname''" "match_field ut claim_names ''avatar'' = Some ''avatar''"
  "match_field ut claim_names ''departmentid'' = Some ''departmentid''"
  "match_field ut claim_names ''is_open_edu'' = Some ''is_open_edu''" "match_field ut claim_names ''status'' = Some ''status''"
  by (simp_all add: match_field_def claim_names_def)

lemma decode_opts:
  "as_OrgName t = '''' \<Longrightarrow> decode_fields ut claim_names put_claim (opt_str ''orgname'' v) t = Some (t\<lparr>as_OrgName := v\<rparr>)"
  "as_Platform t = '''' \<Longrightarrow> decode_fields ut claim_names put_claim (opt_str ''platform'' v) t = Some (t\<lparr>as_Platform := v\<rparr>)"
  "as_Priv t = '''' \<Longrightarrow> decode_fields ut claim_names put_claim (opt_str ''priv'' v) t = Some (t\<lparr>as_Priv := v\<rparr>)"
  "as_RoleID t = '''' \<Longrightarrow> decode_fields ut claim_names put_claim (opt_str ''roleid'' v) t = Some (t\<lparr>as_RoleID := v\<rparr>)"
  "as_Nickname t = '''' \<Longrightarrow> decode_fields ut claim_names put_claim (opt_str ''nickname'' v) t = Some (t\<lparr>as_Nickname := v\<rparr>)"
  "as_Avatar t = '''' \<Longrightarrow> decode_fields ut claim_names put_claim (opt_str ''avatar'' v) t = Some (t\<lparr>as_Avatar := v\<rparr>)"
  "as_Status t = '''' \<Longrightarrow> decode_fields ut claim_names put_claim (opt_str ''status'' v) t = Some (t\<lparr>as_Status := v\<rparr>)"
  "\<not> as_IsOpenEdu t \<Longrightarrow> decode_fields ut claim_names put_claim (opt_bool ''is_open_edu'' b) t = Some (t\<lparr>as_IsOpenEdu := b\<rparr>)"
  "as_DepartmentID t = 0 \<Longrightarrow> n < 2 ^ 64 \<Longrightarrow>
     decode_fields ut claim_names put_claim (opt_uint ''departmentid'' n) t = Some (t\<lparr>as_DepartmentID := n\<rparr>)"
  by (simp_all add: opt_str_def opt_bool_def opt_uint_def match_names put_strings put_numbers)

lemma decode_session_fields:
  assumes "session_ok s"
  shows "decode_fields ut claim_names put_claim (session_fields s) zero_session = Some s"
  using assms
  by (simp add: session_fields_def session_ok_def match_names put_numbers decode_opts zero_session_def decode_fields_append)

lemma registered_not_matched:
  assumes "n \<in> set [''iss'', ''sub'', ''exp'', ''nbf'', ''iat'']"
  shows "match_field ut claim_names n = None"
proof -
  have plain: "n \<notin> set claim_names \<and> list_all (\<lambda>c. map lower_byte c \<noteq> map lower_byte n) claim_names"
  proof -
    have "list_all (\<lambda>n. n \<notin> set claim_names \<and> list_all (\<lambda>c. map lower_byte c \<noteq> map lower_byte n) claim_names)
        [''iss'', ''sub'', ''exp'', ''nbf'', ''iat'']" by code_simp
    with assms show ?thesis by (auto simp: list_all_iff)
  qed
  have "list_all (list_all ascii) (claim_names @ [''iss'', ''sub'', ''exp'', ''nbf'', ''iat''])" by code_simp
  then have "\<not> EqualFold ut c n" if "c \<in> set claim_names" for c
    using that plain assms EqualFold_ascii [of c n ut] by (auto simp: list_all_iff)
  then have "find (\<lambda>c. EqualFold ut c n) claim_names = None" by (auto simp: find_None_iff)
  with plain show ?thesis by (simp add: match_field_def)
qed

lemma claims_session_roundtrip:
  assumes "session_ok s"
  shows "claims_session ut (adminSessionClaims s issuer now e) = Some s"
  using decode_session_fields [OF assms]
  by (simp add: claims_session_def adminSessionClaims_def decode_struct_def decode_fields_append registered_not_matched opt_str_def)

lemma subseq_facts: "subseq xs ys \<Longrightarrow> set xs \<subseteq> set ys" "subseq xs ys \<Longrightarrow> distinct ys \<Longrightarrow> distinct xs"
  by (auto simp: subseq_conv_nths distinct_nthsI dest: in_set_nthsD)

lemma opt_keys: "subseq (map fst (opt_str k v)) [k]" "subseq (map fst (opt_uint k n)) [k]" "subseq (map fst (opt_bool k b)) [k]"
  by (simp_all add: opt_str_def opt_uint_def opt_bool_def)

lemma session_keys: "subseq (map fst (session_fields s)) claim_names"
proof -
  have "subseq (map fst (session_fields s))
      ([''id'', ''orgid''] @ [''orgname''] @ [''platform''] @ [''priv''] @ [''roleid''] @ [''nickname''] @ [''avatar''] @
       [''departmentid''] @ [''is_open_edu''] @ [''status''])"
    unfolding session_fields_def map_append by (intro list_emb_append_mono opt_keys) simp
  then show ?thesis by (simp add: claim_names_def)
qed

lemma claims_are_service_claims:
  obtains kvs where "adminSessionClaims s issuer now e = JObj kvs" and "service_claims kvs (e div Second) (now div Second)"
proof -
  let ?reg = "[(''sub'', JStr (nat_str (as_UserID s))), (''exp'', numeric_date e), (''nbf'', numeric_date now), (''iat'', numeric_date now)]"
  let ?kvs = "session_fields s @ opt_str ''iss'' issuer @ ?reg"
  have "subseq (map fst ?kvs) (claim_names @ [''iss''] @ [''sub'', ''exp'', ''nbf'', ''iat''])"
    unfolding map_append by (intro list_emb_append_mono session_keys opt_keys) simp
  then have sub: "subseq (map fst ?kvs) (claim_names @ [''iss'', ''sub'', ''exp'', ''nbf'', ''iat''])" by simp
  have "distinct (claim_names @ [''iss'', ''sub'', ''exp'', ''nbf'', ''iat''])" by code_simp
  with sub have d: "distinct (map fst ?kvs)" using subseq_facts by blast
  have "set (map fst (session_fields s)) \<subseteq> set claim_names" using subseq_facts(1) [OF session_keys] .
  moreover have "''iss'' \<notin> set claim_names" by code_simp
  ultimately have iss: "''iss'' \<notin> set (map fst (session_fields s))" by blast
  have "map_of ?kvs ''iss'' = (if issuer = '''' then None else Some (JStr issuer))"
    using iss by (simp add: opt_str_def map_add_def map_of_eq_None_iff [THEN iffD2])
  moreover have "map_of ?kvs k = Some v" if "(k, v) \<in> set ?reg" for k v
    using that d by (intro map_of_is_SomeI) auto
  ultimately have "service_claims ?kvs (e div Second) (now div Second)"
    using d subseq_facts(1) [OF sub] unfolding service_claims_def by (simp add: numeric_date_def)
  then show thesis by (intro that) (simp_all add: adminSessionClaims_def)
qed

lemma sign_Inr:
  assumes "SignSessionJWT lib (Some m) s now = Inr (tok, e)"
  shows "sm_err m = None" and "as_UserID s \<noteq> 0" and "as_OrgID s \<noteq> 0" and "e = now + sm_ttl m"
    and "jl_sign lib (sm_secret m) (marshal (adminSessionClaims (trimmed_session s) (sm_issuer m) now e)) = Inr tok"
  using assms by (auto simp: SignSessionJWT_def Let_def split: option.splits if_splits sum.splits)

text \<open>Reading a token the manager has signed, as long as it is valid.\<close>

lemma read_back:
  assumes "jwt_sound lib" and "SignSessionJWT lib (Some m) s now = Inr (tok, e)" and "session_ok (trimmed_session s)"
    and "valid_utf8 (sm_issuer m)" and "now div Second * Second \<le> t" and "t < e div Second * Second"
  shows "ParseSessionJWT ut lib (Some m) tok t = Inr (trimmed_session s)"
proof -
  note sign = sign_Inr [OF assms(2)]
  let ?j = "adminSessionClaims (trimmed_session s) (sm_issuer m) now e"
  have tok: "jl_split lib tok = Some (HS256, marshal ?j)" "jl_verify lib HS256 (sm_secret m) tok"
    using assms(1) sign(5) unfolding jwt_sound_def by blast+
  obtain kvs where kvs: "?j = JObj kvs" "service_claims kvs (e div Second) (now div Second)"
    by (rule claims_are_service_claims)
  have "jl_valid lib t ?j" using assms(1,5,6) kvs unfolding jwt_sound_def by metis
  moreover have "json_parse (marshal ?j) = Some ?j" by (rule json_parse_marshal [OF wf_claims [OF assms(3,4)]])
  ultimately show ?thesis
    using tok sign claims_session_roundtrip [OF assms(3)]
    by (simp add: ParseSessionJWT_def ParseWithClaims_def trimmed_session_def)
qed

text \<open>
  C15. A session survives its token: reading a token the manager has signed gives back the session, with its texts
  trimmed, from the second of its issue until the second of its expiry.
\<close>

theorem session_token_roundtrip:
  assumes "jwt_sound lib" and "SignSessionJWT lib (Some (NewAdminSessionManager cfg)) s now = Inr (tok, e)"
    and "session_ok (trimmed_session s)" and "valid_utf8 (TrimSpace (sc_Issuer cfg))"
    and "now div Second * Second \<le> t" and "t < e div Second * Second"
  shows "ParseSessionJWT ut lib (Some (NewAdminSessionManager cfg)) tok t = Inr (trimmed_session s)"
proof (rule read_back [OF assms(1,2,3) _ assms(5,6)])
  have "valid_utf8 ''article-sentinel-admin''" by (rule valid_utf8_ascii) code_simp
  with assms(4) show "valid_utf8 (sm_issuer (NewAdminSessionManager cfg))" by (simp add: NewAdminSessionManager_def Let_def)
qed

text \<open>
  A library for the examples: its token is the key, written with a mark before each character, and the text. It shows
  that the behaviour the properties rely on can be met.
\<close>

fun plain_split :: "string \<Rightarrow> (string \<times> string) option" where
  "plain_split [] = None"
| "plain_split [c] = (if c = CHR ''t'' then Some ([], []) else None)"
| "plain_split (c # d # r) =
     (if c = CHR ''t'' then Some ([], d # r) else map_option (\<lambda>(k, t). (d # k, t)) (plain_split r))"

definition plain_sign :: "string \<Rightarrow> string \<Rightarrow> string" where
  "plain_sign key text = concat (map (\<lambda>c. [CHR ''k'', c]) key) @ CHR ''t'' # text"

definition claim_second :: "(string \<times> json) list \<Rightarrow> string \<Rightarrow> int option" where
  "claim_second kvs k = (case map_of kvs k of Some (JNum l) \<Rightarrow> signed_val l | _ \<Rightarrow> None)"

definition plain_library :: jwt_library where
  "plain_library =
     \<lparr>jl_sign = (\<lambda>key text. Inr (plain_sign key text)),
      jl_split = (\<lambda>tok. map_option (\<lambda>(k, t). (HS256, t)) (plain_split tok)),
      jl_verify = (\<lambda>alg key tok. case plain_split tok of None \<Rightarrow> False | Some (k, _) \<Rightarrow> k = key),
      jl_valid = (\<lambda>now j. case j of
         JObj kvs \<Rightarrow> (case claim_second kvs ''exp'' of None \<Rightarrow> True | Some e \<Rightarrow> now < e * Second) \<and>
                     (case claim_second kvs ''nbf'' of None \<Rightarrow> True | Some n \<Rightarrow> n * Second \<le> now)
       | _ \<Rightarrow> True)\<rparr>"

lemma plain_split_sign: "plain_split (plain_sign key text) = Some (key, text)"
proof (induction key)
  case Nil
  show ?case by (cases "text") (simp_all add: plain_sign_def)
next
  case (Cons c key)
  then show ?case by (simp add: plain_sign_def)
qed

lemma plain_library_sound: "jwt_sound plain_library"
  by (auto simp: jwt_sound_def plain_library_def plain_split_sign service_claims_def claim_second_def)

definition ex_session_config :: SessionConfig where
  "ex_session_config = \<lparr>sc_LegacySecret = ''old'', sc_LegacySecretFile = '''', sc_Secret = ''new'', sc_SecretFile = '''', sc_Issuer = '''', sc_TTLHours = 2, sc_SecureCookie = True,
     sc_LoginURL = '''', sc_RedirectURL = ''''\<rparr>"

definition ex_session :: AdminSession where
  "ex_session = \<lparr>as_UserID = 7, as_OrgID = 100, as_OrgName = ''org'', as_Platform = '''', as_Priv = ''admin'', as_RoleID = ''3'',
     as_Nickname = '' kim '', as_Avatar = '''', as_DepartmentID = 0, as_IsOpenEdu = False, as_Status = ''''\<rparr>"

abbreviation ex_manager :: "AdminSessionManager option" where
  "ex_manager \<equiv> Some (NewAdminSessionManager ex_session_config)"

lemma ex_manager_fields:
  "sm_err (NewAdminSessionManager ex_session_config) = None" "sm_ttl (NewAdminSessionManager ex_session_config) = 7200 * Second"
  "sm_secret (NewAdminSessionManager ex_session_config) = ''new''" "sm_legacySecret (NewAdminSessionManager ex_session_config) = ''old''"
  by code_simp+

lemma ex_session_trimmed: "trimmed_session ex_session = ex_session\<lparr>as_Nickname := ''kim''\<rparr>"
proof -
  have "TrimSpace ''org'' = ''org''" "TrimSpace ''admin'' = ''admin''" "TrimSpace ''3'' = ''3''" "TrimSpace '' kim '' = ''kim''" "TrimSpace '''' = ''''"
    by code_simp+
  then show ?thesis by (simp add: trimmed_session_def ex_session_def)
qed

lemma ex_session_ok: "session_ok (trimmed_session ex_session)"
  unfolding ex_session_trimmed by (simp add: session_ok_def ex_session_def valid_utf8_ascii ascii_def byte_def)

lemma ex_sign:
  "\<exists>tok. SignSessionJWT plain_library ex_manager ex_session 0 = Inr (tok, 7200 * Second)"
  by (simp add: SignSessionJWT_def ex_manager_fields ex_session_def plain_library_def)

theorem session_token_roundtrip_witness:
  "\<exists>tok. SignSessionJWT plain_library ex_manager ex_session 0 = Inr (tok, 7200 * Second) \<and>
     ParseSessionJWT ascii_tables plain_library ex_manager tok (60 * Second) = Inr (ex_session\<lparr>as_Nickname := ''kim''\<rparr>)"
proof -
  obtain tok where tok: "SignSessionJWT plain_library ex_manager ex_session 0 = Inr (tok, 7200 * Second)" using ex_sign by blast
  have "ParseSessionJWT ascii_tables plain_library ex_manager tok (60 * Second) = Inr (trimmed_session ex_session)"
    by (rule session_token_roundtrip [OF plain_library_sound tok ex_session_ok]) (simp_all add: ex_session_config_def)
  with tok show ?thesis by (simp add: ex_session_trimmed)
qed

section \<open>Only the holder of the secret gets a session\<close>

lemma ParseWithClaims_Some:
  "ParseWithClaims lib now decode keyfunc tok = Some c \<longleftrightarrow>
   (\<exists>alg text j key. jl_split lib tok = Some (alg, text) \<and> json_parse text = Some j \<and> decode j = Some c \<and> keyfunc alg = Some key \<and>
      jl_verify lib alg key tok \<and> jl_valid lib now j)"
  by (auto simp: ParseWithClaims_def split: option.splits if_splits)

lemma ParseSession_Inr:
  assumes "ParseSessionJWT ut lib manager tok now = Inr s"
  obtains m body j where "manager = Some m" and "sm_err m = None" and "jl_split lib tok = Some (HS256, body)"
    and "jl_verify lib HS256 (sm_secret m) tok" and "json_parse body = Some j" and "jl_valid lib now j"
    and "claims_session ut j = Some s" and "as_UserID s \<noteq> 0" and "as_OrgID s \<noteq> 0"
  using assms
  by (auto simp: ParseSessionJWT_def ParseWithClaims_Some split: option.splits if_splits)

lemma NewAdminSessionManager_ready:
  "sm_err (NewAdminSessionManager cfg) = None \<longleftrightarrow> TrimSpace (sc_LegacySecret cfg) \<noteq> '''' \<and> TrimSpace (sc_Secret cfg) \<noteq> ''''"
  by (simp add: NewAdminSessionManager_def Let_def)

text \<open>
  C18. An exchange trusts nothing but the secret of the old console: when it succeeds, both secrets are configured, the token
  names HS256 as its algorithm, its signature verifies under the old secret, its registered claims are valid at
  this time, it names a user and an organisation, the session is the one its claims describe, and what is handed out
  is a token for this session that expires after the configured time, which is positive.
\<close>

theorem exchange_requires_legacy_signature:
  assumes "ExchangeLegacyJWT fe lib (Some (NewAdminSessionManager cfg)) token now1 now2 = Inr (tok, s, e)"
  shows "TrimSpace (sc_LegacySecret cfg) \<noteq> '''' \<and> TrimSpace (sc_Secret cfg) \<noteq> '''' \<and>
         (\<exists>text j claims. jl_split lib token = Some (HS256, text) \<and> jl_verify lib HS256 (sc_LegacySecret cfg) token \<and>
            json_parse text = Some j \<and> jl_valid lib now1 j \<and> decode_map_claims j = Some claims \<and>
            mapLegacyAdminSession fe claims = Inr s) \<and>
         as_UserID s \<noteq> 0 \<and> as_OrgID s \<noteq> 0 \<and>
         SignSessionJWT lib (Some (NewAdminSessionManager cfg)) s now2 = Inr (tok, e) \<and> now2 < e"
proof -
  let ?m = "NewAdminSessionManager cfg"
  have ready: "sm_err ?m = None" using assms by (auto simp: ExchangeLegacyJWT_def split: option.splits)
  from assms ready obtain claims where
      c: "ParseWithClaims lib now1 decode_map_claims (\<lambda>alg. if alg = HS256 then Some (sm_legacySecret ?m) else None) token = Some claims"
    and s: "mapLegacyAdminSession fe claims = Inr s" and tok: "SignSessionJWT lib (Some ?m) s now2 = Inr (tok, e)"
    by (auto simp: ExchangeLegacyJWT_def split: option.splits sum.splits)
  have "sm_legacySecret ?m = sc_LegacySecret cfg" "0 < sm_ttl ?m" by (simp_all add: NewAdminSessionManager_def Let_def)
  with c s tok ready sign_Inr [OF tok] show ?thesis
    by (auto simp: ParseWithClaims_Some NewAdminSessionManager_ready split: if_splits)
qed

definition ex_float_env :: float_env where
  "ex_float_env = \<lparr>fe_text = (\<lambda>x. nat_str (float_trunc x)), fe_big_uint64 = (\<lambda>_. 2 ^ 63)\<rparr>"

definition ex_legacy_token :: string where
  "ex_legacy_token = plain_sign ''old'' (marshal (JObj [(''id'', JUint 7), (''orgid'', JStr (nat_str 100)), (''priv'', JStr ''admin'')]))"

lemma coerce_small:
  assumes "n < 2 ^ 53"
  obtains v where "any_of_json (JUint n) = Some v" and "coerceUint64 fe v = Some n"
proof -
  obtain x where "float_of_literal (nat_str n) = Some x" "float_trunc x = n" "\<not> float_negative x"
    using float_of_literal_small [OF assms] by blast
  moreover have "n < 2 ^ 64" using assms by simp
  ultimately show thesis using that by (simp add: JUint_def Itoa_def coerceUint64_def uint64_of_float_def)
qed

lemma coerce_text: "n < 2 ^ 64 \<Longrightarrow> coerceUint64 fe (StringV (nat_str n)) = Some n"
  using nat_str_graphic [of n] by (simp add: coerceUint64_def ParseUint64_nat_str TrimSpace_graphic)

lemma ex_exchange:
  "\<exists>tok s e. ExchangeLegacyJWT ex_float_env plain_library ex_manager ex_legacy_token 0 0 = Inr (tok, s, e) \<and> as_OrgID s = 100"
proof -
  let ?j = "JObj [(''id'', JUint 7), (''orgid'', JStr (nat_str 100)), (''priv'', JStr ''admin'')]"
  obtain v where v: "any_of_json (JUint 7) = Some v" "coerceUint64 ex_float_env v = Some 7" by (rule coerce_small [of 7]) simp_all
  have "wf_json ?j" by (simp add: valid_nat_str valid_utf8_ascii ascii_def byte_def)
  then have "json_parse (marshal ?j) = Some ?j" by (rule json_parse_marshal)
  moreover have "jl_split plain_library ex_legacy_token = Some (HS256, marshal ?j)" "jl_verify plain_library HS256 ''old'' ex_legacy_token"
    by (simp_all add: plain_library_def ex_legacy_token_def plain_split_sign del: marshal.simps)
  moreover have "jl_valid plain_library 0 ?j" by (simp add: plain_library_def claim_second_def)
  ultimately have parsed: "ParseWithClaims plain_library 0 decode_map_claims 
        (\<lambda>alg. if alg = HS256 then Some (sm_legacySecret (NewAdminSessionManager ex_session_config)) else None) ex_legacy_token =
      Some [(''id'', v), (''orgid'', StringV (nat_str 100)), (''priv'', StringV ''admin'')]"
    by (simp add: ParseWithClaims_def decode_map_claims_def v(1) ex_manager_fields del: marshal.simps)
  obtain s where s: "mapLegacyAdminSession ex_float_env [(''id'', v), (''orgid'', StringV (nat_str 100)), (''priv'', StringV ''admin'')] = Inr s"
      "as_UserID s = 7" "as_OrgID s = 100"
    by (simp add: mapLegacyAdminSession_def legacyUint64Claim_def map_entry_def v(2) coerce_text)
  then obtain tok where "SignSessionJWT plain_library ex_manager s 0 = Inr (tok, 7200 * Second)"
    by (simp add: SignSessionJWT_def ex_manager_fields plain_library_def)
  with parsed s show ?thesis by (simp add: ExchangeLegacyJWT_def ex_manager_fields)
qed

theorem exchange_requires_legacy_signature_witness:
  "\<exists>tok s e. ExchangeLegacyJWT ex_float_env plain_library ex_manager ex_legacy_token 0 0 = Inr (tok, s, e) \<and>
     jl_verify plain_library HS256 ''old'' ex_legacy_token \<and> as_OrgID s = 100 \<and> 0 < e"
proof -
  from ex_exchange obtain tok s e where
      r: "ExchangeLegacyJWT ex_float_env plain_library ex_manager ex_legacy_token 0 0 = Inr (tok, s, e)" and "as_OrgID s = 100"
    by blast
  moreover have "sc_LegacySecret ex_session_config = ''old''" by (simp add: ex_session_config_def)
  ultimately show ?thesis using exchange_requires_legacy_signature [OF r] by auto
qed

text \<open>
  Numeric ids of the old console pass through a float: an id below 2^53 arrives exactly, whether it is written as a number or as a text.
\<close>

theorem legacy_ids_exact:
  assumes "n < 2 ^ 53"
  shows "\<exists>v. any_of_json (JUint n) = Some v \<and> coerceUint64 fe v = Some n \<and> coerceUint64 fe (StringV (nat_str n)) = Some n"
proof -
  obtain v where "any_of_json (JUint n) = Some v" "coerceUint64 fe v = Some n" using coerce_small [OF assms] by blast
  moreover have "n < 2 ^ 64" using assms by simp
  ultimately show ?thesis using coerce_text by blast
qed

theorem legacy_ids_exact_witness:
  "\<exists>v. any_of_json (JUint 42) = Some v \<and> coerceUint64 ex_float_env v = Some 42"
  using legacy_ids_exact [of 42 ex_float_env] by auto



end
