(* ===== verification/Http.thy ===== *)
theory Http
  imports Sessions
begin

text \<open>
  The HTTP side of the service: requests, replies, and the middleware around the routes
  (\<open>internal/middleware\<close>): request ids, recovery from panics, the session of the cookie
  and the checks of an actor.

  A handler maps a request and the state of the server to a reply and the next state;
  \<open>None\<close> as the reply is a panic. The reply of a redirect holds the target given to
  \<open>http.Redirect\<close>. Header names are compared without their case, as the canonical form of
  \<open>net/http\<close> does.
\<close>

section \<open>Requests, replies and the server\<close>

datatype cookie_lookup = CookieFound string | NoCookie | BadCookie

record http_request =
  rq_Method :: string
  rq_Header :: "(string \<times> string list) list"
  rq_Query :: "(string \<times> string) list"
  rq_Form :: "(string \<times> string) list option"
  rq_Cookie :: "string \<Rightarrow> cookie_lookup"
  rq_Body :: string
  rq_RemoteAddr :: string
  rq_context :: gocontext

record http_cookie =
  hc_Name :: string
  hc_Value :: string
  hc_Path :: string
  hc_HttpOnly :: bool
  hc_Secure :: bool
  hc_SameSite :: string
  hc_MaxAge :: int
  hc_Expires :: instant

record http_reply =
  rp_Status :: int
  rp_Header :: "(string \<times> string) list"
  rp_Cookies :: "http_cookie list"
  rp_Redirect :: "string option"
  rp_Body :: "json Envelope option"

record authExchangeCodeEntry =
  ee_sessionJWT :: string
  ee_expiresAt :: instant
  ee_codeExpiry :: instant

text \<open>
  The state of a server process: the world of the services, the counter of the request ids,
  the exchange codes that were handed out, and the source of random bytes.
\<close>

record server =
  sv_world :: world
  sv_requestIDCounter :: "64 word"
  sv_codes :: "string \<Rightarrow> authExchangeCodeEntry option"
  sv_entropy :: "nat \<Rightarrow> string option"
  sv_draws :: nat

type_synonym handler = "http_request \<Rightarrow> server \<Rightarrow> http_reply option \<times> server"
type_synonym middleware = "handler \<Rightarrow> handler"

definition server_now :: "server \<Rightarrow> instant \<times> server" where
  "server_now s = (case time_now (sv_world s) of (t, w) \<Rightarrow> (t, s\<lparr>sv_world := w\<rparr>))"

definition same_header :: "string \<Rightarrow> string \<Rightarrow> bool" where
  "same_header a b = (map lower_byte a = map lower_byte b)"

definition header_values :: "http_request \<Rightarrow> string \<Rightarrow> string list" where
  "header_values r name = concat (map snd (filter (\<lambda>(k, _). same_header k name) (rq_Header r)))"

definition header_get :: "http_request \<Rightarrow> string \<Rightarrow> string" where
  "header_get r name = (case header_values r name of [] \<Rightarrow> '''' | v # _ \<Rightarrow> v)"

definition query_get :: "http_request \<Rightarrow> string \<Rightarrow> string" where
  "query_get r name = (case map_of (rq_Query r) name of None \<Rightarrow> '''' | Some v \<Rightarrow> v)"

definition with_context :: "http_request \<Rightarrow> gocontext \<Rightarrow> http_request" where
  "with_context r cx = r\<lparr>rq_context := cx\<rparr>"

text \<open>Headers and cookies set on the writer before the reply is written.\<close>

definition add_header :: "string \<Rightarrow> string \<Rightarrow> http_reply \<Rightarrow> http_reply" where
  "add_header k v rp = rp\<lparr>rp_Header := (k, v) # rp_Header rp\<rparr>"

definition add_cookie :: "http_cookie \<Rightarrow> http_reply \<Rightarrow> http_reply" where
  "add_cookie c rp = rp\<lparr>rp_Cookies := c # rp_Cookies rp\<rparr>"

definition json_reply :: "int \<Rightarrow> json Envelope \<Rightarrow> http_reply" where
  "json_reply status body =
     \<lparr>rp_Status = status, rp_Header = [(''Content-Type'', ''application/json'')], rp_Cookies = [], rp_Redirect = None,
      rp_Body = Some body\<rparr>"

definition redirect_reply :: "string \<Rightarrow> http_reply" where
  "redirect_reply target =
     \<lparr>rp_Status = 302, rp_Header = [], rp_Cookies = [], rp_Redirect = Some target, rp_Body = None\<rparr>"

section \<open>Middleware\<close>

text \<open>\<open>Chain\<close>: the first of the list is the outermost; nil entries are skipped.\<close>

fun Chain :: "handler \<Rightarrow> middleware option list \<Rightarrow> handler" where
  "Chain h [] = h"
| "Chain h (None # mws) = Chain h mws"
| "Chain h (Some mw # mws) = mw (Chain h mws)"

definition requestIDHeader :: string where
  "requestIDHeader = ''X-Request-ID''"

definition RequestID :: middleware where
  "RequestID next r s =
     (let given = header_get r requestIDHeader;
          (requestID, s1) =
            (if given = '''' then
               (case server_now s of (now, s') \<Rightarrow>
                  (let n = sv_requestIDCounter s' + 1
                   in (Itoa now @ ''-'' @ nat_str (unat n), s'\<lparr>sv_requestIDCounter := n\<rparr>)))
             else (given, s));
          cx = ContextWithRequestMetadata (rq_context r) \<lparr>rm_RequestID = requestID, rm_SourceIP = ''''\<rparr>;
          (rp, s2) = next (with_context r cx) s1
      in (map_option (add_header requestIDHeader requestID) rp, s2))"

definition RequestIDFromContext :: "gocontext \<Rightarrow> string option" where
  "RequestIDFromContext cx =
     (case RequestMetadataFromContext cx of
        None \<Rightarrow> None
      | Some m \<Rightarrow> if rm_RequestID m = '''' then None else Some (rm_RequestID m))"

definition Recover :: middleware where
  "Recover next r s =
     (case next r s of
        (None, s1) \<Rightarrow> (Some (json_reply 500 (response_Fail 500 ''internal server error'')), s1)
      | (Some rp, s1) \<Rightarrow> (Some rp, s1))"

text \<open>The cookie that ends a session in the browser.\<close>

definition clearSessionCookie :: "AdminSessionManager option \<Rightarrow> http_cookie" where
  "clearSessionCookie manager =
     \<lparr>hc_Name = CookieName manager, hc_Value = '''', hc_Path = ''/'', hc_HttpOnly = True, hc_Secure = SecureCookie manager,
      hc_SameSite = ''Lax'', hc_MaxAge = -1, hc_Expires = 0\<rparr>"

definition session_context :: "gocontext \<Rightarrow> AdminSession \<Rightarrow> gocontext" where
  "session_context cx session =
     (let actor = session_Actor session
      in ContextWithPrincipal (ContextWithActor (ContextWithAdminSession cx session) actor) (PrincipalFromActor actor))"

definition SessionContext :: "unicode_tables \<Rightarrow> jwt_library \<Rightarrow> AdminSessionManager option \<Rightarrow> middleware" where
  "SessionContext ut lib manager next r s =
     (case manager of
        None \<Rightarrow> next r s
      | Some m \<Rightarrow>
          (case rq_Cookie r (CookieName manager) of
             NoCookie \<Rightarrow> next r s
           | BadCookie \<Rightarrow> (case next r s of (rp, s1) \<Rightarrow> (map_option (add_cookie (clearSessionCookie manager)) rp, s1))
           | CookieFound token \<Rightarrow>
               (case server_now s of (now, s1) \<Rightarrow>
                  (case ParseSessionJWT ut lib manager token now of
                     Inl _ \<Rightarrow> (case next r s1 of (rp, s2) \<Rightarrow> (map_option (add_cookie (clearSessionCookie manager)) rp, s2))
                   | Inr session \<Rightarrow> next (with_context r (session_context (rq_context r) session)) s1))))"

definition writeAuthError :: "int \<Rightarrow> string \<Rightarrow> http_reply" where
  "writeAuthError status message = json_reply status (response_Fail status message)"

definition RequireAuthenticated :: middleware where
  "RequireAuthenticated next r s =
     (case ActorFromContext (rq_context r) of
        None \<Rightarrow> (Some (writeAuthError 401 ''unauthorized''), s)
      | Some _ \<Rightarrow> next r s)"

definition RequireRole :: "unicode_tables \<Rightarrow> string \<Rightarrow> middleware" where
  "RequireRole ut role next r s =
     (case ActorFromContext (rq_context r) of
        None \<Rightarrow> (Some (writeAuthError 401 ''unauthorized''), s)
      | Some actor \<Rightarrow>
          if \<not> HasRole ut actor role then (Some (writeAuthError 403 ''forbidden''), s)
          else next r s)"

definition RequireAdmin :: "unicode_tables \<Rightarrow> middleware" where
  "RequireAdmin ut = RequireRole ut ''admin''"

definition RequireMember :: "unicode_tables \<Rightarrow> middleware" where
  "RequireMember ut = RequireRole ut ''member''"

text \<open>\<open>identity.StatusFromError\<close>; \<open>errors.Is\<close> looks through wrapped errors.\<close>

definition StatusFromError :: "goerr option \<Rightarrow> int \<times> string" where
  "StatusFromError err =
     (case err of
        None \<Rightarrow> (200, ''ok'')
      | Some e \<Rightarrow>
          if errors_is e ErrActorDisabled then (401, ''user disabled'')
          else if errors_is e ErrForbidden then (403, ''forbidden'')
          else if errors_is e ErrUnauthorized then (401, ''unauthorized'')
          else (500, ''internal server error''))"

section \<open>Who a request is\<close>

abbreviation sv_time :: "server \<Rightarrow> instant" where
  "sv_time s \<equiv> clock (sv_world s) (tick (sv_world s))"

lemma server_now_eq: "server_now s = (sv_time s, s\<lparr>sv_world := advance (sv_world s)\<rparr>)"
  by (simp add: server_now_def time_now_def)

lemma operator_metadata [simp]: "op_ID (operator_from_metadata m op) = op_ID op"
  by (simp add: operator_from_metadata_def split: option.split)

lemma session_operator: "as_UserID session \<noteq> 0 \<Longrightarrow> op_ID (ResolveOperator (session_context cx session)) = as_UserID session"
proof -
  assume nz: "as_UserID session \<noteq> 0"
  have "ActorFromContext (session_context cx session) = Some (session_Actor session)"
    by (simp add: session_context_def ContextWithPrincipal_def ContextWithActor_def ContextWithAdminSession_def ActorFromContext_def Let_def)
  moreover have "ac_ID (session_Actor session) = as_UserID session" by (simp add: session_Actor_def NewActor_def Let_def)
  ultimately have "op_ID (operator_from_actor (ActorFromContext (session_context cx session)) zero_operator) = as_UserID session"
    by (simp add: operator_from_actor_def)
  with nz show ?thesis
    by (simp add: ResolveOperator_def operator_from_principal_def Let_def split: option.split)
qed

lemma session_context_call:
  assumes "cx_session (rq_context r) = None"
  shows "\<exists>r' s' g. (\<forall>next. SessionContext ut lib (Some m) next r s = (case next r' s' of (rp, s2) \<Rightarrow> (map_option g rp, s2))) \<and>
     r'\<lparr>rq_context := rq_context r\<rparr> = r \<and>
     (case AdminSessionFromContext (rq_context r') of
        None \<Rightarrow> rq_context r' = rq_context r \<and> (\<forall>tok. rq_Cookie r adminSessionCookieName = CookieFound tok \<longrightarrow> g = add_cookie (clearSessionCookie (Some m)))
      | Some session \<Rightarrow>
          g = id \<and>
          (\<exists>tok body j. rq_Cookie r adminSessionCookieName = CookieFound tok \<and> jl_split lib tok = Some (HS256, body) \<and>
             jl_verify lib HS256 (sm_secret m) tok \<and> json_parse body = Some j \<and>
             jl_valid lib (sv_time s) j \<and> claims_session ut j = Some session \<and>
             CurrentOrgID (rq_context r') = Inr (as_OrgID session) \<and> ActorFromContext (rq_context r') = Some (session_Actor session) \<and>
             op_ID (ResolveOperator (rq_context r')) = as_UserID session))"
proof (cases "rq_Cookie r adminSessionCookieName")
  case NoCookie
  show ?thesis
    by (rule exI [of _ r], rule exI [of _ s], rule exI [of _ id])
       (use NoCookie assms in \<open>simp add: SessionContext_def CookieName_def AdminSessionFromContext_def option.map_id split: prod.split\<close>)
next
  case BadCookie
  show ?thesis
    by (rule exI [of _ r], rule exI [of _ s], rule exI [of _ "add_cookie (clearSessionCookie (Some m))"])
       (use BadCookie assms in \<open>simp add: SessionContext_def CookieName_def AdminSessionFromContext_def\<close>)
next
  case (CookieFound tok)
  let ?s = "s\<lparr>sv_world := advance (sv_world s)\<rparr>"
  show ?thesis
  proof (cases "ParseSessionJWT ut lib (Some m) tok (sv_time s)")
    case (Inl e)
    show ?thesis
      by (rule exI [of _ r], rule exI [of _ ?s], rule exI [of _ "add_cookie (clearSessionCookie (Some m))"])
         (use CookieFound Inl assms in \<open>simp add: SessionContext_def server_now_eq CookieName_def AdminSessionFromContext_def\<close>)
  next
    case (Inr session)
    let ?r = "with_context r (session_context (rq_context r) session)"
    from Inr obtain body j where tok: "jl_split lib tok = Some (HS256, body)" "jl_verify lib HS256 (sm_secret m) tok"
      "json_parse body = Some j" "jl_valid lib (sv_time s) j" "claims_session ut j = Some session" "as_UserID session \<noteq> 0" "as_OrgID session \<noteq> 0"
      by (rule ParseSession_Inr) auto
    have "op_ID (ResolveOperator (session_context (rq_context r) session)) = as_UserID session"
      using tok(6) by (rule session_operator)
    then have ctx: "AdminSessionFromContext (rq_context ?r) = Some session" "CurrentOrgID (rq_context ?r) = Inr (as_OrgID session)"
        "ActorFromContext (rq_context ?r) = Some (session_Actor session)" "op_ID (ResolveOperator (rq_context ?r)) = as_UserID session"
        "?r\<lparr>rq_context := rq_context r\<rparr> = r"
      using tok(7) by (simp_all add: session_context_def with_context_def ContextWithPrincipal_def ContextWithActor_def ContextWithAdminSession_def
          AdminSessionFromContext_def ActorFromContext_def CurrentOrgID_def Let_def)
    have "\<forall>next. SessionContext ut lib (Some m) next r s = (case next ?r ?s of (rp, s2) \<Rightarrow> (map_option id rp, s2))"
      using CookieFound Inr by (simp add: SessionContext_def server_now_eq CookieName_def option.map_id split: prod.split)
    with ctx tok CookieFound show ?thesis
      by (intro exI [of _ ?r] exI [of _ ?s] exI [of _ id]) auto
  qed
qed

text \<open>
  C11. A request is given the identity of a session only through the cookie: whatever handler stands behind the session
  middleware, it is called once, on a request that differs from the original in its context only; when the original context
  knows no session and the handler sees one, the cookie holds a token that names HS256, verifies under the session
  secret and is valid at this time, and organisation, actor and operator are those of its claims. A cookie that does not
  verify is cleared.
\<close>

theorem session_only_by_signed_cookie:
  assumes "cx_session (rq_context r) = None"
  shows "\<exists>r' s' g. (\<forall>next. SessionContext ut lib (Some m) next r s = (case next r' s' of (rp, s2) \<Rightarrow> (map_option g rp, s2))) \<and>
     r'\<lparr>rq_context := rq_context r\<rparr> = r \<and>
     (case AdminSessionFromContext (rq_context r') of
        None \<Rightarrow> rq_context r' = rq_context r \<and> (\<forall>tok. rq_Cookie r adminSessionCookieName = CookieFound tok \<longrightarrow> g = add_cookie (clearSessionCookie (Some m)))
      | Some session \<Rightarrow>
          g = id \<and>
          (\<exists>tok body j. rq_Cookie r adminSessionCookieName = CookieFound tok \<and> jl_split lib tok = Some (HS256, body) \<and>
             jl_verify lib HS256 (sm_secret m) tok \<and> json_parse body = Some j \<and>
             jl_valid lib (sv_time s) j \<and> claims_session ut j = Some session \<and>
             CurrentOrgID (rq_context r') = Inr (as_OrgID session) \<and> ActorFromContext (rq_context r') = Some (session_Actor session) \<and>
             op_ID (ResolveOperator (rq_context r')) = as_UserID session))"
  using assms by (rule session_context_call)

text \<open>The example: a process at a standing clock, whose random source delivers one block of bytes first and another one ever after.\<close>

definition ex_server :: server where
  "ex_server = \<lparr>sv_world = (calm_world empty_db)\<lparr>clock := (\<lambda>_. 0)\<rparr>, sv_requestIDCounter = 0, sv_codes = (\<lambda>_. None),
     sv_entropy = (\<lambda>k. Some (replicate 24 (if k = 0 then CHR ''A'' else CHR ''B''))), sv_draws = 0\<rparr>"

definition ex_http_request :: "string \<Rightarrow> http_request" where
  "ex_http_request m = \<lparr>rq_Method = m, rq_Header = [], rq_Query = [], rq_Form = Some [], rq_Cookie = (\<lambda>_. NoCookie), rq_Body = '''',
     rq_RemoteAddr = '''', rq_context = background\<rparr>"

definition ex_cookie_request :: http_request where
  "ex_cookie_request = (ex_http_request ''GET'')\<lparr>rq_Cookie := (\<lambda>_. CookieFound ''forged'')\<rparr>"

theorem session_only_by_signed_cookie_witness:
  "\<exists>r' s' g. (\<forall>next. SessionContext ascii_tables plain_library ex_manager next ex_cookie_request ex_server =
       (case next r' s' of (rp, s2) \<Rightarrow> (map_option g rp, s2))) \<and>
     AdminSessionFromContext (rq_context r') = None \<and> g = add_cookie (clearSessionCookie ex_manager)"
proof -
  have c: "rq_Cookie ex_cookie_request adminSessionCookieName = CookieFound ''forged''" "cx_session (rq_context ex_cookie_request) = None"
    by (simp_all add: ex_cookie_request_def ex_http_request_def background_def)
  have "jl_split plain_library ''forged'' = None" by (simp add: plain_library_def)
  with session_only_by_signed_cookie [OF c(2), of ascii_tables plain_library "NewAdminSessionManager ex_session_config" ex_server] c(1)
  show ?thesis by (fastforce split: option.splits)
qed

end
