(* ===== verification/SignIn.thy ===== *)
theory SignIn
  imports Http
begin

text \<open>
  Signing in (\<open>internal/api/handlers/auth.go\<close>): a token of the old console is exchanged for a session
  cookie, either directly or through a code that can be used once within a short time. The codes are kept in the
  memory of the process (\<open>sv_codes\<close>); the mutex of the store makes each of its operations one step.
\<close>

section \<open>Exchange codes\<close>

definition defaultExchangeCodeTTL :: duration where
  "defaultExchangeCodeTTL = 90 * Second"

text \<open>The zero value of \<open>time.Time\<close> is the first instant of the year 1.\<close>

definition zero_time :: instant where
  "zero_time = -62135596800 * Second"

definition code_expired :: "instant \<Rightarrow> authExchangeCodeEntry \<Rightarrow> bool" where
  "code_expired now e = (ee_codeExpiry e \<noteq> zero_time \<and> ee_codeExpiry e < now)"

definition cleanupExpiredLocked :: "instant \<Rightarrow> server \<Rightarrow> server" where
  "cleanupExpiredLocked now s =
     s\<lparr>sv_codes := (\<lambda>c. case sv_codes s c of None \<Rightarrow> None | Some e \<Rightarrow> if code_expired now e then None else Some e)\<rparr>"

definition base64_char :: "nat \<Rightarrow> char" where
  "base64_char n =
     (if n < 26 then chr (65 + n) else if n < 52 then chr (97 + (n - 26)) else if n < 62 then chr (48 + (n - 52))
      else if n = 62 then CHR ''-'' else CHR ''_'')"

text \<open>\<open>base64.RawURLEncoding.EncodeToString\<close>.\<close>

fun base64url :: "string \<Rightarrow> string" where
  "base64url [] = []"
| "base64url [a] = [base64_char (byte a div 4), base64_char (byte a mod 4 * 16)]"
| "base64url [a, b] =
     [base64_char (byte a div 4), base64_char (byte a mod 4 * 16 + byte b div 16), base64_char (byte b mod 16 * 4)]"
| "base64url (a # b # c # r) =
     base64_char (byte a div 4) # base64_char (byte a mod 4 * 16 + byte b div 16) #
     base64_char (byte b mod 16 * 4 + byte c div 64) # base64_char (byte c mod 64) # base64url r"

text \<open>\<open>generateExchangeCode\<close>: \<open>sv_entropy\<close> delivers the 24 bytes of each call of \<open>rand.Read\<close>, \<open>None\<close> is its error.\<close>

definition generateExchangeCode :: "server \<Rightarrow> (goerr + string) \<times> server" where
  "generateExchangeCode s =
     (let s1 = s\<lparr>sv_draws := Suc (sv_draws s)\<rparr> in
      case sv_entropy s (sv_draws s) of
        None \<Rightarrow> (Inl (Plain ''read exchange code entropy''), s1)
      | Some raw \<Rightarrow> (Inr (base64url raw), s1))"

text \<open>The loop of \<open>Issue\<close>, with the number of attempts that are left.\<close>

fun issue_attempts :: "nat \<Rightarrow> authExchangeCodeEntry \<Rightarrow> server \<Rightarrow> (goerr + string) \<times> server" where
  "issue_attempts 0 e s = (Inl (Plain ''unable to allocate exchange code''), s)"
| "issue_attempts (Suc n) e s =
     (case generateExchangeCode s of
        (Inl err, s1) \<Rightarrow> (Inl err, s1)
      | (Inr code, s1) \<Rightarrow>
          if sv_codes s1 code \<noteq> None then issue_attempts n e s1
          else (Inr code, s1\<lparr>sv_codes := (sv_codes s1)(code \<mapsto> e)\<rparr>))"

definition Issue :: "duration option \<Rightarrow> string \<Rightarrow> instant \<Rightarrow> server \<Rightarrow> (goerr + string \<times> duration) \<times> server" where
  "Issue codes sessionJWT expiresAt s =
     (case codes of
        None \<Rightarrow> (Inl (Plain ''exchange code store is required''), s)
      | Some ttl \<Rightarrow>
          (let (now, s1) = server_now s;
               codeExpiry0 = now + ttl;
               codeExpiry = (if expiresAt \<noteq> zero_time \<and> expiresAt < codeExpiry0 then expiresAt else codeExpiry0);
               s2 = cleanupExpiredLocked now s1
           in case issue_attempts 5 \<lparr>ee_sessionJWT = sessionJWT, ee_expiresAt = expiresAt, ee_codeExpiry = codeExpiry\<rparr> s2 of
                (Inl err, s3) \<Rightarrow> (Inl err, s3)
              | (Inr code, s3) \<Rightarrow> (case server_now s3 of (now2, s4) \<Rightarrow> (Inr (code, codeExpiry - now2), s4))))"

definition Consume :: "duration option \<Rightarrow> string \<Rightarrow> server \<Rightarrow> authExchangeCodeEntry option \<times> server" where
  "Consume codes code s =
     (case codes of
        None \<Rightarrow> (None, s)
      | Some _ \<Rightarrow>
          (let (now, s1) = server_now s;
               trimmed = TrimSpace code
           in if trimmed = '''' then (None, s1)
              else
                (let s2 = cleanupExpiredLocked now s1 in
                 case sv_codes s2 trimmed of
                   None \<Rightarrow> (None, s2)
                 | Some entry \<Rightarrow>
                     (let s3 = s2\<lparr>sv_codes := (sv_codes s2)(trimmed := None)\<rparr> in
                      if code_expired now entry then (None, s3) else (Some entry, s3)))))"

section \<open>Handlers\<close>

definition DefaultAdminLoginURL :: string where
  "DefaultAdminLoginURL = ''https://appadmin.cq.qiludev.com/cq-admin/index.html''"

definition DefaultAdminRedirectURL :: string where
  "DefaultAdminRedirectURL = ''/''"

definition normalizeRedirectTarget :: "string \<Rightarrow> string \<Rightarrow> string" where
  "normalizeRedirectTarget v fallback = (let trimmed = TrimSpace v in if trimmed = '''' then fallback else trimmed)"

text \<open>\<open>ah_exchangeCodeStore\<close> is the lifetime of the codes of the store, \<open>None\<close> the nil store.\<close>

record AuthHandler =
  ah_manager :: "AdminSessionManager option"
  ah_loginURL :: string
  ah_redirectURL :: string
  ah_exchangeCodeStore :: "duration option"

definition loginRedirectURL :: "AuthHandler option \<Rightarrow> string" where
  "loginRedirectURL h =
     (case h of None \<Rightarrow> DefaultAdminLoginURL | Some x \<Rightarrow> normalizeRedirectTarget (ah_loginURL x) DefaultAdminLoginURL)"

definition successRedirectURL :: "AuthHandler option \<Rightarrow> string" where
  "successRedirectURL h =
     (case h of None \<Rightarrow> DefaultAdminRedirectURL | Some x \<Rightarrow> normalizeRedirectTarget (ah_redirectURL x) DefaultAdminRedirectURL)"

definition writeMethodNotAllowed :: http_reply where
  "writeMethodNotAllowed = json_reply 405 (response_Fail 405 ''method not allowed'')"

definition clearAdminSessionCookie :: "AdminSessionManager option \<Rightarrow> http_cookie" where
  "clearAdminSessionCookie manager =
     (let (name, secure) = (case manager of None \<Rightarrow> (''as_admin_session'', False) | Some m \<Rightarrow> (CookieName manager, SecureCookie manager))
      in \<lparr>hc_Name = name, hc_Value = '''', hc_Path = ''/'', hc_HttpOnly = True, hc_Secure = secure, hc_SameSite = ''Lax'',
          hc_MaxAge = -1, hc_Expires = 0\<rparr>)"

text \<open>
  \<open>int(d.Seconds())\<close>: the whole seconds and the rest of the division by a second are added as floats, and the sum
  is cut off.
\<close>

definition seconds_of_nat :: "nat \<Rightarrow> nat" where
  "seconds_of_nat d =
     (case float_of_ratio False (d mod 1000000000) 1000000000 of
        None \<Rightarrow> 0
      | Some x \<Rightarrow>
          (let p = 2 ^ nat (- fl_exp x) in
           case float_of_ratio False (d div 1000000000 * p + fl_mant x) p of None \<Rightarrow> 0 | Some y \<Rightarrow> float_trunc y))"

definition int_seconds :: "duration \<Rightarrow> int" where
  "int_seconds d = (if d < 0 then - int (seconds_of_nat (nat (- d))) else int (seconds_of_nat (nat d)))"

definition setAdminSessionCookie :: "AdminSessionManager option \<Rightarrow> string \<Rightarrow> instant \<Rightarrow> server \<Rightarrow> http_cookie list \<times> server" where
  "setAdminSessionCookie manager sessionJWT expiresAt s =
     (case manager of
        None \<Rightarrow> ([], s)
      | Some m \<Rightarrow>
          (case server_now s of (now, s1) \<Rightarrow>
             (let maxAge0 = int_seconds (expiresAt - now);
                  maxAge = (if maxAge0 < 0 then 0 else maxAge0)
              in ([\<lparr>hc_Name = CookieName manager, hc_Value = sessionJWT, hc_Path = ''/'', hc_HttpOnly = True,
                    hc_Secure = SecureCookie manager, hc_SameSite = ''Lax'', hc_MaxAge = maxAge, hc_Expires = expiresAt\<rparr>], s1))))"

definition no_store_headers :: "(string \<times> string) list" where
  "no_store_headers = [(''Cache-Control'', ''no-store, max-age=0''), (''Pragma'', ''no-cache''), (''Referrer-Policy'', ''no-referrer'')]"

definition setAuthNoStoreHeaders :: "http_reply \<Rightarrow> http_reply" where
  "setAuthNoStoreHeaders rp = rp\<lparr>rp_Header := no_store_headers @ rp_Header rp\<rparr>"

text \<open>The answer that sends the browser to the old console, without a session.\<close>

definition to_login :: "AuthHandler option \<Rightarrow> AdminSessionManager option \<Rightarrow> http_reply" where
  "to_login h manager = setAuthNoStoreHeaders (add_cookie (clearAdminSessionCookie manager) (redirect_reply (loginRedirectURL h)))"

text \<open>The answer that starts a session.\<close>

definition signed_in :: "AuthHandler \<Rightarrow> string \<Rightarrow> instant \<Rightarrow> server \<Rightarrow> http_reply option \<times> server" where
  "signed_in h sessionJWT expiresAt s =
     (case setAdminSessionCookie (ah_manager h) sessionJWT expiresAt s of (cookies, s1) \<Rightarrow>
        (Some (setAuthNoStoreHeaders ((redirect_reply (successRedirectURL (Some h)))\<lparr>rp_Cookies := cookies\<rparr>)), s1))"

definition Login :: "float_env \<Rightarrow> jwt_library \<Rightarrow> AuthHandler \<Rightarrow> handler" where
  "Login fe lib h r s =
     (if rq_Method r \<noteq> ''GET'' then (Some writeMethodNotAllowed, s)
      else
        (case ah_manager h of
           None \<Rightarrow> (Some (to_login (Some h) None), s)
         | Some m \<Rightarrow>
             (let code = TrimSpace (query_get r ''code'') in
              if code \<noteq> '''' then
                (case Consume (ah_exchangeCodeStore h) code s of
                   (None, s1) \<Rightarrow> (Some (to_login (Some h) (ah_manager h)), s1)
                 | (Some entry, s1) \<Rightarrow> signed_in h (ee_sessionJWT entry) (ee_expiresAt entry) s1)
              else
                (let legacyJWT = TrimSpace (query_get r ''jwt'') in
                 if legacyJWT = '''' then (Some (to_login (Some h) (ah_manager h)), s)
                 else
                   (let (now1, s1) = server_now s; (now2, s2) = server_now s1 in
                    case ExchangeLegacyJWT fe lib (ah_manager h) legacyJWT now1 now2 of
                      Inl _ \<Rightarrow> (Some (to_login (Some h) (ah_manager h)), s2)
                    | Inr (sessionJWT, _, expiresAt) \<Rightarrow> signed_in h sessionJWT expiresAt s2)))))"

definition split_space :: "string \<Rightarrow> (string \<times> string) option" where
  "split_space s =
     (case dropWhile (\<lambda>c. c \<noteq> CHR '' '') s of [] \<Rightarrow> None | _ # r \<Rightarrow> Some (takeWhile (\<lambda>c. c \<noteq> CHR '' '') s, r))"

definition bearerToken :: "unicode_tables \<Rightarrow> string \<Rightarrow> string option" where
  "bearerToken ut header =
     (case split_space header of
        None \<Rightarrow> None
      | Some (scheme, rest) \<Rightarrow>
          if \<not> EqualFold ut scheme ''Bearer'' then None
          else (let token = TrimSpace rest in if token = '''' then None else Some token))"

text \<open>\<open>json.NewDecoder(r).Decode\<close>: the first value of the input; what follows it is not read.\<close>

definition json_first :: "string \<Rightarrow> json option" where
  "json_first s = map_option fst (parse_value (Suc (2 * length s)) s)"

definition jwt_payload :: "unicode_tables \<Rightarrow> string \<Rightarrow> string option" where
  "jwt_payload ut body =
     (case json_first (take 1048576 body) of
        None \<Rightarrow> None
      | Some j \<Rightarrow> decode_struct ut [''jwt''] (\<lambda>_ v _. decode_string v '''') j '''')"

definition readLegacyJWTFromExchangeRequest :: "unicode_tables \<Rightarrow> http_request \<Rightarrow> string option" where
  "readLegacyJWTFromExchangeRequest ut r =
     (case bearerToken ut (TrimSpace (header_get r ''Authorization'')) of
        Some token \<Rightarrow> Some token
      | None \<Rightarrow>
          if has_prefix ''application/json'' (TrimSpace (header_get r ''Content-Type'')) then
            (case jwt_payload ut (rq_Body r) of
               None \<Rightarrow> None
             | Some raw \<Rightarrow> (let token = TrimSpace raw in if token = '''' then None else Some token))
          else
            (case rq_Form r of
               None \<Rightarrow> None
             | Some form \<Rightarrow>
                 (let token = TrimSpace (case map_of form ''jwt'' of None \<Rightarrow> '''' | Some v \<Rightarrow> v)
                  in if token = '''' then None else Some token)))"

definition query_escape_char :: "char \<Rightarrow> string" where
  "query_escape_char c =
     (let b = byte c in
      if (65 \<le> b \<and> b \<le> 90) \<or> (97 \<le> b \<and> b \<le> 122) \<or> (48 \<le> b \<and> b \<le> 57) \<or> c \<in> set ''-_.~'' then [c]
      else if c = CHR '' '' then ''+''
      else CHR ''%'' # map (\<lambda>d. (''0123456789ABCDEF'') ! d) [b div 16, b mod 16])"

definition QueryEscape :: "string \<Rightarrow> string" where
  "QueryEscape s = concat (map query_escape_char s)"

definition Exchange :: "unicode_tables \<Rightarrow> float_env \<Rightarrow> jwt_library \<Rightarrow> AuthHandler \<Rightarrow> handler" where
  "Exchange ut fe lib h r s =
     (if rq_Method r \<noteq> ''POST'' then (Some writeMethodNotAllowed, s)
      else if ah_manager h = None \<or> ah_exchangeCodeStore h = None
      then (Some (setAuthNoStoreHeaders (json_reply 503 (response_Fail 503 ''auth exchange unavailable''))), s)
      else
        (case readLegacyJWTFromExchangeRequest ut r of
           None \<Rightarrow>
             (Some (setAuthNoStoreHeaders (add_cookie (clearAdminSessionCookie (ah_manager h))
                (json_reply 400 (response_Fail 400 ''legacy jwt is required'')))), s)
         | Some legacyJWT \<Rightarrow>
             (let (now1, s1) = server_now s; (now2, s2) = server_now s1 in
              case ExchangeLegacyJWT fe lib (ah_manager h) legacyJWT now1 now2 of
                Inl _ \<Rightarrow>
                  (Some (setAuthNoStoreHeaders (add_cookie (clearAdminSessionCookie (ah_manager h))
                     (json_reply 401 (response_Fail 401 ''unauthorized'')))), s2)
              | Inr (sessionJWT, _, expiresAt) \<Rightarrow>
                  (case Issue (ah_exchangeCodeStore h) sessionJWT expiresAt s2 of
                     (Inl _, s3) \<Rightarrow>
                       (Some (setAuthNoStoreHeaders (json_reply 500 (response_Fail 500 ''auth exchange unavailable''))), s3)
                   | (Inr (code, ttl), s3) \<Rightarrow>
                       (Some (setAuthNoStoreHeaders (json_reply 200 (response_OK ''exchange''
                          (JObj [(''code'', JStr code), (''expires_in_seconds'', JNum (Itoa (int_seconds ttl))),
                                 (''redirect_path'', JStr (''/auth/login?code='' @ QueryEscape code))])))), s3)))))"

definition session_handler :: handler where
  "session_handler r s =
     (if rq_Method r \<noteq> ''GET'' then (Some writeMethodNotAllowed, s)
      else
        (case AdminSessionFromContext (rq_context r) of
           None \<Rightarrow> (Some (json_reply 401 (response_Fail 401 ''unauthorized'')), s)
         | Some session \<Rightarrow>
             if as_OrgID session = 0 then (Some (json_reply 401 (response_Fail 401 ''unauthorized'')), s)
             else (Some (json_reply 200 (response_OK ''session''
                (JObj [(''avatar'', JStr (as_Avatar session)), (''departmentid'', JUint (as_DepartmentID session)),
                       (''id'', JUint (as_UserID session)), (''is_open_edu'', JBool (as_IsOpenEdu session)),
                       (''nickname'', JStr (as_Nickname session)), (''orgid'', JUint (as_OrgID session)),
                       (''orgname'', JStr (as_OrgName session)), (''platform'', JStr (as_Platform session)),
                       (''priv'', JStr (as_Priv session)), (''roleid'', JStr (as_RoleID session))]))), s)))"

definition Logout :: "AuthHandler \<Rightarrow> handler" where
  "Logout h r s =
     (if rq_Method r \<noteq> ''POST'' then (Some writeMethodNotAllowed, s)
      else (Some (add_cookie (clearAdminSessionCookie (ah_manager h))
              (json_reply 200 (response_OK ''logout'' (JObj [(''ok'', JBool True)])))), s))"

definition new_auth_handler :: "AdminSessionManager option \<Rightarrow> SessionConfig \<Rightarrow> AuthHandler" where
  "new_auth_handler manager cfg =
     \<lparr>ah_manager = manager, ah_loginURL = normalizeRedirectTarget (sc_LoginURL cfg) DefaultAdminLoginURL,
      ah_redirectURL = normalizeRedirectTarget (sc_RedirectURL cfg) DefaultAdminRedirectURL,
      ah_exchangeCodeStore = Some defaultExchangeCodeTTL\<rparr>"

text \<open>The handler of a path.\<close>

definition RegisterAuthRoutes ::
    "unicode_tables \<Rightarrow> float_env \<Rightarrow> jwt_library \<Rightarrow> AdminSessionManager option \<Rightarrow> SessionConfig \<Rightarrow> string \<Rightarrow> handler option" where
  "RegisterAuthRoutes ut fe lib manager cfg path =
     (let h = new_auth_handler manager cfg in
      if path = ''/auth/login'' then Some (Login fe lib h)
      else if path = ''/api/v1/auth/exchange'' then Some (Exchange ut fe lib h)
      else if path = ''/api/v1/auth/session'' then Some session_handler
      else if path = ''/api/v1/auth/logout'' then Some (Logout h)
      else None)"

section \<open>Codes\<close>

lemma cleanup_simps [simp]:
  "sv_entropy (cleanupExpiredLocked now s) = sv_entropy s" "sv_draws (cleanupExpiredLocked now s) = sv_draws s"
  "sv_world (cleanupExpiredLocked now s) = sv_world s"
  by (simp_all add: cleanupExpiredLocked_def)

lemma cleanup_codes:
  "sv_codes (cleanupExpiredLocked now s) c =
     (case sv_codes s c of None \<Rightarrow> None | Some e \<Rightarrow> if code_expired now e then None else Some e)"
  by (simp add: cleanupExpiredLocked_def)

lemma issue_attempts_result:
  assumes "issue_attempts n e s = (r, s')"
  shows "sv_entropy s' = sv_entropy s \<and> sv_draws s \<le> sv_draws s' \<and>
         (case r of
            Inl _ \<Rightarrow> sv_codes s' = sv_codes s
          | Inr code \<Rightarrow> sv_codes s' = (sv_codes s)(code \<mapsto> e) \<and> sv_codes s code = None \<and>
              (\<exists>k raw. sv_draws s \<le> k \<and> sv_entropy s k = Some raw \<and> code = base64url raw))"
  using assms
proof (induction n arbitrary: s)
  case (Suc n)
  let ?s1 = "s\<lparr>sv_draws := Suc (sv_draws s)\<rparr>"
  show ?case
  proof (cases "sv_entropy s (sv_draws s)")
    case None
    with Suc.prems show ?thesis by (auto simp: generateExchangeCode_def)
  next
    case (Some raw)
    show ?thesis
    proof (cases "sv_codes s (base64url raw)")
      case None
      have "\<exists>k raw'. sv_draws s \<le> k \<and> sv_entropy s k = Some raw' \<and> base64url raw = base64url raw'" using Some by blast
      moreover have "r = Inr (base64url raw)" "s' = ?s1\<lparr>sv_codes := (sv_codes s)(base64url raw \<mapsto> e)\<rparr>"
        using None Some Suc.prems by (auto simp: generateExchangeCode_def)
      ultimately show ?thesis using None by simp
    next
      case (Some e')
      with \<open>sv_entropy s (sv_draws s) = Some raw\<close> Suc.prems have "issue_attempts n e ?s1 = (r, s')"
        by (simp add: generateExchangeCode_def)
      from Suc.IH [OF this] show ?thesis by (auto split: sum.splits dest: Suc_leD)
    qed
  qed
qed auto

text \<open>A code stays unknown while the random source does not deliver it again.\<close>

definition forgotten :: "string \<Rightarrow> server \<Rightarrow> bool" where
  "forgotten code s = (sv_codes s code = None \<and> (\<forall>k raw. sv_draws s \<le> k \<longrightarrow> sv_entropy s k = Some raw \<longrightarrow> base64url raw \<noteq> code))"

lemma Issue_codes:
  assumes "Issue codes jwt e s = (r, s')"
  shows "sv_entropy s' = sv_entropy s \<and> sv_draws s \<le> sv_draws s' \<and> (forgotten code s \<longrightarrow> sv_codes s' code = None)"
proof (cases codes)
  case None
  with assms show ?thesis by (auto simp: Issue_def forgotten_def)
next
  case (Some ttl)
  let ?now = "sv_time s"
  let ?x = "if e \<noteq> zero_time \<and> e < ?now + ttl then e else ?now + ttl"
  obtain q s3 where q: "issue_attempts 5 \<lparr>ee_sessionJWT = jwt, ee_expiresAt = e, ee_codeExpiry = ?x\<rparr>
      (cleanupExpiredLocked ?now (s\<lparr>sv_world := advance (sv_world s)\<rparr>)) = (q, s3)" by fastforce
  have "sv_codes s' = sv_codes s3 \<and> sv_entropy s' = sv_entropy s3 \<and> sv_draws s' = sv_draws s3"
    using assms Some q by (cases q) (auto simp: Issue_def server_now_eq Let_def)
  then have s': "sv_codes s' = sv_codes s3" "sv_entropy s' = sv_entropy s3" "sv_draws s' = sv_draws s3" by auto
  from issue_attempts_result [OF q] show ?thesis
    by (auto simp: s' forgotten_def cleanup_codes split: sum.splits option.splits)
qed

lemma Consume_codes:
  assumes "Consume codes c s = (r, s')"
  shows "sv_entropy s' = sv_entropy s \<and> sv_draws s' = sv_draws s \<and> (sv_codes s code = None \<longrightarrow> sv_codes s' code = None)"
  using assms
  by (auto simp: Consume_def server_now_eq Let_def cleanup_codes split: option.splits if_splits)

lemma Consume_Some:
  assumes "Consume codes c s = (Some e, s')"
  shows "sv_codes s' (TrimSpace c) = None" and "sv_codes s (TrimSpace c) = Some e"
    and "\<not> code_expired (sv_time s) e" and "TrimSpace c \<noteq> ''''"
  using assms
  by (auto simp: Consume_def server_now_eq Let_def cleanup_codes split: option.splits if_splits)

lemma Consume_found:
  assumes "sv_codes s (TrimSpace c) = Some e" and "\<not> code_expired (sv_time s) e" and "TrimSpace c \<noteq> ''''"
  obtains s' where "Consume (Some ttl) c s = (Some e, s')" and "sv_codes s' (TrimSpace c) = None" and "sv_entropy s' = sv_entropy s"
    and "sv_draws s' = sv_draws s"
  using assms by (auto simp: Consume_def server_now_eq Let_def cleanup_codes)

section \<open>Runs of the sign-in routes\<close>

text \<open>What a process does between two looks at its codes: it serves sign-in requests, and other things happen that leave the codes alone.\<close>

inductive auth_run :: "unicode_tables \<Rightarrow> float_env \<Rightarrow> jwt_library \<Rightarrow> AdminSessionManager option \<Rightarrow> SessionConfig \<Rightarrow> server \<Rightarrow> server \<Rightarrow> bool"
  for ut fe lib manager cfg where
  start: "auth_run ut fe lib manager cfg s s"
| serve: "auth_run ut fe lib manager cfg s s1 \<Longrightarrow> RegisterAuthRoutes ut fe lib manager cfg path = Some h \<Longrightarrow> h r s1 = (rp, s2) \<Longrightarrow>
    auth_run ut fe lib manager cfg s s2"
| elsewhere: "auth_run ut fe lib manager cfg s s1 \<Longrightarrow> sv_codes s2 = sv_codes s1 \<Longrightarrow> sv_entropy s2 = sv_entropy s1 \<Longrightarrow> sv_draws s2 = sv_draws s1 \<Longrightarrow>
    auth_run ut fe lib manager cfg s s2"

lemma signed_in_codes: "signed_in h jwt e s = (rp, s') \<Longrightarrow> sv_codes s' = sv_codes s \<and> sv_entropy s' = sv_entropy s \<and> sv_draws s' = sv_draws s"
  by (auto simp: signed_in_def setAdminSessionCookie_def server_now_eq Let_def split: option.splits)

definition moves_on :: "server \<Rightarrow> server \<Rightarrow> bool" where
  "moves_on s s' = (sv_entropy s' = sv_entropy s \<and> sv_draws s \<le> sv_draws s' \<and> (\<forall>code. forgotten code s \<longrightarrow> sv_codes s' code = None))"

lemma moves_on_forgotten:
  assumes "moves_on s s'" and "forgotten code s"
  shows "forgotten code s'"
  unfolding forgotten_def
proof (intro conjI allI impI)
  show "sv_codes s' code = None" using assms by (simp add: moves_on_def)
  fix k raw
  assume "sv_draws s' \<le> k" and "sv_entropy s' k = Some raw"
  with assms have "sv_draws s \<le> k" "sv_entropy s k = Some raw" by (auto simp: moves_on_def)
  with assms(2) show "base64url raw \<noteq> code" unfolding forgotten_def by blast
qed

lemma moves_on_same: "sv_codes s' = sv_codes s \<Longrightarrow> sv_entropy s' = sv_entropy s \<Longrightarrow> sv_draws s' = sv_draws s \<Longrightarrow> moves_on s s'"
  by (simp add: moves_on_def forgotten_def)

lemma moves_on_trans:
  assumes "moves_on s s1" and "moves_on s1 s2"
  shows "moves_on s s2"
  using assms moves_on_forgotten [OF assms(1)] unfolding moves_on_def by (metis le_trans)

lemma moves_on_simps [simp]: "moves_on s s" "moves_on s (s\<lparr>sv_world := x\<rparr>)"
  by (simp_all add: moves_on_same)

lemma Issue_moves: "Issue codes jwt e s = (r, s') \<Longrightarrow> moves_on s s'"
  using Issue_codes unfolding moves_on_def by blast

lemma Consume_moves: "Consume codes c s = (r, s') \<Longrightarrow> moves_on s s'"
  using Consume_codes unfolding moves_on_def forgotten_def by (metis le_refl)

lemma signed_in_moves: "moves_on s s1 \<Longrightarrow> moves_on s (snd (signed_in h jwt e s1))"
  using signed_in_codes [of h jwt e s1] by (metis moves_on_same moves_on_trans prod.collapse)

lemma Login_moves: "moves_on s (snd (Login fe lib h r s))"
  by (auto simp: Login_def Let_def server_now_eq split: option.split sum.split prod.split intro!: signed_in_moves intro: Consume_moves)

lemma Issue_later: "Issue codes jwt e (s\<lparr>sv_world := x\<rparr>) = (r, s') \<Longrightarrow> moves_on s s'"
  using Issue_moves moves_on_trans moves_on_simps(2) by blast

lemma Exchange_moves: "moves_on s (snd (Exchange ut fe lib h r s))"
  by (auto simp: Exchange_def Let_def server_now_eq split: option.split sum.split prod.split intro: Issue_later)

lemma route_moves:
  assumes "RegisterAuthRoutes ut fe lib manager cfg path = Some h" and "h r s = (rp, s')"
  shows "moves_on s s'"
proof -
  have "moves_on s (snd (h r s))"
    using assms(1) Login_moves Exchange_moves
    by (auto simp: RegisterAuthRoutes_def Let_def session_handler_def Logout_def split: if_splits option.split)
  with assms(2) show ?thesis by simp
qed

lemma auth_run_moves: "auth_run ut fe lib manager cfg s s' \<Longrightarrow> moves_on s s'"
  by (induction rule: auth_run.induct) (auto intro: moves_on_same moves_on_trans dest: route_moves)

text \<open>
  C16. An exchange code is good for one sign-in: once it has been redeemed, whatever requests the process serves afterwards, a
  login with the same code answers with the redirect to the old console and clears the session cookie, as long as
  the random source does not deliver the same code again.
\<close>

theorem exchange_code_single_use:
  assumes "Consume (Some ttl) code s = (Some entry, s1)" and "auth_run ut fe lib manager cfg s1 s2"
    and "\<forall>k raw. sv_draws s1 \<le> k \<longrightarrow> sv_entropy s1 k = Some raw \<longrightarrow> base64url raw \<noteq> TrimSpace code"
    and "rq_Method r = ''GET''" and "TrimSpace (query_get r ''code'') = TrimSpace code"
  shows "fst (Login fe lib (new_auth_handler manager cfg) r s2) = Some (to_login (Some (new_auth_handler manager cfg)) manager)"
proof -
  note c = Consume_Some [OF assms(1)]
  have "forgotten (TrimSpace code) s1" using c(1) assms(3) unfolding forgotten_def by blast
  then have f: "forgotten (TrimSpace code) s2" by (rule moves_on_forgotten [OF auth_run_moves [OF assms(2)]])
  obtain q s3 where q: "Consume (Some defaultExchangeCodeTTL) (TrimSpace code) s2 = (q, s3)" by fastforce
  have "q = None"
  proof (rule ccontr)
    assume "q \<noteq> None"
    then obtain e where "q = Some e" by blast
    with Consume_Some(2) [of "Some defaultExchangeCodeTTL" "TrimSpace code" s2 e s3] q f show False
      by (simp add: forgotten_def)
  qed
  with q assms(4,5) c(4) show ?thesis
    by (simp add: Login_def new_auth_handler_def split: option.split)
qed

section \<open>From the old token to the cookie\<close>

lemma base64_graphic: "graphic (base64_char n)"
proof -
  have "byte (CHR ''-'') = 45" "byte (CHR ''_'') = 95" by code_simp+
  then show ?thesis by (auto simp: base64_char_def graphic_def)
qed

lemma base64url_graphic: "list_all graphic (base64url s)"
  by (induction s rule: base64url.induct) (simp_all add: base64_graphic)

lemma base64url_empty [simp]: "base64url s = [] \<longleftrightarrow> s = []"
  by (cases s rule: base64url.cases) simp_all

lemma TrimSpace_base64url [simp]: "TrimSpace (base64url s) = base64url s"
proof (cases "base64url s = []")
  case False
  with base64url_graphic [of s] have "graphic (hd (base64url s))" "graphic (last (base64url s))" by (simp_all add: list_all_iff)
  with False show ?thesis by (intro TrimSpace_graphic)
qed simp



definition ex_exchange_request :: http_request where
  "ex_exchange_request = (ex_http_request ''POST'')\<lparr>rq_Header := [(''Authorization'', [''Bearer '' @ ex_legacy_token])]\<rparr>"

definition ex_login_request :: "string \<Rightarrow> http_request" where
  "ex_login_request code = (ex_http_request ''GET'')\<lparr>rq_Query := [(''code'', code)]\<rparr>"

abbreviation ex_auth :: AuthHandler where
  "ex_auth \<equiv> new_auth_handler ex_manager ex_session_config"

lemma ex_read: "readLegacyJWTFromExchangeRequest ascii_tables ex_exchange_request = Some ex_legacy_token"
  by code_simp

lemma exchange_signs: "ExchangeLegacyJWT fe lib manager token now1 now2 = Inr (tok, s, e) \<Longrightarrow> SignSessionJWT lib manager s now2 = Inr (tok, e)"
  by (auto simp: ExchangeLegacyJWT_def split: option.splits sum.splits)

lemma issue_first:
  "sv_entropy s (sv_draws s) = Some raw \<Longrightarrow> sv_codes s (base64url raw) = None \<Longrightarrow>
   issue_attempts (Suc n) e s = (Inr (base64url raw), s\<lparr>sv_draws := Suc (sv_draws s), sv_codes := (sv_codes s)(base64url raw \<mapsto> e)\<rparr>)"
  by (simp add: generateExchangeCode_def)

lemma Issue_fresh:
  assumes "sv_codes s = (\<lambda>_. None)" and "sv_entropy s (sv_draws s) = Some raw"
  shows "\<exists>d s' x. Issue (Some ttl) jwt e s = (Inr (base64url raw, d), s') \<and>
     sv_codes s' (base64url raw) = Some \<lparr>ee_sessionJWT = jwt, ee_expiresAt = e, ee_codeExpiry = x\<rparr> \<and> (x = e \<or> x = sv_time s + ttl) \<and>
     clock (sv_world s') = clock (sv_world s) \<and> sv_draws s' = Suc (sv_draws s) \<and> sv_entropy s' = sv_entropy s"
proof -
  let ?s2 = "cleanupExpiredLocked (sv_time s) (s\<lparr>sv_world := advance (sv_world s)\<rparr>)"
  have "sv_entropy ?s2 (sv_draws ?s2) = Some raw" "sv_codes ?s2 (base64url raw) = None" using assms by (simp_all add: cleanup_codes)
  note first = issue_first [OF this, of 4, simplified]
  then show ?thesis by (simp add: Issue_def server_now_eq Let_def advance_def)
qed

lemma ex_clock: "sv_time ex_server = 0" "clock (sv_world ex_server) n = 0" "clock (advance w) = clock w" "tick (advance w) = Suc (tick w)"
  by (simp_all add: ex_server_def advance_def)

lemma ex_exchange_runs:
  "\<exists>rp s1 entry others. Exchange ascii_tables ex_float_env plain_library ex_auth ex_exchange_request ex_server = (Some rp, s1) \<and>
     rp_Body rp = Some (response_OK ''exchange'' (JObj ((''code'', JStr (base64url (replicate 24 CHR ''A''))) # others))) \<and>
     sv_codes s1 (base64url (replicate 24 CHR ''A'')) = Some entry \<and> 0 \<le> ee_codeExpiry entry \<and> clock (sv_world s1) = (\<lambda>_. 0) \<and>
     sv_draws s1 = 1 \<and> sv_entropy s1 = sv_entropy ex_server"
proof -
  obtain tok session e where ex: "ExchangeLegacyJWT ex_float_env plain_library ex_manager ex_legacy_token 0 0 = Inr (tok, session, e)"
    using ex_exchange by blast
  have "0 < e" using sign_Inr(4) [OF exchange_signs [OF ex]] by (simp add: ex_manager_fields)
  let ?s2 = "ex_server\<lparr>sv_world := advance (advance (sv_world ex_server))\<rparr>"
  have srv: "sv_codes ?s2 = (\<lambda>_. None)" "sv_entropy ?s2 (sv_draws ?s2) = Some (replicate 24 CHR ''A'')" "sv_time ?s2 = 0"
    by (simp_all add: ex_server_def)
  from Issue_fresh [OF srv(1,2), of defaultExchangeCodeTTL tok e] obtain d s1 x where
      iss: "Issue (Some defaultExchangeCodeTTL) tok e ?s2 = (Inr (base64url (replicate 24 CHR ''A''), d), s1)"
    and s1: "sv_codes s1 (base64url (replicate 24 CHR ''A'')) = Some \<lparr>ee_sessionJWT = tok, ee_expiresAt = e, ee_codeExpiry = x\<rparr>"
      "x = e \<or> x = sv_time ?s2 + defaultExchangeCodeTTL" "clock (sv_world s1) = clock (sv_world ?s2)"
      "sv_draws s1 = Suc (sv_draws ?s2)" "sv_entropy s1 = sv_entropy ?s2" by blast
  have "0 \<le> x" using s1(2) \<open>0 < e\<close> srv(3) by (auto simp: defaultExchangeCodeTTL_def)
  moreover have "clock (sv_world s1) = (\<lambda>_. 0)" "sv_draws s1 = 1" "sv_entropy s1 = sv_entropy ex_server"
    using s1(3-5) by (simp_all add: ex_server_def)
  moreover have "Exchange ascii_tables ex_float_env plain_library ex_auth ex_exchange_request ex_server =
      (Some (setAuthNoStoreHeaders (json_reply 200 (response_OK ''exchange''
          (JObj [(''code'', JStr (base64url (replicate 24 CHR ''A''))), (''expires_in_seconds'', JNum (Itoa (int_seconds d))),
             (''redirect_path'', JStr (''/auth/login?code='' @ QueryEscape (base64url (replicate 24 CHR ''A''))))])))), s1)"
    using ex iss ex_read by (simp add: Exchange_def new_auth_handler_def server_now_eq ex_exchange_request_def ex_http_request_def ex_clock)
  ultimately show ?thesis using s1(1) by (simp add: setAuthNoStoreHeaders_def json_reply_def response_OK_def)
qed

lemma ex_code: "TrimSpace (base64url (replicate 24 CHR ''A'')) = base64url (replicate 24 CHR ''A'')"
  "base64url (replicate 24 CHR ''B'') \<noteq> base64url (replicate 24 CHR ''A'')"
  by (simp, code_simp)


lemma ex_login_fields: "rq_Method (ex_login_request c) = ''GET''" "query_get (ex_login_request c) ''code'' = c"
  by (simp_all add: ex_login_request_def ex_http_request_def query_get_def)


theorem exchange_code_single_use_witness:
  "\<exists>code s1 entry s2.
     Consume (Some defaultExchangeCodeTTL) code s1 = (Some entry, s2) \<and>
     fst (Login ex_float_env plain_library ex_auth (ex_login_request code) s2) = Some (to_login (Some ex_auth) ex_manager)"
proof -
  let ?c = "base64url (replicate 24 CHR ''A'')"
  obtain s1 :: server and entry where e: "sv_codes s1 ?c = Some entry" "0 \<le> ee_codeExpiry entry" "clock (sv_world s1) = (\<lambda>_. 0)"
    "sv_draws s1 = 1" "sv_entropy s1 = sv_entropy ex_server"
    using ex_exchange_runs by blast
  have "\<not> code_expired (sv_time s1) entry" using e(2,3) by (simp add: code_expired_def)
  moreover have "TrimSpace ?c \<noteq> ''''" by simp
  ultimately obtain s2 where c: "Consume (Some defaultExchangeCodeTTL) ?c s1 = (Some entry, s2)"
    and s2: "sv_entropy s2 = sv_entropy ex_server" "sv_draws s2 = 1"
    using Consume_found [of s1 ?c entry] e by auto
  have "\<forall>k raw. sv_draws s2 \<le> k \<longrightarrow> sv_entropy s2 k = Some raw \<longrightarrow> base64url raw \<noteq> TrimSpace ?c"
    unfolding s2 ex_code(1) using ex_code(2) by (auto simp: ex_server_def)
  then have "fst (Login ex_float_env plain_library ex_auth (ex_login_request ?c) s2) = Some (to_login (Some ex_auth) ex_manager)"
    using exchange_code_single_use [OF c auth_run.start] by (simp add: ex_login_fields)
  with c show ?thesis by blast
qed

end
