(* ===== verification/GoNet.thy ===== *)
theory GoNet
  imports GoConv
begin

text \<open>
  The part of the packages \<open>net\<close> and \<open>net/netip\<close> that the sources use: textual IP addresses
  (\<open>ParseIP\<close>, \<open>IP.String\<close>), networks (\<open>ParseCIDR\<close>, \<open>IPNet.Contains\<close>) and host and port of an
  address (\<open>SplitHostPort\<close>). An \<open>IP\<close> is its list of bytes: sixteen for what \<open>ParseIP\<close> returns,
  with the prefix \<open>::ffff:0:0/96\<close> for an address of version 4. Errors carry no text here, since
  no caller looks at it.
\<close>

type_synonym ip = "nat list"

section \<open>Addresses of version 4\<close>

text \<open>
  \<open>parseIPv4Fields\<close>: the loop over the bytes with the value and the number of digits of the
  current field, the fields so far, and whether the last byte was a dot.
\<close>

fun ipv4_fields :: "string \<Rightarrow> nat \<Rightarrow> nat \<Rightarrow> nat list \<Rightarrow> bool \<Rightarrow> nat list option" where
  "ipv4_fields [] v n fs dot = (if length fs < 3 then None else Some (fs @ [v]))"
| "ipv4_fields (c # cs) v n fs dot =
     (if is_digit c then
        (if n = 1 \<and> v = 0 then None
         else (let v' = v * 10 + digit_val c in if v' > 255 then None else ipv4_fields cs v' (Suc n) fs False))
      else if c = CHR ''.'' then
        (if dot \<or> cs = [] \<or> length fs = 3 then None else ipv4_fields cs 0 0 (fs @ [v]) True)
      else None)"

definition parseIPv4Fields :: "string \<Rightarrow> nat list option" where
  "parseIPv4Fields s = ipv4_fields s 0 0 [] True"

definition v4InV6Prefix :: "nat list" where
  "v4InV6Prefix = replicate 10 0 @ [255, 255]"

section \<open>Addresses of version 6\<close>

definition hex_digit_val :: "char \<Rightarrow> nat option" where
  "hex_digit_val c =
     (let b = byte c in
      if is_digit c then Some (digit_val c)
      else if 97 \<le> b \<and> b \<le> 102 then Some (b - 87)
      else if 65 \<le> b \<and> b \<le> 70 then Some (b - 55)
      else None)"

text \<open>A group of hexadecimal digits, at most four: its value, its length and the rest.\<close>

fun hex_group :: "string \<Rightarrow> nat \<Rightarrow> nat \<Rightarrow> (nat \<times> nat \<times> string) option" where
  "hex_group [] acc n = Some (acc, n, [])"
| "hex_group (c # cs) acc n =
     (case hex_digit_val c of
        None \<Rightarrow> Some (acc, n, c # cs)
      | Some d \<Rightarrow> if n > 3 then None else hex_group cs (acc * 16 + d) (Suc n))"

lemma hex_group_length: "hex_group s acc n = Some (v, k, rest) \<Longrightarrow> length rest + k = length s + n"
  by (induction s acc n rule: hex_group.induct) (auto split: option.splits if_splits)

text \<open>
  The loop of \<open>parseIPv6\<close>: the bytes so far and the position of the ellipsis. It ends with the
  rest of the string that was not used.
\<close>

function ipv6_groups :: "string \<Rightarrow> nat list \<Rightarrow> nat option \<Rightarrow> (string \<times> nat list \<times> nat option) option" where
  "ipv6_groups s bs ell =
     (if length bs \<ge> 16 then Some (s, bs, ell)
      else
        (case hex_group s 0 0 of
           None \<Rightarrow> None
         | Some (acc, n, rest) \<Rightarrow>
             if n = 0 then None
             else if rest \<noteq> [] \<and> hd rest = CHR ''.'' then
               (if ell = None \<and> length bs \<noteq> 12 then None
                else if length bs + 4 > 16 then None
                else (case parseIPv4Fields s of None \<Rightarrow> None | Some fs \<Rightarrow> Some ([], bs @ fs, ell)))
             else
               (let bs' = bs @ [acc div 256, acc mod 256] in
                case rest of
                  [] \<Rightarrow> Some ([], bs', ell)
                | c # s1 \<Rightarrow>
                    if c \<noteq> CHR '':'' \<or> s1 = [] then None
                    else if hd s1 = CHR '':'' then
                      (if ell \<noteq> None then None
                       else if tl s1 = [] then Some ([], bs', Some (length bs'))
                       else ipv6_groups (tl s1) bs' (Some (length bs')))
                    else ipv6_groups s1 bs' ell)))"
  by pat_completeness auto

termination
  by (relation "measure (\<lambda>(s, bs, ell). length s)") (auto dest!: hex_group_length simp: length_tl)

definition expand_ellipsis :: "nat list \<Rightarrow> nat option \<Rightarrow> nat list option" where
  "expand_ellipsis bs ell =
     (if length bs < 16 then map_option (\<lambda>e. take e bs @ replicate (16 - length bs) 0 @ drop e bs) ell
      else if ell \<noteq> None then None else Some bs)"

text \<open>An address with a zone is refused by all callers here.\<close>

definition parseIPv6 :: "string \<Rightarrow> ip option" where
  "parseIPv6 s =
     (if CHR ''%'' \<in> set s then None
      else
        (let (s1, ell) = (if has_prefix ''::'' s then (drop 2 s, Some 0) else (s, None)) in
         if ell = Some 0 \<and> s1 = [] then Some (replicate 16 0)
         else (case ipv6_groups s1 [] ell of
                 None \<Rightarrow> None
               | Some (rest, bs, ell') \<Rightarrow> if rest \<noteq> [] then None else expand_ellipsis bs ell')))"

section \<open>Parsing and printing\<close>

text \<open>
  \<open>netip.ParseAddr\<close> looks for the first dot, colon or percent sign. The result tells the version
  apart, which \<open>ParseCIDR\<close> needs.
\<close>

datatype addr = Addr4 "nat list" | Addr6 "nat list"

definition ParseAddr :: "string \<Rightarrow> addr option" where
  "ParseAddr s =
     (case find (\<lambda>c. c \<in> set ''.:%'') s of
        None \<Rightarrow> None
      | Some c \<Rightarrow>
          if c = CHR ''.'' then map_option Addr4 (parseIPv4Fields s)
          else if c = CHR '':'' then map_option Addr6 (parseIPv6 s)
          else None)"

fun As16 :: "addr \<Rightarrow> ip" where
  "As16 (Addr4 bs) = v4InV6Prefix @ bs"
| "As16 (Addr6 bs) = bs"

definition ParseIP :: "string \<Rightarrow> ip option" where
  "ParseIP s = map_option As16 (ParseAddr s)"

definition To4 :: "ip \<Rightarrow> ip option" where
  "To4 i =
     (if length i = 4 then Some i
      else if length i = 16 \<and> take 12 i = v4InV6Prefix then Some (drop 12 i)
      else None)"

definition dotted :: "nat list \<Rightarrow> string" where
  "dotted bs = concat (map (\<lambda>b. CHR ''.'' # nat_str b) bs)"

definition hex_char :: "nat \<Rightarrow> char" where
  "hex_char d = ''0123456789abcdef'' ! d"

definition hex_str :: "nat \<Rightarrow> string" where
  "hex_str v =
     (if v < 16 then [hex_char v]
      else if v < 256 then map hex_char [v div 16, v mod 16]
      else if v < 4096 then map hex_char [v div 256, v div 16 mod 16, v mod 16]
      else map hex_char [v div 4096, v div 256 mod 16, v div 16 mod 16, v mod 16])"

fun groups16 :: "nat list \<Rightarrow> nat list" where
  "groups16 (a # b # bs) = (a * 256 + b) # groups16 bs"
| "groups16 _ = []"

text \<open>The leftmost longest run of at least two zero groups, as start and end.\<close>

definition zero_run :: "nat list \<Rightarrow> nat \<Rightarrow> nat" where
  "zero_run gs i = i + length (takeWhile (\<lambda>g. g = 0) (drop i gs))"

definition longest_zeros :: "nat list \<Rightarrow> (nat \<times> nat) option" where
  "longest_zeros gs =
     foldl (\<lambda>best i. let j = zero_run gs i; l = j - i in
        if l \<ge> 2 \<and> (case best of None \<Rightarrow> True | Some (a, b) \<Rightarrow> l > b - a) then Some (i, j) else best) None [0..<8]"

definition colon_str :: "nat list \<Rightarrow> string" where
  "colon_str gs = (case gs of [] \<Rightarrow> [] | g # r \<Rightarrow> hex_str g @ concat (map (\<lambda>x. CHR '':'' # hex_str x) r))"

definition string6 :: "ip \<Rightarrow> string" where
  "string6 i =
     (let gs = groups16 i in
      case longest_zeros gs of
        None \<Rightarrow> colon_str gs
      | Some (a, b) \<Rightarrow> colon_str (take a gs) @ ''::'' @ colon_str (drop b gs))"

definition ip_String :: "ip \<Rightarrow> string" where
  "ip_String i = (case To4 i of Some bs \<Rightarrow> tl (dotted bs) | None \<Rightarrow> string6 i)"

section \<open>Networks\<close>

record ip_net =
  net_IP :: ip
  net_Mask :: "nat list"

definition mask_byte :: "nat \<Rightarrow> nat" where
  "mask_byte n = (if n \<ge> 8 then 255 else 256 - 2 ^ (8 - n))"

fun CIDRMask :: "nat \<Rightarrow> nat \<Rightarrow> nat list" where
  "CIDRMask ones 0 = []"
| "CIDRMask ones (Suc k) = mask_byte ones # CIDRMask (ones - 8) k"

definition and_byte :: "nat \<Rightarrow> nat \<Rightarrow> nat" where
  "and_byte a b = unat (and (of_nat a :: 8 word) (of_nat b))"

definition split_slash :: "string \<Rightarrow> (string \<times> string) option" where
  "split_slash s = (let a = takeWhile (\<lambda>c. c \<noteq> CHR ''/'') s in if a = s then None else Some (a, drop (Suc (length a)) s))"

text \<open>\<open>dtoi\<close> stops at 16777215; the callers here accept at most 128.\<close>

definition ParseCIDR :: "string \<Rightarrow> ip_net option" where
  "ParseCIDR s =
     (case split_slash s of
        None \<Rightarrow> None
      | Some (a, bits) \<Rightarrow>
          (case (ParseAddr a, parse_nat bits) of
             (Some (Addr4 bs), Some n) \<Rightarrow>
               if n > 32 then None
               else (let m = CIDRMask n 4 in Some \<lparr>net_IP = map2 and_byte bs m, net_Mask = m\<rparr>)
           | (Some (Addr6 bs), Some n) \<Rightarrow>
               if n > 128 then None
               else (let m = CIDRMask n 16 in Some \<lparr>net_IP = map2 and_byte bs m, net_Mask = m\<rparr>)
           | _ \<Rightarrow> None))"

definition Contains :: "ip_net \<Rightarrow> ip \<Rightarrow> bool" where
  "Contains net i =
     (let nn = (case To4 (net_IP net) of Some b \<Rightarrow> b | None \<Rightarrow> net_IP net);
          m = (if length (net_Mask net) = 16 \<and> length nn = 4 then drop 12 (net_Mask net) else net_Mask net);
          x = (case To4 i of Some b \<Rightarrow> b | None \<Rightarrow> i)
      in length nn \<in> {4, 16} \<and> length m = length nn \<and> length x = length nn \<and>
         list_all2 (=) (map2 and_byte nn m) (map2 and_byte x m))"

section \<open>Host and port\<close>

definition last_index :: "char \<Rightarrow> string \<Rightarrow> nat option" where
  "last_index c s =
     (let t = takeWhile (\<lambda>x. x \<noteq> c) (rev s) in if length t = length s then None else Some (length s - length t - 1))"

definition first_index :: "char \<Rightarrow> string \<Rightarrow> nat option" where
  "first_index c s =
     (let t = takeWhile (\<lambda>x. x \<noteq> c) s in if length t = length s then None else Some (length t))"

definition SplitHostPort :: "string \<Rightarrow> (string \<times> string) option" where
  "SplitHostPort s =
     (case last_index (CHR '':'') s of
        None \<Rightarrow> None
      | Some i \<Rightarrow>
          (let port = drop (Suc i) s in
           if hd s = CHR ''['' then
             (case first_index (CHR '']'') s of
                None \<Rightarrow> None
              | Some e \<Rightarrow>
                  if Suc e = i \<and> CHR ''['' \<notin> set (drop 1 s) \<and> CHR '']'' \<notin> set (drop (Suc e) s)
                  then Some (take (e - 1) (drop 1 s), port) else None)
           else
             (let host = take i s in
              if CHR '':'' \<in> set host \<or> CHR ''['' \<in> set s \<or> CHR '']'' \<in> set s then None else Some (host, port))))"

section \<open>Addresses that were printed\<close>

text \<open>A field of an address of version 4 is read back as it was printed.\<close>

lemma ipv4_field_str:
  assumes "b < 256"
  shows "ipv4_fields (nat_str b @ rest) 0 0 fs dot = ipv4_fields rest b (length (nat_str b)) fs False"
proof -
  consider "b < 10" | "10 \<le> b" "b < 100" | "100 \<le> b" "b div 10 \<ge> 10" using assms by linarith
  then show ?thesis
  proof cases
    case 1
    then show ?thesis by (simp add: nat_str.simps [of b])
  next
    case 2
    then have "nat_str b = [digit (b div 10), digit (b mod 10)]"
      by (simp add: nat_str.simps [of b] nat_str.simps [of "b div 10"])
    moreover have "b div 10 \<noteq> 0" "b div 10 \<le> 255" using 2 by linarith+
    ultimately show ?thesis using 2 by (simp add: Let_def)
  next
    case 3
    define x y z where xyz: "x = b div 100" "y = b div 10 mod 10" "z = b mod 10"
    have h: "b div 10 div 10 = x" "b div 10 mod 10 = y" by (simp_all add: xyz div_mult2_eq [symmetric])
    have d: "x < 10" "x \<noteq> 0" using 3 assms unfolding xyz by linarith+
    have "y < 10" "z < 10" unfolding xyz by simp_all
    moreover have "b div 10 = x * 10 + y" using h div_mult_mod_eq [of "b div 10" 10] by simp
    then have "b = (x * 10 + y) * 10 + z" using div_mult_mod_eq [of b 10] by (simp add: xyz(3))
    ultimately have d: "x < 10" "x \<noteq> 0" "y < 10" "z < 10" "b = (x * 10 + y) * 10 + z" using d by blast+
    have "nat_str x = [digit x]" by (subst nat_str.simps) (simp add: d(1))
    moreover have "nat_str (b div 10) = nat_str x @ [digit y]" using 3(2) by (subst nat_str.simps) (simp add: h)
    moreover have "nat_str b = nat_str (b div 10) @ [digit z]" using 3(1) by (subst nat_str.simps) (simp add: xyz(3))
    ultimately have "nat_str b = [digit x, digit y, digit z]" by simp
    moreover have "x * 10 + y \<le> 255" using d assms by simp
    ultimately show ?thesis using d(1-4) assms unfolding d(5) by (simp add: Let_def)
  qed
qed

lemma parse_dotted:
  assumes "a < 256" "b < 256" "c < 256" "d < 256"
  shows "parseIPv4Fields (tl (dotted [a, b, c, d])) = Some [a, b, c, d]"
proof -
  have dot: "\<not> is_digit CHR ''.''" by (simp add: is_digit_def byte_def)
  have "ipv4_fields (nat_str d) 0 0 fs t = ipv4_fields [] d (length (nat_str d)) fs False" for fs t
    using ipv4_field_str [OF assms(4), of "[]"] by simp
  with dot assms show ?thesis
    by (simp add: parseIPv4Fields_def dotted_def ipv4_field_str)
qed

lemma first_mark_dotted: "find (\<lambda>c. c \<in> set ''.:%'') (nat_str n @ CHR ''.'' # s) = Some (CHR ''.'')"
proof -
  have "find P (xs @ c # s) = Some c" if "\<forall>x \<in> set xs. \<not> P x" "P c" for P and xs s :: string and c
    using that by (induction xs) simp_all
  moreover have "\<forall>x \<in> set (nat_str n). x \<notin> set ''.:%''"
    using nat_str_digits [of n] by (auto simp: list_all_iff is_digit_def byte_def)
  ultimately show ?thesis by simp
qed

lemma ParseIP_String4:
  assumes "a < 256" "b < 256" "c < 256" "d < 256"
  shows "ParseIP (ip_String (v4InV6Prefix @ [a, b, c, d])) = Some (v4InV6Prefix @ [a, b, c, d])"
proof -
  have "ip_String (v4InV6Prefix @ [a, b, c, d]) = tl (dotted [a, b, c, d])"
    by (simp add: ip_String_def To4_def v4InV6Prefix_def eval_nat_numeral)
  moreover have "find (\<lambda>c. c \<in> set ''.:%'') (tl (dotted [a, b, c, d])) = Some (CHR ''.'')"
    using first_mark_dotted by (simp add: dotted_def)
  ultimately show ?thesis using parse_dotted [OF assms] by (simp add: ParseIP_def ParseAddr_def)
qed

end
