(* ===== verification/ClientAddress.thy ===== *)
theory ClientAddress
  imports SignIn GoNet
begin

text \<open>
  Where a request comes from and who it speaks for
  (\<open>internal/middleware/auth.go\<close>, \<open>request_metadata.go\<close>): the client address behind trusted
  proxies, and the authentication by bearer token or by the headers of a gateway. The
  authenticator is an interface of the source and an argument here.
\<close>

section \<open>The client address\<close>

definition parseTrustedProxyCIDRs :: "string list \<Rightarrow> ip_net list" where
  "parseTrustedProxyCIDRs cidrs =
     List.map_filter (\<lambda>cidr. let trimmed = TrimSpace cidr in if trimmed = '''' then None else ParseCIDR trimmed) cidrs"

definition isTrustedProxy :: "ip option \<Rightarrow> ip_net list \<Rightarrow> bool" where
  "isTrustedProxy i nets = (case i of None \<Rightarrow> False | Some a \<Rightarrow> list_ex (\<lambda>n. Contains n a) nets)"

definition trim_prefix :: "string \<Rightarrow> string \<Rightarrow> string" where
  "trim_prefix p s = (if has_prefix p s then drop (length p) s else s)"

definition trim_suffix :: "string \<Rightarrow> string \<Rightarrow> string" where
  "trim_suffix p s = (if has_prefix (rev p) (rev s) then take (length s - length p) s else s)"

definition parseIPCandidate :: "string \<Rightarrow> ip option" where
  "parseIPCandidate v =
     (let trimmed = TrimSpace v in
      if trimmed = '''' then None
      else
        (let host = (case SplitHostPort trimmed of Some (h, _) \<Rightarrow> h | None \<Rightarrow> trimmed);
             bare = trim_suffix '']'' (trim_prefix ''['' host)
         in if bare = '''' then None else ParseIP bare))"

definition remoteIPFromRequest :: "string \<Rightarrow> ip option \<times> string" where
  "remoteIPFromRequest remoteAddr =
     (let trimmed = TrimSpace remoteAddr in
      if trimmed = '''' then (None, '''')
      else
        (case SplitHostPort trimmed of
           Some (host, _) \<Rightarrow>
             (case ParseIP host of Some i \<Rightarrow> (Some i, ip_String i) | None \<Rightarrow> (None, host))
         | None \<Rightarrow>
             (case ParseIP trimmed of Some i \<Rightarrow> (Some i, ip_String i) | None \<Rightarrow> (None, trimmed))))"

text \<open>\<open>strings.Split(value, ",")\<close>.\<close>

fun split_comma :: "string \<Rightarrow> string list" where
  "split_comma [] = ['''']"
| "split_comma (c # cs) =
     (if c = CHR '','' then '''' # split_comma cs
      else (case split_comma cs of [] \<Rightarrow> [[c]] | p # ps \<Rightarrow> (c # p) # ps))"

definition forwarded_candidates :: "string list \<Rightarrow> ip list" where
  "forwarded_candidates vals = List.map_filter parseIPCandidate (concat (map split_comma vals))"

definition forwardedClientIPFromHeaders :: "string list \<Rightarrow> ip_net list \<Rightarrow> ip option" where
  "forwardedClientIPFromHeaders vals nets = find (\<lambda>i. \<not> isTrustedProxy (Some i) nets) (rev (forwarded_candidates vals))"

definition clientIPFromRequest :: "http_request \<Rightarrow> ip_net list \<Rightarrow> string" where
  "clientIPFromRequest r nets =
     (let (remoteIP, remoteText) = remoteIPFromRequest (rq_RemoteAddr r) in
      if remoteText = '''' then ''''
      else if remoteIP = None \<or> \<not> isTrustedProxy remoteIP nets then remoteText
      else
        (case forwardedClientIPFromHeaders (header_values r ''X-Forwarded-For'') nets of
           Some i \<Rightarrow> ip_String i
         | None \<Rightarrow>
             (case parseIPCandidate (header_get r ''X-Real-IP'') of
                Some i \<Rightarrow> ip_String i
              | None \<Rightarrow> remoteText)))"

definition RequestMetadata_mw :: "string list \<Rightarrow> middleware" where
  "RequestMetadata_mw trustedProxyCIDRs next r s =
     next (with_context r (ContextWithRequestMetadata (rq_context r)
       \<lparr>rm_RequestID = '''', rm_SourceIP = clientIPFromRequest r (parseTrustedProxyCIDRs trustedProxyCIDRs)\<rparr>)) s"

section \<open>Authentication by token or header\<close>

record HeaderAuthConfig =
  ha_SourceHeader :: string
  ha_SourceValue :: string
  ha_UserIDHeader :: string
  ha_UsernameHeader :: string
  ha_RoleHeader :: string
  ha_StatusHeader :: string

definition normalizeHeaderAuthConfig :: "HeaderAuthConfig \<Rightarrow> HeaderAuthConfig option" where
  "normalizeHeaderAuthConfig c =
     (let n = \<lparr>ha_SourceHeader = TrimSpace (ha_SourceHeader c), ha_SourceValue = TrimSpace (ha_SourceValue c),
               ha_UserIDHeader = TrimSpace (ha_UserIDHeader c), ha_UsernameHeader = TrimSpace (ha_UsernameHeader c),
               ha_RoleHeader = TrimSpace (ha_RoleHeader c), ha_StatusHeader = TrimSpace (ha_StatusHeader c)\<rparr>
      in if ha_UserIDHeader n = '''' \<or> ha_UsernameHeader n = '''' then None else Some n)"

definition actorFromHeaders :: "unicode_tables \<Rightarrow> http_request \<Rightarrow> HeaderAuthConfig option \<Rightarrow> Actor option" where
  "actorFromHeaders ut r config =
     (case config of
        None \<Rightarrow> None
      | Some c \<Rightarrow>
          if ha_SourceHeader c \<noteq> '''' \<and>
             \<not> EqualFold ut (TrimSpace (header_get r (ha_SourceHeader c))) (ha_SourceValue c) then None
          else
            (let rawID = TrimSpace (header_get r (ha_UserIDHeader c));
                 username = TrimSpace (header_get r (ha_UsernameHeader c))
             in if rawID = '''' \<or> username = '''' then None
                else
                  (case ParseUint64 rawID of
                     None \<Rightarrow> None
                   | Some i \<Rightarrow>
                       (let given = TrimSpace (header_get r (ha_StatusHeader c));
                            status = (if given = '''' then ''active'' else given)
                        in Some (NewActor i username (TrimSpace (header_get r (ha_RoleHeader c))) status)))))"

definition contextWithActor :: "gocontext \<Rightarrow> Actor \<Rightarrow> gocontext" where
  "contextWithActor cx actor = ContextWithPrincipal (ContextWithActor cx actor) (PrincipalFromActor actor)"

record authOptions =
  ao_trustedHeader :: "HeaderAuthConfig option"
  ao_devHeader :: "HeaderAuthConfig option"
  ao_trustedProxyCIDRs :: "ip_net list"

type_synonym AuthOption = "authOptions \<Rightarrow> authOptions"

definition WithTrustedHeader :: "HeaderAuthConfig \<Rightarrow> AuthOption" where
  "WithTrustedHeader config = (\<lambda>options. options\<lparr>ao_trustedHeader := normalizeHeaderAuthConfig config\<rparr>)"

definition WithDevHeader :: "HeaderAuthConfig \<Rightarrow> AuthOption" where
  "WithDevHeader config = (\<lambda>options. options\<lparr>ao_devHeader := normalizeHeaderAuthConfig config\<rparr>)"

definition WithTrustedProxyCIDRs :: "string list \<Rightarrow> AuthOption" where
  "WithTrustedProxyCIDRs cidrs = (\<lambda>options. options\<lparr>ao_trustedProxyCIDRs := parseTrustedProxyCIDRs cidrs\<rparr>)"

definition middleware_bearerToken :: "unicode_tables \<Rightarrow> string \<Rightarrow> string option" where
  "middleware_bearerToken ut header =
     (case split_space header of
        None \<Rightarrow> None
      | Some (scheme, rest) \<Rightarrow>
          if \<not> EqualFold ut scheme ''Bearer'' then None
          else (let token = TrimSpace rest in if token = '''' then None else Some token))"

text \<open>An authenticator answers with an error or with a pointer to an actor; following a nil pointer panics.\<close>

type_synonym authenticator = "string \<Rightarrow> server \<Rightarrow> (goerr + Actor option) \<times> server"

definition Authenticate :: "unicode_tables \<Rightarrow> authenticator option \<Rightarrow> AuthOption option list \<Rightarrow> middleware" where
  "Authenticate ut authn options next r s =
     (let config = foldl (\<lambda>c opt. case opt of None \<Rightarrow> c | Some f \<Rightarrow> f c)
                     \<lparr>ao_trustedHeader = None, ao_devHeader = None, ao_trustedProxyCIDRs = []\<rparr> options;
          cx = ContextWithRequestMetadata (rq_context r)
                 \<lparr>rm_RequestID = '''', rm_SourceIP = clientIPFromRequest r (ao_trustedProxyCIDRs config)\<rparr>;
          header = TrimSpace (header_get r ''Authorization'')
      in if header = '''' then
           (case actorFromHeaders ut r (ao_trustedHeader config) of
              Some actor \<Rightarrow> next (with_context r (contextWithActor cx actor)) s
            | None \<Rightarrow>
                (case actorFromHeaders ut r (ao_devHeader config) of
                   Some actor \<Rightarrow> next (with_context r (contextWithActor cx actor)) s
                 | None \<Rightarrow> next (with_context r cx) s))
         else
           (case (middleware_bearerToken ut header, authn) of
              (Some token, Some authenticate) \<Rightarrow>
                (case authenticate token s of
                   (Inl e, s1) \<Rightarrow>
                     (case StatusFromError (Some e) of (status, message) \<Rightarrow> (Some (writeAuthError status message), s1))
                 | (Inr None, s1) \<Rightarrow> (None, s1)
                 | (Inr (Some actor), s1) \<Rightarrow> next (with_context r (contextWithActor cx actor)) s1)
            | _ \<Rightarrow> (Some (writeAuthError 401 ''unauthorized''), s)))"

section \<open>The client address cannot be forged\<close>

lemma split_comma_nonempty [simp]: "split_comma s \<noteq> []"
  by (induction s) (auto split: list.split)

lemma split_comma_free: "CHR '','' \<notin> set p \<Longrightarrow> split_comma p = [p]"
  by (induction p) auto

lemma split_comma_append: "split_comma (s @ CHR '','' # t) = split_comma s @ split_comma t"
proof (induction s)
  case (Cons c s)
  then show ?case by (cases "split_comma s") simp_all
qed simp

text \<open>A header to which comma-free entries were appended.\<close>

definition with_entries :: "string \<Rightarrow> string list \<Rightarrow> string" where
  "with_entries h ps = h @ concat (map (\<lambda>p. CHR '','' # p) ps)"

lemma split_with_entries:
  "list_all (\<lambda>p. CHR '','' \<notin> set p) ps \<Longrightarrow> split_comma (with_entries h ps) = split_comma h @ ps"
proof (induction ps arbitrary: h)
  case (Cons p ps)
  have "with_entries h (p # ps) = with_entries (h @ CHR '','' # p) ps" by (simp add: with_entries_def)
  moreover have "split_comma (h @ CHR '','' # p) = split_comma h @ [p]"
    using Cons.prems by (simp add: split_comma_append split_comma_free)
  ultimately show ?case using Cons by simp
qed (simp add: with_entries_def)

lemma candidates_with_entries:
  "list_all (\<lambda>p. CHR '','' \<notin> set p) ps \<Longrightarrow>
   forwarded_candidates (vals @ [with_entries h ps]) = forwarded_candidates (vals @ [h]) @ List.map_filter parseIPCandidate ps"
  by (simp add: forwarded_candidates_def split_with_entries map_filter_def)

lemma find_last: "P i \<Longrightarrow> \<forall>x \<in> set ys. \<not> P x \<Longrightarrow> find P (rev (xs @ i # ys)) = Some i"
proof -
  have "\<forall>x \<in> set zs. \<not> P x \<Longrightarrow> P i \<Longrightarrow> find P (zs @ i # as) = Some i" for zs as by (induction zs) auto
  then show "P i \<Longrightarrow> \<forall>x \<in> set ys. \<not> P x \<Longrightarrow> find P (rev (xs @ i # ys)) = Some i" by simp
qed

text \<open>
  C14. The client address a request is logged with cannot be chosen by the client. A peer outside the trusted networks is logged
  with its own address, whatever its headers say. Behind trusted proxies, where each proxy appends the address of its
  peer to \<open>X-Forwarded-For\<close>, it is the entry the outermost trusted proxy appended: what the client wrote in front of it,
  in this header line or in earlier ones, does not matter.
\<close>

theorem client_address_not_forgeable:
  assumes "remoteIPFromRequest (rq_RemoteAddr r) = (peer, addr)" and "addr \<noteq> ''''"
  shows "(\<not> isTrustedProxy peer nets \<longrightarrow> clientIPFromRequest r nets = addr) \<and>
    (\<forall>earlier forged client proxies i.
       isTrustedProxy peer nets \<and>
       header_values r ''X-Forwarded-For'' = earlier @ [with_entries forged (client # proxies)] \<and>
       list_all (\<lambda>p. CHR '','' \<notin> set p) (client # proxies) \<and>
       parseIPCandidate client = Some i \<and> \<not> isTrustedProxy (Some i) nets \<and>
       list_all (\<lambda>p. parseIPCandidate p \<noteq> None \<longrightarrow> isTrustedProxy (parseIPCandidate p) nets) proxies \<longrightarrow>
       clientIPFromRequest r nets = ip_String i)"
proof (intro conjI impI allI)
  assume "\<not> isTrustedProxy peer nets"
  with assms show "clientIPFromRequest r nets = addr" by (simp add: clientIPFromRequest_def)
next
  fix earlier forged client proxies i
  assume *: "isTrustedProxy peer nets \<and>
       header_values r ''X-Forwarded-For'' = earlier @ [with_entries forged (client # proxies)] \<and>
       list_all (\<lambda>p. CHR '','' \<notin> set p) (client # proxies) \<and>
       parseIPCandidate client = Some i \<and> \<not> isTrustedProxy (Some i) nets \<and>
       list_all (\<lambda>p. parseIPCandidate p \<noteq> None \<longrightarrow> isTrustedProxy (parseIPCandidate p) nets) proxies"
  have "forwarded_candidates (header_values r ''X-Forwarded-For'') =
      forwarded_candidates (earlier @ [forged]) @ i # List.map_filter parseIPCandidate proxies"
    using * by (simp add: candidates_with_entries map_filter_def)
  moreover have "isTrustedProxy (Some x) nets" if "x \<in> set (List.map_filter parseIPCandidate proxies)" for x
    using that * by (auto simp: map_filter_def list_all_iff)
  ultimately have "forwardedClientIPFromHeaders (header_values r ''X-Forwarded-For'') nets = Some i"
    using * unfolding forwardedClientIPFromHeaders_def by (simp only:) (rule find_last, auto)
  moreover obtain p where "peer = Some p" using * by (cases peer) (auto simp: isTrustedProxy_def)
  ultimately show "clientIPFromRequest r nets = ip_String i"
    using * assms by (simp add: clientIPFromRequest_def)
qed

definition ex_proxied :: http_request where
  "ex_proxied = (ex_http_request ''GET'')\<lparr>rq_RemoteAddr := ''10.0.0.2:4711'',
     rq_Header := [(''X-Forwarded-For'', [''1.1.1.1,203.0.113.8,10.0.0.9''])]\<rparr>"

theorem client_address_not_forgeable_witness:
  "clientIPFromRequest ex_proxied (parseTrustedProxyCIDRs [''10.0.0.0/8'']) = ''203.0.113.8''"
proof -
  have "remoteIPFromRequest (rq_RemoteAddr ex_proxied) = (Some (v4InV6Prefix @ [10, 0, 0, 2]), ''10.0.0.2'')"
    "isTrustedProxy (Some (v4InV6Prefix @ [10, 0, 0, 2])) (parseTrustedProxyCIDRs [''10.0.0.0/8''])"
    "header_values ex_proxied ''X-Forwarded-For'' = [with_entries ''1.1.1.1'' [''203.0.113.8'', ''10.0.0.9'']]"
    "parseIPCandidate ''203.0.113.8'' = Some (v4InV6Prefix @ [203, 0, 113, 8])"
    "\<not> isTrustedProxy (Some (v4InV6Prefix @ [203, 0, 113, 8])) (parseTrustedProxyCIDRs [''10.0.0.0/8''])"
    "isTrustedProxy (parseIPCandidate ''10.0.0.9'') (parseTrustedProxyCIDRs [''10.0.0.0/8''])"
    "ip_String (v4InV6Prefix @ [203, 0, 113, 8]) = ''203.0.113.8''"
    by code_simp+
  note ex = this
  show ?thesis
    using client_address_not_forgeable [OF ex(1), of "parseTrustedProxyCIDRs [''10.0.0.0/8'']", THEN conjunct2, THEN spec [of _ "[]"],
      THEN spec [of _ "''1.1.1.1''"], THEN spec [of _ "''203.0.113.8''"], THEN spec [of _ "[''10.0.0.9'']"], THEN spec [of _ "v4InV6Prefix @ [203, 0, 113, 8]"]]
      ex(2-7) by (simp del: append_assoc)
qed

end
