(* ===== verification/Config.thy ===== *)
theory Config
  imports Sessions Outbox AuditTrail GoNet
begin

text \<open>
  The configuration of the processes (\<open>pkg/config\<close>): its records and the checks of \<open>Load\<close>.
  Reading the YAML file and the environment is done by the library \<open>cleanenv\<close> and is an
  argument, as are the files the secrets are read from, the quoting of \<open>%q\<close> in error texts, and
  the order in which a Go map is walked.
\<close>

section \<open>Records\<close>

record AppConfig =
  app_Name :: string
  app_Env :: string
  app_Host :: string
  app_Port :: int

record HTTPConfig =
  htc_RequestTimeoutSeconds :: int
  htc_ReadTimeoutSeconds :: int
  htc_WriteTimeoutSeconds :: int
  htc_IdleTimeoutSeconds :: int
  htc_TrustedProxyCIDRs :: "string list"

record MySQLConfig =
  my_Host :: string
  my_Port :: int
  my_User :: string
  my_Password :: string
  my_PasswordFile :: string
  my_DBName :: string
  my_Charset :: string
  my_ParseTime :: bool
  my_Loc :: string
  my_MaxOpenConns :: int
  my_MaxIdleConns :: int
  my_ConnMaxLifetimeMinutes :: int

record RedisConfig =
  rdc_Addr :: string
  rdc_Password :: string
  rdc_PasswordFile :: string
  rdc_DB :: int
  rdc_PoolSize :: int
  rdc_MinIdleConns :: int

record PostgresConfig =
  pg_Host :: string
  pg_Port :: int
  pg_User :: string
  pg_Password :: string
  pg_PasswordFile :: string
  pg_DBName :: string
  pg_SSLMode :: string
  pg_TimeZone :: string
  pg_MaxOpenConns :: int
  pg_MaxIdleConns :: int
  pg_ConnMaxLifetimeMinutes :: int

record DatabaseConfig =
  dc_Driver :: string
  dc_MySQL :: MySQLConfig
  dc_Postgres :: PostgresConfig

record AsynqConfig =
  yc_Concurrency :: int
  yc_QueueName :: string

record QueueConfig =
  qc_Asynq :: AsynqConfig
  qc_Outbox :: OutboxConfig

record SchedulerConfig =
  sd_Enabled :: bool
  sd_Spec :: string

record DocsConfig =
  do_Enabled :: bool
  do_OpenAPIPath :: string
  do_UIPath :: string

record LogConfig =
  lc_Level :: string
  lc_Format :: string
  lc_Output :: string
  lc_Dir :: string
  lc_Filename :: string
  lc_MaxSizeMB :: int
  lc_MaxBackups :: int
  lc_MaxAgeDays :: int
  lc_Compress :: bool
  lc_RotateDaily :: bool

text \<open>The record of \<open>AuthConfig\<close> has the session as its only field, which stands for it here.\<close>

record Config =
  cfg_App :: AppConfig
  cfg_HTTP :: HTTPConfig
  cfg_Redis :: RedisConfig
  cfg_Database :: DatabaseConfig
  cfg_Session :: SessionConfig
  cfg_Queue :: QueueConfig
  cfg_Scheduler :: SchedulerConfig
  cfg_Docs :: DocsConfig
  cfg_Log :: LogConfig

section \<open>Loading\<close>

text \<open>The value \<open>cleanenv.ReadConfig\<close> starts from: zero values but for the switches that are on by default.\<close>

definition start_config :: Config where
  "start_config =
     \<lparr>cfg_App = \<lparr>app_Name = '''', app_Env = '''', app_Host = '''', app_Port = 0\<rparr>,
      cfg_HTTP = \<lparr>htc_RequestTimeoutSeconds = 0, htc_ReadTimeoutSeconds = 0, htc_WriteTimeoutSeconds = 0, htc_IdleTimeoutSeconds = 0,
                  htc_TrustedProxyCIDRs = []\<rparr>,
      cfg_Redis = \<lparr>rdc_Addr = '''', rdc_Password = '''', rdc_PasswordFile = '''', rdc_DB = 0, rdc_PoolSize = 0, rdc_MinIdleConns = 0\<rparr>,
      cfg_Database =
        \<lparr>dc_Driver = '''',
         dc_MySQL = \<lparr>my_Host = '''', my_Port = 0, my_User = '''', my_Password = '''', my_PasswordFile = '''', my_DBName = '''',
                     my_Charset = '''', my_ParseTime = True, my_Loc = '''', my_MaxOpenConns = 0, my_MaxIdleConns = 0,
                     my_ConnMaxLifetimeMinutes = 0\<rparr>,
         dc_Postgres = \<lparr>pg_Host = '''', pg_Port = 0, pg_User = '''', pg_Password = '''', pg_PasswordFile = '''', pg_DBName = '''',
                        pg_SSLMode = '''', pg_TimeZone = '''', pg_MaxOpenConns = 0, pg_MaxIdleConns = 0,
                        pg_ConnMaxLifetimeMinutes = 0\<rparr>\<rparr>,
      cfg_Session = \<lparr>sc_LegacySecret = '''', sc_LegacySecretFile = '''', sc_Secret = '''', sc_SecretFile = '''', sc_Issuer = '''',
                     sc_TTLHours = 0, sc_SecureCookie = True, sc_LoginURL = '''', sc_RedirectURL = ''''\<rparr>,
      cfg_Queue = \<lparr>qc_Asynq = \<lparr>yc_Concurrency = 0, yc_QueueName = ''''\<rparr>,
                   qc_Outbox = \<lparr>oc_Enabled = False, oc_RelaySpec = '''', oc_CleanupSpec = '''', oc_BatchSize = 0,
                     oc_LeaseDurationSeconds = 0, oc_MaxAttempts = 0, oc_DispatchedRetentionHours = 0, oc_DeadLetterRetentionHours = 0\<rparr>\<rparr>,
      cfg_Scheduler = \<lparr>sd_Enabled = False, sd_Spec = ''''\<rparr>,
      cfg_Docs = \<lparr>do_Enabled = True, do_OpenAPIPath = '''', do_UIPath = ''''\<rparr>,
      cfg_Log = \<lparr>lc_Level = '''', lc_Format = '''', lc_Output = '''', lc_Dir = '''', lc_Filename = '''', lc_MaxSizeMB = 0,
                 lc_MaxBackups = 0, lc_MaxAgeDays = 0, lc_Compress = False, lc_RotateDaily = True\<rparr>\<rparr>"

text \<open>What lies outside of the sources.\<close>

record config_env =
  ce_ReadConfig :: "string \<Rightarrow> Config \<Rightarrow> goerr + Config"
  ce_ReadFile :: "string \<Rightarrow> goerr + string"
  ce_quote :: "string \<Rightarrow> string"
  ce_order :: "(string \<times> string) list \<Rightarrow> (string \<times> string) list"

definition readSecretFile :: "config_env \<Rightarrow> string \<Rightarrow> string \<Rightarrow> goerr + string" where
  "readSecretFile env fieldName path =
     (case ce_ReadFile env path of
        Inl e \<Rightarrow> Inl (Wrapf (''read '' @ fieldName @ '': '') e '''')
      | Inr content \<Rightarrow>
          (let v = TrimSpace content in
           if v = '''' then Inl (Plain (fieldName @ '' is empty'')) else Inr v))"

text \<open>The table of the fields: their names, where the path stands, and the target.\<close>

type_synonym secret_field = "string \<times> (Config \<Rightarrow> string) \<times> (Config \<Rightarrow> string) \<times> (string \<Rightarrow> Config \<Rightarrow> Config)"

definition secretFields :: "secret_field list" where
  "secretFields =
     [(''auth.session.legacy_secret_file'', \<lambda>c. sc_LegacySecretFile (cfg_Session c), \<lambda>c. sc_LegacySecret (cfg_Session c),
       \<lambda>v c. c\<lparr>cfg_Session := (cfg_Session c)\<lparr>sc_LegacySecret := v\<rparr>\<rparr>),
      (''auth.session.secret_file'', \<lambda>c. sc_SecretFile (cfg_Session c), \<lambda>c. sc_Secret (cfg_Session c),
       \<lambda>v c. c\<lparr>cfg_Session := (cfg_Session c)\<lparr>sc_Secret := v\<rparr>\<rparr>),
      (''database.mysql.password_file'', \<lambda>c. my_PasswordFile (dc_MySQL (cfg_Database c)), \<lambda>c. my_Password (dc_MySQL (cfg_Database c)),
       \<lambda>v c. c\<lparr>cfg_Database := (cfg_Database c)\<lparr>dc_MySQL := (dc_MySQL (cfg_Database c))\<lparr>my_Password := v\<rparr>\<rparr>\<rparr>),
      (''database.postgres.password_file'', \<lambda>c. pg_PasswordFile (dc_Postgres (cfg_Database c)),
       \<lambda>c. pg_Password (dc_Postgres (cfg_Database c)),
       \<lambda>v c. c\<lparr>cfg_Database := (cfg_Database c)\<lparr>dc_Postgres := (dc_Postgres (cfg_Database c))\<lparr>pg_Password := v\<rparr>\<rparr>\<rparr>),
      (''redis.password_file'', \<lambda>c. rdc_PasswordFile (cfg_Redis c), \<lambda>c. rdc_Password (cfg_Redis c),
       \<lambda>v c. c\<lparr>cfg_Redis := (cfg_Redis c)\<lparr>rdc_Password := v\<rparr>\<rparr>)]"

fun apply_secrets :: "config_env \<Rightarrow> Config \<Rightarrow> secret_field list \<Rightarrow> Config \<Rightarrow> goerr + Config" where
  "apply_secrets env c0 [] c = Inr c"
| "apply_secrets env c0 ((name, path, get, put) # fs) c =
     (if TrimSpace (path c0) = '''' then apply_secrets env c0 fs c
      else (case readSecretFile env name (path c0) of
              Inl e \<Rightarrow> Inl e
            | Inr v \<Rightarrow> apply_secrets env c0 fs (put v c)))"

definition applyFileBackedSecrets :: "config_env \<Rightarrow> Config \<Rightarrow> goerr + Config" where
  "applyFileBackedSecrets env cfg = apply_secrets env cfg secretFields cfg"

fun normalize_cidrs :: "config_env \<Rightarrow> string list \<Rightarrow> goerr + string list" where
  "normalize_cidrs env [] = Inr []"
| "normalize_cidrs env (cidr # cidrs) =
     (let trimmed = TrimSpace cidr in
      if trimmed = '''' then normalize_cidrs env cidrs
      else if ParseCIDR trimmed = None then
        Inl (Wrapf (''invalid http.trusted_proxy_cidrs entry '' @ ce_quote env trimmed @ '': '')
          (Plain (''invalid CIDR address: '' @ trimmed)) '''')
      else (case normalize_cidrs env cidrs of Inl e \<Rightarrow> Inl e | Inr r \<Rightarrow> Inr (trimmed # r)))"

definition validateTrustedProxyCIDRs :: "config_env \<Rightarrow> Config \<Rightarrow> goerr + Config" where
  "validateTrustedProxyCIDRs env cfg =
     (case normalize_cidrs env (htc_TrustedProxyCIDRs (cfg_HTTP cfg)) of
        Inl e \<Rightarrow> Inl e
      | Inr cidrs \<Rightarrow> Inr (cfg\<lparr>cfg_HTTP := (cfg_HTTP cfg)\<lparr>htc_TrustedProxyCIDRs := cidrs\<rparr>\<rparr>))"

definition validateRequiredFields :: "config_env \<Rightarrow> string \<Rightarrow> (string \<times> string) list \<Rightarrow> goerr option" where
  "validateRequiredFields env pre flds =
     (let missing = map (\<lambda>(name, _). pre @ ''.'' @ name) (filter (\<lambda>(_, v). TrimSpace v = '''') (ce_order env flds))
      in if missing = [] then None
         else Some (Plain (''missing required database config: '' @ str_join '', '' missing)))"

definition database_fields :: "unicode_tables \<Rightarrow> Config \<Rightarrow> (string \<times> (string \<times> string) list) option" where
  "database_fields ut cfg =
     (let driver = ToLower ut (TrimSpace (dc_Driver (cfg_Database cfg))); m = dc_MySQL (cfg_Database cfg); p = dc_Postgres (cfg_Database cfg)
      in if driver = '''' \<or> driver = ''mysql'' then
           Some (''database.mysql'', [(''host'', my_Host m), (''user'', my_User m), (''password'', my_Password m), (''dbname'', my_DBName m)])
         else if driver = ''postgres'' then
           Some (''database.postgres'', [(''host'', pg_Host p), (''user'', pg_User p), (''password'', pg_Password p), (''dbname'', pg_DBName p)])
         else None)"

definition validatePrimaryDatabaseConfig :: "unicode_tables \<Rightarrow> config_env \<Rightarrow> Config \<Rightarrow> goerr option" where
  "validatePrimaryDatabaseConfig ut env cfg =
     (case database_fields ut cfg of
        Some (pre, flds) \<Rightarrow> validateRequiredFields env pre flds
      | None \<Rightarrow> Some (Plain (''unsupported database driver: '' @ dc_Driver (cfg_Database cfg))))"

definition Load :: "unicode_tables \<Rightarrow> config_env \<Rightarrow> string \<Rightarrow> goerr + Config" where
  "Load ut env path =
     (if TrimSpace path = '''' then Inl (Plain ''config path is required'')
      else
        (case ce_ReadConfig env path start_config of
           Inl e \<Rightarrow> Inl (Wrapf (''read config '' @ ce_quote env path @ '': '') e '''')
         | Inr c0 \<Rightarrow>
             (case applyFileBackedSecrets env c0 of
                Inl e \<Rightarrow> Inl e
              | Inr c1 \<Rightarrow>
                  (case validateTrustedProxyCIDRs env c1 of
                     Inl e \<Rightarrow> Inl e
                   | Inr c2 \<Rightarrow>
                       (case validatePrimaryDatabaseConfig ut env c2 of
                          Some e \<Rightarrow> Inl e
                        | None \<Rightarrow> Inr c2)))))"

section \<open>What a loaded configuration guarantees\<close>

text \<open>The secrets are kept apart: writing one does not change another.\<close>

fun apart :: "secret_field list \<Rightarrow> bool" where
  "apart [] = True"
| "apart ((_, _, get, put) # fs) =
     ((\<forall>v c. get (put v c) = v) \<and> list_all (\<lambda>(_, _, get', put'). \<forall>v c. get (put' v c) = get c \<and> get' (put v c) = get' c) fs \<and> apart fs)"

lemma secretFields_apart: "apart secretFields"
  by (simp add: secretFields_def)

lemma apply_secrets_keeps:
  "apply_secrets env c0 fs c = Inr c' \<Longrightarrow> list_all (\<lambda>(_, _, _, put). \<forall>v c. h (put v c) = h c) fs \<Longrightarrow> h c' = h c"
  by (induction env c0 fs c rule: apply_secrets.induct) (auto split: if_splits sum.splits)

definition secret_loaded :: "config_env \<Rightarrow> Config \<Rightarrow> Config \<Rightarrow> Config \<Rightarrow> secret_field \<Rightarrow> bool" where
  "secret_loaded env c0 c c' f =
     (case f of (name, path, get, put) \<Rightarrow>
        if TrimSpace (path c0) = '''' then get c' = get c
        else (\<exists>content. ce_ReadFile env (path c0) = Inr content \<and> get c' = TrimSpace content \<and> get c' \<noteq> ''''))"

lemma readSecretFile_Inr:
  "readSecretFile env name path = Inr v \<longleftrightarrow> (\<exists>content. ce_ReadFile env path = Inr content \<and> v = TrimSpace content \<and> v \<noteq> '''')"
  by (auto simp: readSecretFile_def Let_def split: sum.split)

lemma apply_secrets_loaded:
  "apart fs \<Longrightarrow> apply_secrets env c0 fs c = Inr c' \<Longrightarrow> list_all (secret_loaded env c0 c c') fs"
proof (induction fs arbitrary: c)
  case (Cons f fs)
  obtain name path get "put" where f: "f = (name, path, get, put)" by (cases f) auto
  have ap: "get (put v c) = v" "list_all (\<lambda>(_, _, get', put'). \<forall>v c. get (put' v c) = get c \<and> get' (put v c) = get' c) fs" "apart fs" for v c
    using Cons.prems(1) by (simp_all add: f)
  have own: "get c' = get d" if "apply_secrets env c0 fs d = Inr c'" for d
    by (rule apply_secrets_keeps [OF that]) (rule list.pred_mono_strong [OF ap(2)], auto)
  have rest: "list_all (secret_loaded env c0 c c') fs" if "apply_secrets env c0 fs (put v c) = Inr c'" for v
    using Cons.IH [OF ap(3) that] ap(2) by (auto simp: list_all_iff secret_loaded_def split: prod.splits)
  show ?case
  proof (cases "TrimSpace (path c0) = ''''")
    case True
    with Cons f ap(3) own show ?thesis by (simp add: secret_loaded_def)
  next
    case False
    with Cons.prems(2) f obtain v where v: "readSecretFile env name (path c0) = Inr v" "apply_secrets env c0 fs (put v c) = Inr c'"
      by (auto split: sum.splits)
    have "secret_loaded env c0 c c' f"
      using False own [OF v(2)] ap(1) v(1) by (auto simp: f secret_loaded_def readSecretFile_Inr)
    with rest [OF v(2)] show ?thesis by simp
  qed
qed simp

lemma normalize_cidrs_Inr:
  "normalize_cidrs env cidrs = Inr r \<Longrightarrow> r = filter (\<lambda>c. c \<noteq> '''') (map TrimSpace cidrs) \<and> list_all (\<lambda>c. ParseCIDR c \<noteq> None) r"
  by (induction cidrs arbitrary: r) (auto simp: Let_def split: if_splits sum.splits)

text \<open>
  C26. A configuration that was loaded is fit for use. Every secret for which a file is configured holds the trimmed, non-empty
  content of this file and every other one what the reader gave; the trusted networks are the non-blank entries, trimmed, and
  each of them parses; the driver is supported, and host, user, password and name of its database are not blank.
\<close>

theorem loaded_config_sound:
  assumes "Load ut env path = Inr cfg" and "\<And>fs. set (ce_order env fs) = set fs"
  shows "\<exists>c0. ce_ReadConfig env path start_config = Inr c0 \<and> list_all (secret_loaded env c0 c0 cfg) secretFields \<and>
     htc_TrustedProxyCIDRs (cfg_HTTP cfg) = filter (\<lambda>c. c \<noteq> '''') (map TrimSpace (htc_TrustedProxyCIDRs (cfg_HTTP c0))) \<and>
     list_all (\<lambda>c. ParseCIDR c \<noteq> None) (htc_TrustedProxyCIDRs (cfg_HTTP cfg)) \<and>
     (\<exists>pre flds. database_fields ut cfg = Some (pre, flds) \<and> list_all (\<lambda>(_, v). TrimSpace v \<noteq> '''') flds)"
proof -
  from assms(1) obtain c0 c1 where c0: "ce_ReadConfig env path start_config = Inr c0"
    and c1: "apply_secrets env c0 secretFields c0 = Inr c1" and c2: "validateTrustedProxyCIDRs env c1 = Inr cfg"
    and db: "validatePrimaryDatabaseConfig ut env cfg = None"
    by (auto simp: Load_def applyFileBackedSecrets_def split: if_splits sum.splits option.splits)
  from c2 obtain cidrs where n: "normalize_cidrs env (htc_TrustedProxyCIDRs (cfg_HTTP c1)) = Inr cidrs"
    and cfg: "cfg = c1\<lparr>cfg_HTTP := (cfg_HTTP c1)\<lparr>htc_TrustedProxyCIDRs := cidrs\<rparr>\<rparr>"
    by (auto simp: validateTrustedProxyCIDRs_def split: sum.splits)
  have "list_all (secret_loaded env c0 c0 cfg) secretFields"
    using apply_secrets_loaded [OF secretFields_apart c1] by (simp add: secretFields_def secret_loaded_def cfg)
  moreover have "cfg_HTTP c1 = cfg_HTTP c0" using apply_secrets_keeps [OF c1, of cfg_HTTP] by (simp add: secretFields_def)
  moreover from db obtain pre flds where fs: "database_fields ut cfg = Some (pre, flds)" "validateRequiredFields env pre flds = None"
    by (auto simp: validatePrimaryDatabaseConfig_def split: option.splits prod.splits)
  have "list_all (\<lambda>(_, v). TrimSpace v \<noteq> '''') flds"
    using fs(2) assms(2) by (auto simp: validateRequiredFields_def Let_def filter_empty_conv list_all_iff split: if_splits)
  ultimately show ?thesis using c0 fs(1) normalize_cidrs_Inr [OF n] by (auto simp: cfg)
qed

definition ex_config :: Config where
  "ex_config = start_config\<lparr>
     cfg_HTTP := (cfg_HTTP start_config)\<lparr>htc_TrustedProxyCIDRs := ['' 10.0.0.0/8 '', '''']\<rparr>,
     cfg_Database := (cfg_Database start_config)\<lparr>dc_MySQL := (dc_MySQL (cfg_Database start_config))\<lparr>my_Host := ''db'', my_User := ''root'',
       my_PasswordFile := ''/run/pw'', my_DBName := ''sentinel''\<rparr>\<rparr>\<rparr>"

definition ex_config_env :: config_env where
  "ex_config_env = \<lparr>ce_ReadConfig = \<lambda>_ _. Inr ex_config, ce_ReadFile = \<lambda>_. Inr '' s3cret '', ce_quote = id, ce_order = rev\<rparr>"

theorem loaded_config_sound_witness:
  "\<exists>cfg. Load ascii_tables ex_config_env ''config.yaml'' = Inr cfg \<and> my_Password (dc_MySQL (cfg_Database cfg)) = ''s3cret'' \<and>
     htc_TrustedProxyCIDRs (cfg_HTTP cfg) = [''10.0.0.0/8'']"
proof -
  have l: "case Load ascii_tables ex_config_env ''config.yaml'' of Inl _ \<Rightarrow> False | Inr _ \<Rightarrow> True" by code_simp
  then obtain cfg where cfg: "Load ascii_tables ex_config_env ''config.yaml'' = Inr cfg" by (auto split: sum.splits)
  have t: "TrimSpace '' s3cret '' = ''s3cret''" "TrimSpace ''/run/pw'' \<noteq> ''''" "TrimSpace '' 10.0.0.0/8 '' = ''10.0.0.0/8''" by code_simp+
  show ?thesis
    using loaded_config_sound [OF cfg] cfg t
    by (auto simp: ex_config_env_def ex_config_def start_config_def secretFields_def secret_loaded_def)
qed

end
