(* ===== verification/Processes.thy ===== *)
theory Processes
  imports Worker Config ClientAddress
begin

text \<open>
  The processes around the services: the queue side of the worker
  (\<open>internal/queue\<close>), the periodic jobs of the scheduler (\<open>internal/scheduler\<close>) and the
  assembly of the HTTP server (\<open>internal/api/register\<close>). Here the components meet: a task goes from
  the create route over the outbox and the queue to the worker.

  The libraries Asynq, cron and Huma stay outside: the handlers registered with the queue and the
  jobs registered with the timer are lists, the check of a cron specification and the
  mux of the API are arguments. Log lines are not modelled.
\<close>

section \<open>The shared runtime\<close>

text \<open>Which clients of the runtime exist; a runtime, its configuration and its resources may be nil.\<close>

record Resources =
  rc_DB :: bool
  rc_Redis :: bool

record Runtime =
  rt_Config :: "Config option"
  rt_Logger :: bool
  rt_Resources :: "Resources option"

definition runtime_config :: "Runtime option \<Rightarrow> Config option" where
  "runtime_config rt = (case rt of None \<Rightarrow> None | Some x \<Rightarrow> rt_Config x)"

definition runtime_db :: "Runtime option \<Rightarrow> bool" where
  "runtime_db rt = (case rt of None \<Rightarrow> False | Some x \<Rightarrow> (case rt_Resources x of None \<Rightarrow> False | Some r \<Rightarrow> rc_DB r))"

definition runtimeRedis :: "Runtime option \<Rightarrow> goerr option" where
  "runtimeRedis rt =
     (if (case rt of None \<Rightarrow> False | Some x \<Rightarrow> (case rt_Resources x of None \<Rightarrow> False | Some r \<Rightarrow> rc_Redis r)) then None
      else Some (Plain ''worker runtime redis is required''))"

text \<open>\<open>NewClient\<close>: the client of the queue, or an error without Redis.\<close>

definition NewClient :: "enqueuer \<Rightarrow> Runtime option \<Rightarrow> goerr + enqueuer" where
  "NewClient client rt = (case runtimeRedis rt of Some e \<Rightarrow> Inl e | None \<Rightarrow> Inr client)"

section \<open>Heartbeats\<close>

record Payload =
  hp_Source :: string

definition TypeRuntimeHeartbeat :: string where
  "TypeRuntimeHeartbeat = ''runtime:heartbeat''"

definition NewTask :: "Payload \<Rightarrow> string \<times> string" where
  "NewTask p = (TypeRuntimeHeartbeat, marshal (JObj [(''source'', JStr (hp_Source p))]))"

definition DecodePayload :: "unicode_tables \<Rightarrow> (string \<times> string) option \<Rightarrow> goerr + Payload" where
  "DecodePayload ut task =
     (case task of
        None \<Rightarrow> Inl (Plain ''task is required'')
      | Some (_, body) \<Rightarrow>
          (case (case json_parse body of
                   None \<Rightarrow> None
                 | Some j \<Rightarrow> decode_struct ut [''source''] (\<lambda>_ x p. map_option (\<lambda>v. p\<lparr>hp_Source := v\<rparr>) (decode_string x (hp_Source p))) j
                               \<lparr>hp_Source = ''''\<rparr>) of
             None \<Rightarrow> Inl (Wrapf ''decode payload: '' (JsonError body) '''')
           | Some p \<Rightarrow> Inr p))"

text \<open>A heartbeat is enqueued without a task id, so it is never refused as a duplicate.\<close>

type_synonym plain_enqueuer = "string \<times> string \<Rightarrow> string option \<Rightarrow> world \<Rightarrow> goerr option \<times> world"

definition EnqueueTask :: "plain_enqueuer option \<Rightarrow> string \<Rightarrow> Payload \<Rightarrow> world \<Rightarrow> goerr option \<times> world" where
  "EnqueueTask client queueName p w =
     (case client of
        None \<Rightarrow> (Some (Plain ''enqueuer is required''), w)
      | Some enqueue \<Rightarrow>
          (let q = TrimSpace queueName in enqueue (NewTask p) (if q = '''' then None else Some q) w))"

section \<open>The handlers of the worker process\<close>

type_synonym task_handler = "string \<times> string \<Rightarrow> world \<Rightarrow> (exec_end \<times> world) option"

definition heartbeat_handler :: "unicode_tables \<Rightarrow> task_handler" where
  "heartbeat_handler ut task w =
     (case DecodePayload ut (Some task) of
        Inl e \<Rightarrow> Some (Returned (Inl (Wrapf (''decode '' @ TypeRuntimeHeartbeat @ '' payload: '') e '''')), w)
      | Inr _ \<Rightarrow> Some (Returned (Inr ()), w))"

definition run_task_handler :: "unicode_tables \<Rightarrow> regexp_engine \<Rightarrow> (string \<Rightarrow> string) \<Rightarrow> Executor option \<Rightarrow> task_handler" where
  "run_task_handler ut engine jt executor task w =
     (case DecodeArticleInspectTaskPayload ut (Some task) of
        Inl e \<Rightarrow> Some (Returned (Inl (Wrapf (''decode '' @ TypeArticleInspectRunTask @ '' payload: '') e '''')), w)
      | Inr p \<Rightarrow> ExecuteTask ut engine jt executor p w)"

definition newArticleInspectExecutorFn :: "unicode_tables \<Rightarrow> regexp_engine \<Rightarrow> Runtime option \<Rightarrow> Executor option" where
  "newArticleInspectExecutorFn ut engine rt = (if runtime_db rt then NewWorker ut engine True else None)"

definition RegisterHandlers :: "unicode_tables \<Rightarrow> regexp_engine \<Rightarrow> (string \<Rightarrow> string) \<Rightarrow> Runtime option \<Rightarrow> (string \<times> task_handler) list" where
  "RegisterHandlers ut engine jt rt =
     (TypeRuntimeHeartbeat, heartbeat_handler ut) #
     (case newArticleInspectExecutorFn ut engine rt of
        None \<Rightarrow> []
      | Some executor \<Rightarrow> [(TypeArticleInspectRunTask, run_task_handler ut engine jt (Some executor))])"

record queue_server =
  qs_Concurrency :: int
  qs_Queue :: string

definition NewServer :: "Runtime option \<Rightarrow> goerr + queue_server" where
  "NewServer rt =
     (case runtimeRedis rt of
        Some e \<Rightarrow> Inl e
      | None \<Rightarrow>
          (case runtime_config rt of
             None \<Rightarrow> Inl (Plain ''worker runtime config is required'')
           | Some cfg \<Rightarrow>
               (let q = TrimSpace (yc_QueueName (qc_Asynq (cfg_Queue cfg))); c = yc_Concurrency (qc_Asynq (cfg_Queue cfg))
                in Inr \<lparr>qs_Concurrency = (if c < 1 then 1 else c), qs_Queue = (if q = '''' then ''default'' else q)\<rparr>)))"

section \<open>The jobs of the scheduler\<close>

text \<open>
  What a job does when the timer fires. The relay is an interface value that holds a pointer: it
  is not nil even when the pointer is, and the methods check the pointer.
\<close>

datatype job = HeartbeatJob | RelayJob int | CleanupJob int

definition asynqEnqueuer :: "plain_enqueuer option \<Rightarrow> string \<Rightarrow> Payload \<Rightarrow> world \<Rightarrow> goerr option \<times> world" where
  "asynqEnqueuer client queueName p w = EnqueueTask client queueName p w"

fun run_job :: "(Payload \<Rightarrow> world \<Rightarrow> goerr option \<times> world) \<Rightarrow> TaskOutboxRelay option \<Rightarrow> job \<Rightarrow> world \<Rightarrow> world" where
  "run_job enqueueHeartbeat relay HeartbeatJob w = snd (enqueueHeartbeat \<lparr>hp_Source = ''scheduler''\<rparr> w)"
| "run_job enqueueHeartbeat relay (RelayJob limit) w = snd (RelayPendingArticleInspectTaskOutbox relay limit w)"
| "run_job enqueueHeartbeat relay (CleanupJob limit) w = snd (CleanupArticleInspectTaskOutbox relay limit w)"

text \<open>
  \<open>RegisterJobs\<close> adds to the entries of the timer; entries added before an error stay. The argument
  \<open>parse\<close> is the check of a specification by \<open>AddFunc\<close>.
\<close>

type_synonym cron = "(string \<times> job) list"

definition AddFunc :: "(string \<Rightarrow> goerr option) \<Rightarrow> string \<Rightarrow> string \<Rightarrow> job \<Rightarrow> cron \<Rightarrow> goerr option \<times> cron" where
  "AddFunc parse what spec j c =
     (case parse spec of Some e \<Rightarrow> (Some (Wrapf (''register '' @ what @ '' job: '') e ''''), c) | None \<Rightarrow> (None, c @ [(spec, j)]))"

definition register_outbox_jobs :: "(string \<Rightarrow> goerr option) \<Rightarrow> OutboxConfig \<Rightarrow> cron \<Rightarrow> goerr option \<times> cron" where
  "register_outbox_jobs parse cfg c =
     (let relaySpec = TrimSpace (oc_RelaySpec cfg); cleanupSpec = TrimSpace (oc_CleanupSpec cfg) in
      if relaySpec = '''' then (Some (Plain ''outbox relay spec is required''), c)
      else
        (case AddFunc parse ''article inspect outbox relay'' relaySpec (RelayJob (oc_BatchSize cfg)) c of
           (Some e, c1) \<Rightarrow> (Some e, c1)
         | (None, c1) \<Rightarrow>
             if cleanupSpec = '''' then (Some (Plain ''outbox cleanup spec is required''), c1)
             else AddFunc parse ''article inspect outbox cleanup'' cleanupSpec (CleanupJob (oc_BatchSize cfg)) c1))"

definition RegisterJobs ::
    "(string \<Rightarrow> goerr option) \<Rightarrow> cron option \<Rightarrow> Runtime option \<Rightarrow> bool \<Rightarrow> bool \<Rightarrow> goerr option \<times> cron" where
  "RegisterJobs parse c rt hasEnqueuer hasRelay =
     (case c of
        None \<Rightarrow> (Some (Plain ''cron is required''), [])
      | Some c0 \<Rightarrow>
          (case runtime_config rt of
             None \<Rightarrow> (Some (Plain ''scheduler runtime config is required''), c0)
           | Some cfg \<Rightarrow>
               if \<not> sd_Enabled (cfg_Scheduler cfg) then (None, c0)
               else if \<not> hasEnqueuer then (Some (Plain ''scheduler enqueuer is required''), c0)
               else
                 (let spec = TrimSpace (sd_Spec (cfg_Scheduler cfg)) in
                  if spec = '''' then (Some (Plain ''scheduler spec is required''), c0)
                  else
                    (case AddFunc parse ''runtime heartbeat'' spec HeartbeatJob c0 of
                       (Some e, c1) \<Rightarrow> (Some e, c1)
                     | (None, c1) \<Rightarrow>
                         if oc_Enabled (qc_Outbox (cfg_Queue cfg)) \<and> hasRelay
                         then register_outbox_jobs parse (qc_Outbox (cfg_Queue cfg)) c1 else (None, c1)))))"

section \<open>The HTTP server\<close>

definition sessionConfig :: "Runtime option \<Rightarrow> SessionConfig" where
  "sessionConfig rt = (case runtime_config rt of None \<Rightarrow> cfg_Session start_config\<lparr>sc_SecureCookie := False\<rparr> | Some cfg \<Rightarrow> cfg_Session cfg)"



definition normalizeOpenAPIPath :: "string \<Rightarrow> string" where
  "normalizeOpenAPIPath path =
     (let p = TrimSpace path in if p = '''' then ''/openapi'' else trim_suffix ''.json'' p)"

definition newArticleInspectDispatcher :: "enqueuer \<Rightarrow> Runtime option \<Rightarrow> dispatcher option" where
  "newArticleInspectDispatcher client rt =
     (case NewClient client rt of
        Inl _ \<Rightarrow> None
      | Inr c \<Rightarrow>
          NewArticleInspectTaskDispatcher (Some c)
            (case runtime_config rt of None \<Rightarrow> '''' | Some cfg \<Rightarrow> yc_QueueName (qc_Asynq (cfg_Queue cfg))))"






section \<open>From the create route to the worker\<close>

lemma startTask_ok:
  assumes "no_faults w" and "distinct (map task_ID (t_tasks (store w)))" and "t \<in> set (t_tasks (store w))"
    and "worker_task_at (pl_TaskID p) (pl_OrgID p) t" and "task_Status t = TaskStatusPending"
  shows "\<exists>now at w'. startTask p w = (Inr (t\<lparr>task_Status := TaskStatusRunning, task_StartedAt := Some now, task_UpdateAt := at\<rparr>), w')"
proof -
  let ?P = "\<lambda>x. worker_task_at (pl_TaskID p) (pl_OrgID p) x \<and> task_Status x = TaskStatusPending"
  let ?f = "\<lambda>now at t. t\<lparr>task_Status := TaskStatusRunning, task_StartedAt := Some now, task_UpdateAt := at\<rparr>"
  have n: "filter ?P (t_tasks (store w)) \<noteq> []" using assms(3-5) by (auto simp: filter_empty_conv)
  have "first_row task_ID (worker_task_at (pl_TaskID p) (pl_OrgID p)) (rows_update ?P (?f now at) (t_tasks (store w))) = Some (?f now at t)" for now at
  proof (rule first_row_singleton)
    let ?rs = "rows_update ?P (?f now at) (t_tasks (store w))"
    have "map task_ID ?rs = map task_ID (t_tasks (store w))" by (simp add: rows_update_def)
    moreover have "?f now at t \<in> set ?rs" using assms(3-5) by (auto simp: rows_update_def intro!: image_eqI [of _ _ t])
    ultimately have "filter (\<lambda>x. task_ID x = pl_TaskID p) ?rs = [?f now at t]"
      using assms(2,4) by (intro filter_key_unique) (simp_all add: worker_task_at_def)
    then have "filter (\<lambda>x. task_OrgID x = pl_OrgID p) (filter (\<lambda>x. task_ID x = pl_TaskID p) ?rs) = [?f now at t]"
      using assms(4) by (simp add: worker_task_at_def)
    then show "filter (worker_task_at (pl_TaskID p) (pl_OrgID p)) ?rs = [?f now at t]"
      by (simp add: worker_task_at_def [abs_def] conj_commute)
  qed
  with n assms(1) show ?thesis by (simp add: startTask_def time_now_def stmt_simps) blast
qed

text \<open>
  The queue entry of a task, and what the immediate relay leaves behind: the entry at the end of
  the queue, the tables but the outbox as they were, and no failure ahead.
\<close>

definition queue_entry :: "ArticleInspectTaskPayload \<Rightarrow> queued" where
  "queue_entry p = \<lparr>q_TaskID = articleInspectTaskID p, q_Type = TypeArticleInspectRunTask, q_Payload = marshal_payload p\<rparr>"

lemma relayed_world:
  assumes "relay_ready r (DispatchArticleInspectTask dedup_enqueue qn)"
    and "no_faults w" and "outbox_ok w" and "m \<in> set (t_outbox (store w))" and "ob_ID m \<noteq> 0"
    and "takeable m (clock w (Suc (tick w)))"
    and "decodeTaskOutboxPayload (rl_unicode r) (ob_Payload m) = Inr p"
    and "TrimSpace (ob_MessageType m) = TaskOutboxMessageTypeRunTask"
    and "articleInspectTaskID p \<notin> set (map q_TaskID (queue w))"
    and "w' = snd (TryDispatchMessage (Some r) (ob_ID m) w)"
  shows "queue w' = queue w @ [queue_entry p]" and "not_outbox (store w') = not_outbox (store w)"
    and "no_faults w'" and "sql_like w' = sql_like w"
proof -
  let ?disp = "DispatchArticleInspectTask dedup_enqueue qn" and ?c = "claimed_world r m w"
  have d: "?disp p ?c = (None, ?c\<lparr>queue := queue w @ [queue_entry p]\<rparr>)"
    using assms(9) by (simp add: DispatchArticleInspectTask_def EnqueueArticleInspectTask_def dedup_enqueue_def Let_def
        queue_entry_def NewArticleInspectTask_def)
  note ready = relay_readyD [OF assms(1)]
  have w': "w' = snd (DispatchMessage (Some r) (ob_ID m) w)"
    using ready by (auto simp: assms(10) TryDispatchMessage_def split: prod.split sum.split)
  have "sql_like ?c = sql_like w" by (simp add: claimed_world_def Let_def advance_def)
  with d show "queue w' = queue w @ [queue_entry p]" "no_faults w'" "sql_like w' = sql_like w"
    using DispatchMessage_takeable [OF assms(2-6,1)] assms(2,7,8)
    by (simp_all add: w' deliverClaimed_def settle_ok)
  show "not_outbox (store w') = not_outbox (store w)"
    using asynq.TryDispatchMessage_keeps [of not_outbox r] ready by (simp add: assms(10) keeps_def)
qed

lemma hits_of_scanner: "hits_of (keyword_scanner ut engine sc) rules a = (case ScanArticle ut engine sc a rules of None \<Rightarrow> [] | Some hs \<Rightarrow> hs)"
  by (simp add: hits_of_def keyword_scanner_def split: option.split)

lemma scanner_never_fails: "scan_failed (keyword_scanner ut engine sc) rules a = False"
  by (simp add: scan_failed_def keyword_scanner_def split: option.split)

lemma no_failures: "ResolveTaskStatus n 0 = TaskStatusSuccess" by (simp add: ResolveTaskStatus_def)

text \<open>What a creation leaves for the worker, when the relay reaches the queue.\<close>

lemma created_and_queued:
  assumes "no_faults w" and "outbox_ok w" and create: "CreateWithOutbox cx service inp w = (Inr (task, m), v)"
    and "relay_ready r (DispatchArticleInspectTask dedup_enqueue qn)"
    and p: "p = api_payload cx (ti_OrgID inp) (task_ID task)" and "payload_ok p"
    and "articleInspectTaskID p \<notin> set (map q_TaskID (queue w))"
  obtains w1 where "CreateAndEnqueue cx service inp (Some (TryDispatchMessage (Some r))) w = (Inr task, w1)"
    and "queue w1 = queue w @ [queue_entry p]" and "not_outbox (store w1) = not_outbox (store v)"
    and "no_faults w1" and "sql_like w1 = sql_like w"
proof -
  note fr = CreateWithOutbox_frame [OF create]
  have cw: "created_with cx inp (store w) task m (store v)" by (rule CreateWithOutbox_Inr(1) [OF create])
  have nf: "no_faults v" using same_env_no_faults [OF fr(3)] assms(1) by simp
  have m: "m \<in> set (t_outbox (store v))" "ob_Payload m = marshal_payload p" "ob_MessageType m = TaskOutboxMessageTypeRunTask"
    "ob_Status m = TaskOutboxStatusPending"
    using cw by (auto simp: created_with_def p)
  have row: "ob_ID m \<noteq> 0" "takeable m now" for now using created_message [OF create] m(4) by (simp_all add: takeable_def retry_due_def)
  define w1 where "w1 = snd (TryDispatchMessage (Some r) (ob_ID m) v)"
  have dec: "decodeTaskOutboxPayload (rl_unicode r) (ob_Payload m) = Inr p"
    using unmarshal_marshal_payload [OF assms(6)] by (simp add: decodeTaskOutboxPayload_def m(2))
  have q: "queue v = queue w" "sql_like v = sql_like w" using fr(3) by (simp_all add: same_env_def)
  have "TrimSpace (ob_MessageType m) = TaskOutboxMessageTypeRunTask" by (simp add: m(3))
  note rw = relayed_world [OF assms(4) nf fr(1) [OF assms(2)] m(1) row dec this _ w1_def]
  have "CreateAndEnqueue cx service inp (Some (TryDispatchMessage (Some r))) w = (Inr task, w1)"
    by (simp add: CreateAndEnqueue_def create w1_def)
  with rw q assms(7) that show thesis by simp
qed

lemma relayed_tables:
  assumes "not_outbox d1 = not_outbox d'" and "created_with cx inp d task m d'"
  shows "t_tasks d1 = t_tasks d @ [task]" and "t_articles d1 = t_articles d" and "t_infos d1 = t_infos d" and "t_results d1 = t_results d"
proof -
  have "t_tasks d1 = t_tasks d'" "t_articles d1 = t_articles d'" "t_infos d1 = t_infos d'" "t_results d1 = t_results d'"
    using arg_cong [OF assms(1), of t_tasks] arg_cong [OF assms(1), of t_articles] arg_cong [OF assms(1), of t_infos]
      arg_cong [OF assms(1), of t_results] by (simp_all add: not_outbox_def)
  with assms(2) show "t_tasks d1 = t_tasks d @ [task]" "t_articles d1 = t_articles d" "t_infos d1 = t_infos d" "t_results d1 = t_results d"
    by (auto simp: created_with_def)
qed

lemma queue_entry_handled:
  assumes "runtime_db rt" and "payload_ok p"
  shows "\<exists>h. map_of (RegisterHandlers ut engine jt rt) (q_Type (queue_entry p)) = Some h \<and>
     (\<forall>w. h (q_Type (queue_entry p), q_Payload (queue_entry p)) w = ExecuteTask ut engine jt (NewWorker ut engine True) p w)"
proof -
  have "newArticleInspectExecutorFn ut engine rt = NewWorker ut engine True" using assms(1) by (simp add: newArticleInspectExecutorFn_def)
  moreover obtain x where "NewWorker ut engine True = Some x" by (simp add: NewWorker_def NewExecutorWithDeps_def)
  ultimately show ?thesis
    using unmarshal_marshal_payload [OF assms(2), of ut]
    by (simp add: RegisterHandlers_def queue_entry_def TypeRuntimeHeartbeat_def TypeArticleInspectRunTask_def run_task_handler_def
        DecodeArticleInspectTaskPayload_def)
qed

text \<open>
  C1. A task that was created is executed. With a database and a queue that answer, the create route leaves one new entry in the queue;
  the handler that the worker process registered for its type takes it, starts this task and ends it without an error: all
  candidate articles of the task were scanned with the rules the task was created with, a result is stored for exactly
  those with a hit, in the order of their ids, and the task is closed as successful with its counts.
\<close>

theorem created_task_is_executed:
  assumes "no_faults w" and "outbox_ok w" and "tasks_ok w"
    and "CreateWithOutbox cx service inp w = (Inr (task, m), v)"
    and "relay_ready r (DispatchArticleInspectTask dedup_enqueue qn)"
    and "p = api_payload cx (ti_OrgID inp) (task_ID task)" and "payload_ok p"
    and "articleInspectTaskID p \<notin> set (map q_TaskID (queue w))" and "runtime_db rt"
    and "DecodeTaskRules ut (task_RuleSnapshot task) = Inr rules"
    and "distinct (map art_ID (t_articles (store w)))" and "0 \<notin> set (map art_ID (t_articles (store w)))"
    and "C = all_candidates (sql_like w) (batch_filter (ti_OrgID inp) task 100 0) (store w)"
    and "\<And>a. a \<in> set C \<Longrightarrow> ScanArticle ut engine (Some NewKeywordScanner) a rules \<noteq> None"
    and "stored_articles (ti_OrgID inp) (task_ID task) (store w) = []"
    and "hit = (\<lambda>a. hits_of (keyword_scanner ut engine (Some NewKeywordScanner)) rules a \<noteq> [])"
  shows "\<exists>w1 h w2 t.
     CreateAndEnqueue cx service inp (Some (TryDispatchMessage (Some r))) w = (Inr task, w1) \<and>
     queue w1 = queue w @ [queue_entry p] \<and>
     map_of (RegisterHandlers ut engine jt rt) (q_Type (queue_entry p)) = Some h \<and>
     h (q_Type (queue_entry p), q_Payload (queue_entry p)) w1 = Some (Returned (Inr ()), w2) \<and>
     stored_articles (ti_OrgID inp) (task_ID task) (store w2) = map ca_ID (filter hit C) \<and>
     t \<in> set (t_tasks (store w2)) \<and> worker_task_at (task_ID task) (ti_OrgID inp) t \<and> task_Status t = TaskStatusSuccess \<and>
     task_TotalScanned t = int (length C) \<and> task_HitArticles t = int (length (filter hit C)) \<and> task_FinishedAt t \<noteq> None"
proof -
  from assms obtain w1 where w1: "CreateAndEnqueue cx service inp (Some (TryDispatchMessage (Some r))) w = (Inr task, w1)"
    "queue w1 = queue w @ [queue_entry p]" "not_outbox (store w1) = not_outbox (store v)" "no_faults w1" "sql_like w1 = sql_like w"
    using created_and_queued [OF assms(1,2,4-8)] by blast
  obtain h where h: "map_of (RegisterHandlers ut engine jt rt) (q_Type (queue_entry p)) = Some h"
    "\<forall>w. h (q_Type (queue_entry p), q_Payload (queue_entry p)) w = ExecuteTask ut engine jt (NewWorker ut engine True) p w"
    using queue_entry_handled [OF assms(9,7)] by blast
  have cw: "created_with cx inp (store w) task m (store v)" by (rule CreateWithOutbox_Inr(1) [OF assms(4)])
  note tables = relayed_tables [OF w1(3) cw]
  have p: "pl_TaskID p = task_ID task" "pl_OrgID p = ti_OrgID inp" by (simp_all add: assms(6) api_payload_def)
  have nz: "task_ID task \<noteq> 0" "ti_OrgID inp \<noteq> 0" using created_task_ids [OF assms(4)] by simp_all
  have ids: "distinct (map task_ID (t_tasks (store w1)))"
    using CreateWithOutbox_frame(2) [OF assms(4,3)] cw tables(1) by (auto simp: keys_ok_def created_with_def)
  have "task_Status task = TaskStatusPending" "task_OrgID task = ti_OrgID inp" using cw by (auto simp: created_with_def)
  then obtain now at w2 where st: "startTask p w1 = (Inr (task\<lparr>task_Status := TaskStatusRunning, task_StartedAt := Some now, task_UpdateAt := at\<rparr>), w2)"
    using startTask_ok [OF w1(4) ids, of task p] p by (auto simp: tables(1) worker_task_at_def)
  let ?t = "task\<lparr>task_Status := TaskStatusRunning, task_StartedAt := Some now, task_UpdateAt := at\<rparr>"
  have C: "C = all_candidates (sql_like w1) (batch_filter (pl_OrgID p) ?t 100 0) (store w1)"
    by (simp add: assms(13) w1(5) p all_candidates_def tables batch_filter_def)
  let ?scan = "keyword_scanner ut engine (Some NewKeywordScanner)"
  have r: "DecodeTaskRules ut (task_RuleSnapshot ?t) = Inr rules" using assms(10) by simp
  have sc: "?scan a rules \<noteq> None" if "a \<in> set C" for a using assms(14) [OF that] by (simp add: keyword_scanner_def)
  note run = execution_scans [where scan = ?scan and engine = engine and jt = jt, OF w1(4) _ _ _ _ ids st r _ _ C sc]
  have st0: "stored_articles (pl_OrgID p) (pl_TaskID p) (store w1) = []" using assms(15) by (simp add: p stored_articles_def tables)
  obtain w3 t where ex: "h (q_Type (queue_entry p), q_Payload (queue_entry p)) w1 = Some (Returned (Inr ()), w3)"
    "stored_articles (ti_OrgID inp) (task_ID task) (store w3) = map ca_ID (filter hit C)"
    "t \<in> set (t_tasks (store w3))" "worker_task_at (task_ID task) (ti_OrgID inp) t" "task_Status t = TaskStatusSuccess"
    "task_TotalScanned t = int (length C)" "task_HitArticles t = int (length (filter hit C))" "task_FinishedAt t \<noteq> None"
    using run [OF _ _ _ _ _ _ _ st0] nz assms(11,12) h(2)
    by (simp add: p tables NewWorker_def assms(16) scanner_never_fails no_failures) blast
  show ?thesis by (intro exI conjI) (fact w1(1,2) h(1) ex)+
qed

text \<open>The example: one keyword, one article that contains it.\<close>

definition ex_flow_world :: world where
  "ex_flow_world = calm_world (empty_db\<lparr>t_categories := [ex_category_row], t_keywords := [ex_keyword_row], t_scopes := [ex_scope_row],
     t_articles := [ex_source_article]\<rparr>)"

definition ex_flow_rule :: KeywordRule where
  "ex_flow_rule = \<lparr>kr_ID = 7, kr_Name = ''spam'', kr_Category = ''c'', kr_MatchType = ''contains'', kr_RiskLevel = ''high'',
     kr_SuggestAction = ''offline'', kr_Scopes = [''title'']\<rparr>"

definition ex_runtime :: "Runtime option" where
  "ex_runtime = Some \<lparr>rt_Config = None, rt_Logger = False, rt_Resources = Some \<lparr>rc_DB = True, rc_Redis = True\<rparr>\<rparr>"

lemma ex_flow_world_simps [simp]:
  "no_faults ex_flow_world" "t_tasks (store ex_flow_world) = []" "t_outbox (store ex_flow_world) = []"
  "queue ex_flow_world = []" "autoinc ex_flow_world t = 100" "t_articles (store ex_flow_world) = [ex_source_article]"
  "t_infos (store ex_flow_world) = []" "t_results (store ex_flow_world) = []"
  by (simp_all add: ex_flow_world_def)

text \<open>What the created task of the example holds for the worker.\<close>

definition ex_flow_task :: "InspectionTask \<Rightarrow> bool" where
  "ex_flow_task t \<longleftrightarrow> task_RuleSnapshot t = marshal (rules_json [ex_flow_rule]) \<and> task_ArticleStateFilter t = ''9'' \<and>
     task_PublishTimeStart t = None \<and> task_PublishTimeEnd t = None \<and> task_ArticleID t = 0 \<and> task_TitleLike t = ''''"

lemma ex_flow_prepare:
  "\<exists>p. prepareTaskCreate background ex_task_service ex_task_input ex_flow_world = (Inr p, advance (advance (advance ex_flow_world))) \<and>
     ex_flow_task (pt_Task p)"
proof -
  have "uniqueUint64s [7] = [7]" by (simp add: uniqueUint64s_def)
  moreover have "keywordQuery 100 (store ex_flow_world) = [\<lparr>rk_Keyword = ex_keyword_row, rk_CategoryName = ''c''\<rparr>]"
    by (simp add: keywordQuery_def ex_flow_world_def ex_keyword_row_def ex_category_row_def category_at_def)
  moreover have "task_input_json ex_task_input \<noteq> None" by (simp add: task_input_json_def json_time_def ex_task_input_def)
  moreover have "Itoa (sint ArticleStateOnline) = ''9''" by code_simp
  moreover have "scope_query 100 [7] (store ex_flow_world) = [ex_scope_row]"
    by (simp add: scope_query_def ex_flow_world_def ex_scope_row_def)
  ultimately show ?thesis
    by (auto simp: prepareTaskCreate_def ex_task_service_def ex_task_input_def KeywordRepository_ListByIDs_def
        keyword_ready_def listScopes_def stmt_simps ex_keyword_row_def time_now_def Let_def ex_flow_task_def
        ex_flow_rule_def ex_scope_row_def BuildKeywordRuleSnapshots_def group_scopes_def)
qed

lemma ex_flow_creates:
  "\<exists>task m v. CreateWithOutbox background ex_task_service ex_task_input ex_flow_world = (Inr (task, m), v) \<and>
     task_ID task = 101 \<and> ex_flow_task task"
proof -
  obtain p where p: "prepareTaskCreate background ex_task_service ex_task_input ex_flow_world =
     (Inr p, advance (advance (advance ex_flow_world)))" "ex_flow_task (pt_Task p)" using ex_flow_prepare by blast
  show ?thesis
    using prepare_Inr [OF p(1)] p(2)
    by (simp add: CreateWithOutbox_def p(1) db_transaction_def db_stmt_ok persistPreparedTaskGraph_def db_create_def
        db_create_all_def Let_def no_unique_def list_ex_iff outbox_message_def ex_flow_task_def)
qed

lemma ex_flow_candidates:
  assumes "ex_flow_task t"
  shows "all_candidates like (batch_filter 100 t 100 0) (store ex_flow_world) = [candidate_of (body_map []) ex_source_article]"
proof -
  have "ParseArticleStateFilter ''9'' = 9" by code_simp
  then show ?thesis using assms
    by (simp add: all_candidates_def candidate_match_def ex_source_article_def batch_filter_def ex_flow_task_def)
qed

lemma ex_flow_scan: "ScanArticle ascii_tables literal_engine (Some NewKeywordScanner) (candidate_of (body_map []) ex_source_article) [ex_flow_rule] =
   Some [hit_at NewKeywordScanner ex_flow_rule ''title'' ''spam offer'' 4 0]"
  by code_simp

theorem created_task_is_executed_witness:
  "\<exists>task w1 h w2 t.
     CreateAndEnqueue background ex_task_service ex_task_input (Some (TryDispatchMessage (Some (ex_relay dedup_enqueue)))) ex_flow_world
       = (Inr task, w1) \<and>
     queue w1 = [queue_entry (api_payload background 100 101)] \<and>
     map_of (RegisterHandlers ascii_tables literal_engine id ex_runtime) TypeArticleInspectRunTask = Some h \<and>
     h (TypeArticleInspectRunTask, marshal_payload (api_payload background 100 101)) w1 = Some (Returned (Inr ()), w2) \<and>
     stored_articles 100 101 (store w2) = [10] \<and>
     t \<in> set (t_tasks (store w2)) \<and> task_Status t = TaskStatusSuccess \<and> task_HitArticles t = 1"
proof -
  obtain task m v where c: "CreateWithOutbox background ex_task_service ex_task_input ex_flow_world = (Inr (task, m), v)"
    and task: "task_ID task = 101" "ex_flow_task task" using ex_flow_creates by blast
  let ?p = "api_payload background 100 101" and ?C = "[candidate_of (body_map []) ex_source_article]"
  have o: "ti_OrgID ex_task_input = 100" by (simp add: ex_task_input_def)
  have ok: "payload_ok ?p" by (simp add: payload_ok_def api_payload_def ResolveOperator_def background_def operator_from_metadata_def operator_from_principal_def operator_from_actor_def zero_operator_def
      PrincipalFromContext_def ActorFromContext_def RequestMetadataFromContext_def valid_utf8_ascii ascii_def byte_def)
  have rules: "DecodeTaskRules ascii_tables (task_RuleSnapshot task) = Inr [ex_flow_rule]"
    using task(2) decode_snapshot [of "[ex_flow_rule]"]
    by (simp add: ex_flow_task_def ex_flow_rule_def rule_ok_def valid_utf8_ascii ascii_def byte_def)
  have keys: "outbox_ok ex_flow_world" "tasks_ok ex_flow_world" by (simp_all add: keys_ok_def)
  have run: "runtime_db ex_runtime" by (simp add: runtime_db_def ex_runtime_def)
  have art: "art_ID ex_source_article = 10" by (simp add: ex_source_article_def)
  obtain w1 h w2 t where "CreateAndEnqueue background ex_task_service ex_task_input (Some (TryDispatchMessage (Some (ex_relay dedup_enqueue)))) ex_flow_world
       = (Inr task, w1)" "queue w1 = [queue_entry ?p]"
    "map_of (RegisterHandlers ascii_tables literal_engine id ex_runtime) TypeArticleInspectRunTask = Some h"
    "h (TypeArticleInspectRunTask, marshal_payload ?p) w1 = Some (Returned (Inr ()), w2)" "stored_articles 100 101 (store w2) = [10]"
    "t \<in> set (t_tasks (store w2))" "task_Status t = TaskStatusSuccess" "task_HitArticles t = 1"
    using created_task_is_executed [OF _ keys c, of "ex_relay dedup_enqueue" "''default''" ?p ex_runtime ascii_tables "[ex_flow_rule]" ?C
        literal_engine _ id] run ok rules ex_flow_candidates [OF task(2)] ex_flow_scan
    by (fastforce simp add: o task(1) art hits_of_scanner stored_articles_def queue_entry_def)
  then show ?thesis by (intro exI conjI)
qed


section \<open>What the router does to a request\<close>





lemma client_ip_context [simp]: "clientIPFromRequest (with_context r cx) nets = clientIPFromRequest r nets"
  by (cases "remoteIPFromRequest (rq_RemoteAddr r)") (simp add: clientIPFromRequest_def with_context_def header_values_def header_get_def split: option.split)







section \<open>Heartbeats\<close>

text \<open>A heartbeat that was sent is understood by the worker and changes nothing.\<close>

lemma heartbeat_handled:
  assumes "valid_utf8 (hp_Source p)"
  shows "DecodePayload ut (Some (NewTask p)) = Inr p" and "heartbeat_handler ut (NewTask p) w = Some (Returned (Inr ()), w)"
proof -
  have "valid_utf8 ''source''" by (simp add: valid_utf8_ascii ascii_def byte_def)
  with assms have "wf_json (JObj [(''source'', JStr (hp_Source p))])" by simp
  then have "json_parse (marshal (JObj [(''source'', JStr (hp_Source p))])) = Some (JObj [(''source'', JStr (hp_Source p))])"
    by (rule json_parse_marshal)
  then show d: "DecodePayload ut (Some (NewTask p)) = Inr p"
    by (simp add: DecodePayload_def NewTask_def decode_struct_def match_field_def decode_string_def)
  show "heartbeat_handler ut (NewTask p) w = Some (Returned (Inr ()), w)" by (simp add: heartbeat_handler_def d)
qed

end
