(* ===== verification/Interleaving.thy ===== *)
theory Interleaving
  imports Processes Actions
begin

text \<open>
  All services and processes at work on one database, in any order. Each step is one call of an
  operation of the services, one job of the scheduler, one task of the worker, or something outside
  (time passes, a queue entry is taken, failures of the database begin or end); for workers beside each
  other the parts of an execution are steps as well (\<open>system_step\<close>). The theory shows what no sequence
  of such steps can break: the invariant of the tables, that a task is started once, and that a task whose
  execution panicked is never closed.
\<close>

section \<open>Relations between worlds\<close>

text \<open>
  A relation between the worlds before and after a program that holds for every statement and is
  not harmed by a rollback holds for every program made of such statements.
\<close>

locale world_order =
  fixes R :: "world \<Rightarrow> world \<Rightarrow> bool"
  assumes R_refl: "R w w"
    and R_trans: "R u v \<Longrightarrow> R v w \<Longrightarrow> R u w"
    and R_advance: "R w (advance w)"
    and R_ids: "R w (take_ids t n w)"
    and R_rollback: "R v w \<Longrightarrow> R v (w\<lparr>store := store v\<rparr>)"
begin

definition moves :: "(world \<Rightarrow> 'a \<times> world) \<Rightarrow> bool" where
  "moves f = (\<forall>w. R w (snd (f w)))"

lemma movesI: "(\<And>w. R w (snd (f w))) \<Longrightarrow> moves f"
  by (simp add: moves_def)

lemma movesD: "moves f \<Longrightarrow> f w = (x, w') \<Longrightarrow> R w w'"
  by (metis moves_def snd_conv)

lemma moves_pure: "moves (\<lambda>w. (x, w))"
  by (simp add: moves_def R_refl)

lemma moves_stmt: "moves f \<Longrightarrow> moves (db_stmt f)"
  unfolding moves_def db_stmt_def by (auto intro: R_advance R_trans [OF R_advance] split: option.split)

lemma moves_query: "moves (db_query q)"
  unfolding db_query_def by (intro moves_stmt) (simp add: moves_def R_refl)

lemma moves_first: "moves (db_first sel key P)"
  unfolding db_first_def by (intro moves_stmt) (auto simp: moves_def R_refl split: option.split)

lemma moves_update:
  "(\<And>w at. R w (w\<lparr>store := upd (rows_update P (h at)) (store w)\<rparr>)) \<Longrightarrow> moves (db_update sel upd P h)"
  unfolding db_update_def by (intro moves_stmt) (simp add: moves_def)

lemma moves_delete:
  "(\<And>w. R w (w\<lparr>store := upd (rows_delete P) (store w)\<rparr>)) \<Longrightarrow> moves (db_delete sel upd P)"
  unfolding db_delete_def by (intro moves_stmt) (simp add: moves_def)

lemma R_insert:
  assumes "\<And>w f. R w (w\<lparr>store := upd f (store w)\<rparr>)"
  shows "R w ((take_ids t n w)\<lparr>store := upd f (store w)\<rparr>)"
  using R_trans [OF R_ids [where t = t and n = n] assms, of w f] by (simp add: take_ids_def)

lemma moves_create:
  assumes "\<And>w f. R w (w\<lparr>store := upd f (store w)\<rparr>)"
  shows "moves (db_create t sel upd c mk)"
  unfolding db_create_def
proof (rule moves_stmt, rule movesI)
  fix w :: world
  let ?r = "mk (Suc (autoinc w t)) (clock w (tick w))"
  show "R w (snd (let r = ?r; w1 = take_ids t 1 w
      in if list_ex (c r) (sel (store w)) then (Inl (Plain ''duplicate entry''), w1)
         else (Inr r, w1\<lparr>store := upd (\<lambda>old. old @ [r]) (store w)\<rparr>)))"
    using R_ids [of w t 1] R_insert [of upd w "\<lambda>old. old @ [?r]" t 1, OF assms] by (simp only: Let_def split: if_split) simp
qed

lemma moves_create_all:
  assumes "\<And>w f. R w (w\<lparr>store := upd f (store w)\<rparr>)"
  shows "moves (db_create_all t sel upd c mks)"
  unfolding db_create_all_def
proof (rule moves_stmt, rule movesI)
  fix w :: world
  let ?rs = "map (\<lambda>i. (mks ! i) (Suc (autoinc w t + i)) (clock w (tick w))) [0..<length mks]"
  show "R w (snd (let rs = ?rs; w1 = take_ids t (length mks) w
      in if list_ex (\<lambda>r. list_ex (c r) (sel (store w))) rs then (Inl (Plain ''duplicate entry''), w1)
         else (Inr rs, w1\<lparr>store := upd (\<lambda>old. old @ rs) (store w)\<rparr>)))"
    using R_ids [of w t "length mks"] R_insert [of upd w "\<lambda>old. old @ ?rs" t "length mks", OF assms]
    by (simp only: Let_def split: if_split) simp
qed

lemma moves_try: "moves f \<Longrightarrow> (\<And>x. moves (k x)) \<Longrightarrow> moves (\<lambda>w. go_try (f w) k)"
proof (rule movesI)
  fix w
  assume f: "moves f" and k: "\<And>x. moves (k x)"
  obtain q w1 where q: "f w = (q, w1)" by fastforce
  with f have "R w w1" by (rule movesD)
  with q k show "R w (snd (go_try (f w) k))"
    by (cases q) (auto simp: go_try_def moves_def intro: R_trans)
qed

lemma moves_if: "(b \<Longrightarrow> moves f) \<Longrightarrow> (\<not> b \<Longrightarrow> moves g) \<Longrightarrow> moves (\<lambda>w. if b then f w else g w)"
  by (simp add: moves_def)

lemma moves_now: "(\<And>now. moves (f now)) \<Longrightarrow> moves (\<lambda>w. let (now, w) = time_now w in f now w)"
  unfolding moves_def time_now_def by (auto intro: R_trans [OF R_advance])

lemma moves_snd: "moves f \<Longrightarrow> moves (\<lambda>w. (x, snd (f w)))"
  by (simp add: moves_def)

lemma moves_transaction:
  assumes "moves f"
  shows "moves (db_transaction f)"
proof (rule movesI)
  fix w
  obtain q w1 where b: "f (advance w) = (q, w1)" by fastforce
  with assms have r: "R (advance w) w1" by (rule movesD)
  have c: "R (advance w) (advance w1)" using r R_advance by (rule R_trans)
  from b r c R_rollback [OF r] R_rollback [OF c] show "R w (snd (db_transaction f w))"
    by (cases q) (auto simp: db_transaction_def db_stmt_def intro: R_advance R_trans [OF R_advance] split: option.split)
qed

lemma moves_time: "moves time_now"
  by (simp add: moves_def time_now_def R_advance)

lemma moves_like: "(\<And>x. moves (f x)) \<Longrightarrow> moves (\<lambda>w. f (sql_like w) w)"
  by (simp add: moves_def)

lemma moves_let: "moves (f x) \<Longrightarrow> moves (\<lambda>w. let y = x in f y w)"
  by simp

lemma moves_sum:
  "(\<And>e. x = Inl e \<Longrightarrow> moves (f e)) \<Longrightarrow> (\<And>y. x = Inr y \<Longrightarrow> moves (g y)) \<Longrightarrow> moves (\<lambda>w. case x of Inl e \<Rightarrow> f e w | Inr y \<Rightarrow> g y w)"
  by (cases x) simp_all

lemma moves_option:
  "(x = None \<Longrightarrow> moves f) \<Longrightarrow> (\<And>y. x = Some y \<Longrightarrow> moves (g y)) \<Longrightarrow> moves (\<lambda>w. case x of None \<Rightarrow> f w | Some y \<Rightarrow> g y w)"
  by (cases x) simp_all

lemma moves_prod: "(\<And>a b. x = (a, b) \<Longrightarrow> moves (f a b)) \<Longrightarrow> moves (\<lambda>w. case x of (a, b) \<Rightarrow> f a b w)"
  by (cases x) simp

lemma moves_pair: "(\<And>a b. x = (a, b) \<Longrightarrow> moves (f a b)) \<Longrightarrow> moves (case x of (a, b) \<Rightarrow> f a b)"
  by (cases x) simp

lemma moves_list:
  "moves f \<Longrightarrow> (\<And>y ys. moves (g y ys)) \<Longrightarrow> moves (\<lambda>w. case x of [] \<Rightarrow> f w | y # ys \<Rightarrow> g y ys w)"
  by (cases x) simp_all

lemma moves_then: "moves f \<Longrightarrow> (\<And>x. moves (g x)) \<Longrightarrow> moves (\<lambda>w. case f w of (x, w1) \<Rightarrow> g x w1)"
proof (rule movesI)
  fix w
  assume f: "moves f" and g: "\<And>x. moves (g x)"
  obtain x w1 where x: "f w = (x, w1)" by fastforce
  with movesD [OF f x] g show "R w (snd (case f w of (x, w1) \<Rightarrow> g x w1))"
    by (auto simp: moves_def intro: R_trans)
qed

lemmas rules = moves_pure moves_query moves_first moves_try moves_if moves_now moves_snd moves_transaction
  moves_let moves_sum moves_option moves_prod moves_pair moves_list moves_time moves_then

end

section \<open>What the operations leave alone\<close>

text \<open>
  Which task a message belongs to, and how an operation at work on one task may change the rows of the tasks: the
  others stay as they are, and its status changes to one that exists and is not pending.
\<close>

definition task_key :: "InspectionTask \<Rightarrow> uint64 \<times> uint64" where
  "task_key t = (task_OrgID t, task_ID t)"

definition ob_owner :: "InspectionTaskOutboxMessage \<Rightarrow> uint64 \<times> uint64" where
  "ob_owner m = (ob_OrgID m, ob_TaskID m)"

definition task_legal :: "InspectionTask \<Rightarrow> bool" where
  "task_legal t = (task_Status t \<in> set InspectionTaskStatuses)"

definition past_pending :: "string \<Rightarrow> bool" where
  "past_pending status = (status \<in> set InspectionTaskStatuses \<and> status \<noteq> TaskStatusPending)"

definition task_moved :: "uint64 \<Rightarrow> InspectionTask \<Rightarrow> InspectionTask \<Rightarrow> bool" where
  "task_moved tid a b =
     (task_key b = task_key a \<and> (task_Status b = task_Status a \<or> past_pending (task_Status b)) \<and> (task_ID a \<noteq> tid \<longrightarrow> b = a))"

lemma task_moved_refl [simp]: "task_moved tid a a"
  by (simp add: task_moved_def)

lemma task_moved_trans: "task_moved tid a b \<Longrightarrow> task_moved tid b c \<Longrightarrow> task_moved tid a c"
  by (auto simp: task_moved_def task_key_def)

definition spared :: "uint64 \<Rightarrow> world \<Rightarrow> world \<Rightarrow> bool" where
  "spared tid w w' =
     ((\<forall>t. autoinc w t \<le> autoinc w' t) \<and> t_outbox (store w') = t_outbox (store w) \<and>
      list_all2 (task_moved tid) (t_tasks (store w)) (t_tasks (store w')))"

lemma tasks_moved_refl [simp]: "list_all2 (task_moved tid) ts ts"
  by (simp add: list_all2_refl)

lemma tasks_moved_keys: "list_all2 (task_moved tid) ts ts' \<Longrightarrow> map task_key ts' = map task_key ts"
  by (induction rule: list_all2_induct) (simp_all add: task_moved_def)

lemma tasks_moved_legal: "list_all2 (task_moved tid) ts ts' \<Longrightarrow> list_all task_legal ts \<Longrightarrow> list_all task_legal ts'"
  by (induction rule: list_all2_induct) (auto simp: task_moved_def task_legal_def past_pending_def)

text \<open>The relay and the cleanup may change or remove messages, but keep the owner of those that stay.\<close>

definition evolved :: "world \<Rightarrow> world \<Rightarrow> bool" where
  "evolved w w' =
     ((\<forall>t. autoinc w t \<le> autoinc w' t) \<and> (\<forall>m \<in> set (t_outbox (store w')). \<exists>m0 \<in> set (t_outbox (store w)). ob_owner m0 = ob_owner m) \<and>
      t_tasks (store w') = t_tasks (store w))"

interpretation spare: world_order "spared tid" for tid
proof unfold_locales
  fix u v w
  show "spared tid u v \<Longrightarrow> spared tid v w \<Longrightarrow> spared tid u w"
    using list_all2_trans [of "task_moved tid" "task_moved tid" "task_moved tid", OF task_moved_trans]
    by (auto simp: spared_def intro: order_trans)
qed (auto simp: spared_def take_ids_def)

interpretation evolve: world_order evolved
proof unfold_locales
  fix u v w
  show "evolved u v \<Longrightarrow> evolved v w \<Longrightarrow> evolved u w" by (simp add: evolved_def) (metis order_trans)
qed (auto simp: evolved_def take_ids_def)

text \<open>Any statement on another table spares the tasks and the outbox.\<close>

lemma spared_other:
  assumes "\<And>f d. t_outbox (upd f d) = t_outbox d" and "\<And>f d. t_tasks (upd f d) = t_tasks d"
  shows "spared tid w (w\<lparr>store := upd f (store w)\<rparr>)"
  using assms by (simp add: spared_def)

lemma spared_tasks:
  assumes "\<And>t. P t \<Longrightarrow> task_moved tid t (h t)"
  shows "spared tid w (w\<lparr>store := t_tasks_update (rows_update P h) (store w)\<rparr>)"
  using assms by (simp add: spared_def rows_update_def list_all2_conv_all_nth)

lemma evolved_update:
  assumes "\<And>m. ob_owner (h m) = ob_owner m"
  shows "evolved w (w\<lparr>store := t_outbox_update (rows_update P h) (store w)\<rparr>)"
  using assms by (force simp: evolved_def rows_update_def)

lemma evolved_delete: "evolved w (w\<lparr>store := t_outbox_update (rows_delete P) (store w)\<rparr>)"
  by (auto simp: evolved_def rows_delete_def)

lemma spares_other:
  assumes "\<And>f d. t_outbox (upd f d) = t_outbox d" and "\<And>f d. t_tasks (upd f d) = t_tasks d"
  shows "spare.moves tid (db_update sel upd P h)" and "spare.moves tid (db_delete sel upd P)"
    and "spare.moves tid (db_create t sel upd c mk)" and "spare.moves tid (db_create_all t sel upd c mks)"
  by (intro spare.moves_update spare.moves_delete spare.moves_create spare.moves_create_all spared_other assms)+

lemmas spares = spare.rules spares_other

subsection \<open>Rules and articles\<close>

lemma CategoryService_Get_spares: "spare.moves tid (CategoryService_Get service orgID i)"
proof -
  have "spare.moves tid (CategoryRepository_Get repo org j)" for repo org j
    using spare.movesD [OF spare.moves_first] spare.R_refl
    by (fastforce simp: spare.moves_def CategoryRepository_Get_def split: prod.split sum.split)
  then show ?thesis unfolding CategoryService_Get_def by (intro spares)
qed

lemma CategoryService_Create_spares: "spare.moves tid (CategoryService_Create cx service inp)"
  unfolding CategoryService_Create_def CategoryRepository_Create_def by (intro spares CategoryService_Get_spares) simp_all

lemma CategoryService_Update_spares: "spare.moves tid (CategoryService_Update cx service i inp)"
  unfolding CategoryService_Update_def CategoryRepository_Update_def by (intro spares CategoryService_Get_spares) simp_all

lemma CategoryService_Delete_spares: "spare.moves tid (CategoryService_Delete service orgID i)"
  unfolding CategoryService_Delete_def CategoryRepository_Delete_def by (intro spares) simp_all

lemma CategoryService_PatchEnabled_spares: "spare.moves tid (CategoryService_PatchEnabled cx service orgID i b)"
  unfolding CategoryService_PatchEnabled_def CategoryRepository_PatchEnabled_def by (intro spares CategoryService_Get_spares) simp_all

lemma listScopes_spares: "spare.moves tid (listScopes orgID ids)"
  unfolding listScopes_def by (intro spares)

lemma KeywordRepository_Get_spares: "spare.moves tid (KeywordRepository_Get repo orgID i)"
  unfolding KeywordRepository_Get_def getKeyword_def by (intro spares listScopes_spares)

lemma create_scopes_spares: "spare.moves tid (create_scopes keywordID orgID scopes)"
  unfolding create_scopes_def by (intro spares) simp_all

lemma ensureKeywordCategoryExists_spares: "spare.moves tid (ensureKeywordCategoryExists orgID i)"
  unfolding ensureKeywordCategoryExists_def by (intro spares)

lemmas keyword_spares = listScopes_spares KeywordRepository_Get_spares create_scopes_spares ensureKeywordCategoryExists_spares

lemma KeywordService_Create_spares: "spare.moves tid (KeywordService_Create ut cx service inp)"
  unfolding KeywordService_Create_def KeywordRepository_Create_def by (intro spares keyword_spares) simp_all

lemma KeywordService_Update_spares: "spare.moves tid (KeywordService_Update ut cx service i inp)"
  unfolding KeywordService_Update_def KeywordRepository_Update_def by (intro spares keyword_spares) simp_all

lemma KeywordService_Delete_spares: "spare.moves tid (KeywordService_Delete service orgID i)"
  unfolding KeywordService_Delete_def KeywordRepository_Delete_def by (intro spares) simp_all

lemma KeywordService_PatchEnabled_spares: "spare.moves tid (KeywordService_PatchEnabled cx service orgID i b)"
  unfolding KeywordService_PatchEnabled_def KeywordRepository_PatchEnabled_def by (intro spares keyword_spares) simp_all

subsection \<open>Articles and batch actions\<close>

lemma CreateOperationLog_spares: "spare.moves tid (CreateOperationLog repo l)"
  unfolding CreateOperationLog_def by (intro spares) simp_all

lemma CreateFieldChangeLogs_spares: "spare.moves tid (CreateFieldChangeLogs repo ls)"
  unfolding CreateFieldChangeLogs_def by (intro spares) simp_all

lemma writeOperationLog_spares:
  "spare.moves tid (writeOperationLogWithDB cx (NewLifecycleService b) db orgID actionID taskID resultID articleID ty before after status reason opID opName snap)"
  unfolding writeOperationLogWithDB_def NewLifecycleService_def repository_writer_def
  by (simp add: Let_def, intro spares CreateOperationLog_spares)

lemma OfflineArticle_spares: "spare.moves tid (OfflineArticle cx (NewLifecycleService b) inp)"
  unfolding OfflineArticle_def writeOperationLog_def by (intro spares writeOperationLog_spares) simp_all

lemma RepublishArticle_spares: "spare.moves tid (RepublishArticle cx (NewLifecycleService b) inp)"
  unfolding RepublishArticle_def writeOperationLog_def by (intro spares writeOperationLog_spares) simp_all

lemma UpdateArticleFields_spares: "spare.moves tid (UpdateArticleFields cx (NewLifecycleService b) inp)"
proof -
  have "spare.moves tid (rectify_tx cx s inp article changes)" if "NewLifecycleService b = Some s" for s article changes
  proof -
    have "aw_CreateFieldChangeLogs (lf_newAuditWriter s True) = CreateFieldChangeLogs (NewAuditRepository True)"
      using that by (auto simp: NewLifecycleService_def repository_writer_def)
    then show ?thesis
      unfolding rectify_tx_def that [symmetric]
      by (intro spares writeOperationLog_spares) (simp_all add: CreateFieldChangeLogs_spares)
  qed
  then show ?thesis unfolding UpdateArticleFields_def by (intro spares) simp_all
qed

lemma offline_results_spares:
  "spare.moves tid (offline_results cx (\<lambda>cx. OfflineArticle cx (NewLifecycleService b)) inp actionID now ids s)"
proof (induction ids arbitrary: s)
  case Nil
  show ?case by (simp add: spare.rules)
next
  case (Cons i ids)
  show ?case
    unfolding offline_results.simps offline_result_def Let_def
    by (intro spares OfflineArticle_spares Cons.IH) simp_all
qed

lemma dispose_results_spares: "spare.moves tid (dispose_results cx inp ty target actionID now ids s)"
proof (induction ids arbitrary: s)
  case Nil
  show ?case by (simp add: spare.rules)
next
  case (Cons i ids)
  show ?case
    unfolding dispose_results.simps dispose_result_def Let_def
    by (intro spares Cons.IH CreateOperationLog_spares) simp_all
qed

lemma action_repo_spares: "spare.moves tid (CreateAction repo action)" "spare.moves tid (UpdateActionSummary repo i st a b c)"
  unfolding CreateAction_def UpdateActionSummary_def by (intro spares; simp)+

lemma BatchOffline_spares: "spare.moves tid (BatchOffline cx app_actions inp)"
  unfolding BatchOffline_run [abs_def] run_action_def offline_body_def close_action_def Let_def
  by (intro spares action_repo_spares offline_results_spares)

lemma applyDisposition_spares: "spare.moves tid (applyDisposition cx app_actions inp ty target)"
  unfolding applyDisposition_run [abs_def] run_action_def dispose_body_def close_action_def
  by (intro spares action_repo_spares dispose_results_spares)

subsection \<open>The worker\<close>

lemma task_update_spares:
  assumes "\<And>at t. P t \<Longrightarrow> task_moved tid t (h at t)"
  shows "spare.moves tid (db_update t_tasks t_tasks_update P h)"
  using assms by (intro spare.moves_update spared_tasks)

lemma startTask_spares: "spare.moves (pl_TaskID p) (startTask p)"
  unfolding startTask_def
  by (intro spares task_update_spares)
     (simp_all add: task_moved_def task_key_def past_pending_def InspectionTaskStatuses_def worker_task_at_def)

lemma finishTask_spares: "past_pending status \<Longrightarrow> spare.moves taskID (finishTask taskID orgID status c msg)"
  unfolding finishTask_def by (intro spares task_update_spares) (simp_all add: task_moved_def task_key_def worker_task_at_def)

lemma startTask_id: "startTask p w = (Inr task, w') \<Longrightarrow> task_ID task = pl_TaskID p"
  by (erule startTask_Inr) (auto simp: worker_task_at_def dest: first_row_Some)

text \<open>The statuses with which the worker ends a task.\<close>

lemma end_statuses: "past_pending TaskStatusFailed" "past_pending (ResolveTaskStatus m n)"
  by (auto simp: past_pending_def InspectionTaskStatuses_def ResolveTaskStatus_def)

lemma persistArticleResult_spares: "spare.moves tid (persistArticleResult orgID taskID article hits)"
  unfolding persistArticleResult_def by (intro spares) simp_all

lemma scan_batch_spares: "spare.moves tid (scan_batch scan rules orgID taskID articles c)"
proof (induction articles arbitrary: c)
  case Nil
  show ?case by (simp add: spare.rules)
next
  case (Cons a as)
  show ?case
    unfolding scan_batch.simps by (intro spares Cons.IH persistArticleResult_spares)
qed

lemma ListCandidateArticles_spares: "spare.moves tid (ListCandidateArticles repo f)"
  unfolding ListCandidateArticles_def loadBodies_def by (intro spares spare.moves_like [where f = "\<lambda>like. db_query (candidate_query like f n)" for n])

lemma scan_batches_spares:
  assumes "scan_batches scan source rules orgID task b a c w = Some r" and "\<forall>f. spare.moves tid (source f)"
  shows "spared tid w (snd (snd r))"
proof (rule scan_batches.raw_induct [where P = "\<lambda>scan source rules orgID task b a c w r.
    (\<forall>f. spare.moves tid (source f)) \<longrightarrow> spared tid w (snd (snd r))", OF _ assms(1), THEN mp, OF _ assms(2)], rule impI)
  fix rec :: "scanner \<Rightarrow> candidate_source \<Rightarrow> KeywordRule list \<Rightarrow> uint64 \<Rightarrow> InspectionTask \<Rightarrow> int \<Rightarrow> uint64 \<Rightarrow> scan_counts \<Rightarrow> world \<Rightarrow>
     (goerr option option \<times> scan_counts \<times> world) option"
  fix scan source rules orgID task b a c w and r :: "goerr option option \<times> scan_counts \<times> world"
  assume IH: "\<And>scan source rules orgID task b a c w r. rec scan source rules orgID task b a c w = Some r \<Longrightarrow>
      (\<forall>f. spare.moves tid (source f)) \<longrightarrow> spared tid w (snd (snd r))"
  assume body: "(case source (batch_filter orgID task b a) w of
        (Inl e, w1) \<Rightarrow> Some (Some (Some e), c, w1)
      | (Inr (items, nextCursor), w1) \<Rightarrow>
          if items = [] then Some (None, c, w1)
          else
            (case scan_batch scan rules orgID (task_ID task) items c w1 of
               (None, w2) \<Rightarrow> Some (Some None, c, w2)
             | (Some c1, w2) \<Rightarrow>
                 if int (length items) < b \<or> nextCursor = 0 \<or> nextCursor = a then Some (None, c1, w2)
                 else rec scan source rules orgID task b nextCursor c1 w2)) = Some r"
  assume src: "\<forall>f. spare.moves tid (source f)"
  then have one: "source f v = (q, v1) \<Longrightarrow> spared tid v v1" for f v q v1 by (blast dest: spare.movesD)
  show "spared tid w (snd (snd r))"
    using body by (auto split: prod.splits sum.splits if_splits option.splits dest!: IH [THEN mp, OF _ src] one
        spare.movesD [OF scan_batch_spares] intro: spare.R_trans)
qed

lemma ExecuteTask_spares:
  assumes "ExecuteTask ut engine jt (NewExecutorWithDeps hasDB scan (Some (ListCandidateArticles repo)) b) p w = Some (e, w')"
  shows "spared (pl_TaskID p) w w'"
proof -
  let ?i = "pl_TaskID p"
  have fail: "spared ?i u (snd (finishTask ?i orgID TaskStatusFailed c msg v))" if "spared ?i u v" for orgID c msg u v
    using that finishTask_spares [OF end_statuses(1)] by (auto simp: spare.moves_def intro: spare.R_trans)
  have fail2: "spared ?i u (snd (finishTask ?i orgID TaskStatusFailed c msg v))" if "spared ?i u t" "spared ?i t v" for orgID c msg t u v
    using fail spare.R_trans [OF that] by blast
  have src: "\<forall>f. spare.moves ?i (ListCandidateArticles repo f)" by (simp add: ListCandidateArticles_spares)
  show ?thesis
    using assms
    by (auto simp: ExecuteTask_def NewExecutorWithDeps_def Let_def spare.R_refl startTask_id
        split: if_splits prod.splits sum.splits option.splits
        dest!: scan_batches_spares [OF _ src] spare.movesD [OF startTask_spares] spare.movesD [OF finishTask_spares [OF end_statuses(2)]]
        intro: spare.R_trans fail [simplified] fail2 [simplified])
qed

text \<open>A handler of the worker process leaves the world alone or executes a task.\<close>

lemma handlers_execute:
  assumes "(ty, h) \<in> set (RegisterHandlers ut engine jt rt)" and "h task w = Some (e, w')"
  shows "w' = w \<or> (\<exists>p. ExecuteTask ut engine jt (NewWorker ut engine True) p w = Some (e, w'))"
  using assms
  by (auto simp: RegisterHandlers_def newArticleInspectExecutorFn_def heartbeat_handler_def run_task_handler_def
      split: option.splits sum.splits if_splits)

lemma handlers_spare:
  assumes "(ty, h) \<in> set (RegisterHandlers ut engine jt rt)" and "h task w = Some (e, w')"
  shows "\<exists>tid. spared tid w w'"
  using handlers_execute [OF assms] ExecuteTask_spares spare.R_refl unfolding NewWorker_def by blast

subsection \<open>The relay\<close>

lemma outbox_update_evolves:
  assumes "\<And>at m. ob_owner (h at m) = ob_owner m"
  shows "evolve.moves (db_update t_outbox t_outbox_update P h)"
  using assms by (intro evolve.moves_update evolved_update)

lemma outbox_delete_evolves: "evolve.moves (db_delete t_outbox t_outbox_update P)"
  by (intro evolve.moves_delete evolved_delete)

lemmas owner_simps = ob_owner_def set_claimed_def set_dispatched_def set_retry_def set_dead_def

lemma settle_evolves:
  "evolve.moves (claimMessage r m now)" "evolve.moves (markDispatched r m now)"
  "evolve.moves (scheduleRetry r m now code e)" "evolve.moves (moveToDeadLetter r m now code e)"
  unfolding claimMessage_def markDispatched_def scheduleRetry_def moveToDeadLetter_def
  by (intro evolve.rules outbox_update_evolves; simp add: owner_simps)+

context task_dispatcher
begin

lemma disp_evolves: "evolve.moves (disp p)"
proof (rule evolve.movesI)
  fix w
  obtain q where "snd (disp p w) = w\<lparr>queue := q\<rparr>" using only_queue by blast
  then show "evolved w (snd (disp p w))" by (auto simp: evolved_def)
qed

lemma deliverClaimed_evolves: "evolve.moves (deliverClaimed r disp m now)"
  unfolding deliverClaimed_def by (intro evolve.rules settle_evolves disp_evolves)

lemma DispatchMessage_evolves: "rl_dispatcher r = Some disp \<Longrightarrow> evolve.moves (DispatchMessage (Some r) i)"
  unfolding DispatchMessage_def by (intro evolve.rules settle_evolves) (auto intro: deliverClaimed_evolves)

lemma TryDispatchMessage_evolves: "rl_dispatcher r = Some disp \<Longrightarrow> evolve.moves (TryDispatchMessage (Some r) i)"
  unfolding TryDispatchMessage_def by (intro evolve.rules) (auto intro: DispatchMessage_evolves)

lemma dispatch_items_evolves: "rl_dispatcher r = Some disp \<Longrightarrow> evolve.moves (dispatch_items (Some r) items rp)"
proof (induction items arbitrary: rp)
  case Nil
  show ?case by (simp add: evolve.rules)
next
  case (Cons item items)
  show ?case
    unfolding dispatch_items.simps by (intro evolve.rules Cons.IH DispatchMessage_evolves Cons.prems)
qed

lemma Relay_evolves: "rl_dispatcher r = Some disp \<Longrightarrow> evolve.moves (RelayPendingArticleInspectTaskOutbox (Some r) limit)"
  unfolding RelayPendingArticleInspectTaskOutbox_def DispatchPending_def Let_def
  by (intro evolve.rules) (auto intro: dispatch_items_evolves)

end

lemma Cleanup_evolves: "evolve.moves (CleanupArticleInspectTaskOutbox relay limit)"
  unfolding CleanupArticleInspectTaskOutbox_def Let_def by (intro evolve.rules outbox_delete_evolves)

section \<open>The invariant\<close>

text \<open>
  The rows of the outbox are well formed, the ids of tasks and messages are unique and below their counters, every
  task has a status that exists, and every message belongs to a task of its organisation.
\<close>

definition linked :: "db \<Rightarrow> bool" where
  "linked d = (\<forall>m \<in> set (t_outbox d). \<exists>t \<in> set (t_tasks d). task_key t = ob_owner m)"

definition system_inv :: "world \<Rightarrow> bool" where
  "system_inv w = (outbox_inv w \<and> tasks_ok w \<and> list_all task_legal (t_tasks (store w)) \<and> linked (store w))"

lemma linked_keys:
  assumes "linked d" and "t_outbox d' = t_outbox d" and "map task_key (t_tasks d') = map task_key (t_tasks d)"
  shows "linked d'"
proof -
  have "task_key ` set (t_tasks d') = task_key ` set (t_tasks d)" using assms(3) by (metis list.set_map)
  with assms(1,2) show ?thesis unfolding linked_def by (metis imageE imageI)
qed

lemma linked_owners:
  "linked d \<Longrightarrow> \<forall>m \<in> set (t_outbox d'). \<exists>m0 \<in> set (t_outbox d). ob_owner m0 = ob_owner m \<Longrightarrow> t_tasks d' = t_tasks d \<Longrightarrow> linked d'"
  unfolding linked_def by metis

lemma linked_purge: "linked d \<Longrightarrow> linked (purge orgID i d)"
  by (fastforce simp: linked_def purge_def task_key_def ob_owner_def)

lemma linked_created: "linked d \<Longrightarrow> created_with cx inp d task m d' \<Longrightarrow> linked d'"
  by (auto simp: linked_def created_with_def task_key_def ob_owner_def)

lemma keys_ok_spared:
  assumes "tasks_ok w" and "map task_key (t_tasks (store w')) = map task_key (t_tasks (store w))" and "autoinc w TTasks \<le> autoinc w' TTasks"
  shows "tasks_ok w'"
proof -
  have "map task_ID ts = map snd (map task_key ts)" for ts by (simp add: task_key_def comp_def)
  with assms(2) have ids: "map task_ID (t_tasks (store w')) = map task_ID (t_tasks (store w))" by metis
  then have "task_ID ` set (t_tasks (store w')) = task_ID ` set (t_tasks (store w))" by (metis list.set_map)
  then have "\<exists>t0 \<in> set (t_tasks (store w)). task_ID t0 = task_ID t" if "t \<in> set (t_tasks (store w'))" for t
    using that by (metis imageE imageI)
  with assms ids show ?thesis unfolding keys_ok_def list_all_iff by (metis order_trans)
qed

lemma spared_inv:
  assumes "system_inv w" and "spared tid w w'"
  shows "system_inv w'"
proof -
  have "map task_key (t_tasks (store w')) = map task_key (t_tasks (store w))"
    "list_all task_legal (t_tasks (store w)) \<longrightarrow> list_all task_legal (t_tasks (store w'))"
    using assms(2) tasks_moved_keys tasks_moved_legal unfolding spared_def by blast+
  with assms(2) have sp: "(\<forall>t. autoinc w t \<le> autoinc w' t) \<and> t_outbox (store w') = t_outbox (store w) \<and>
      map task_key (t_tasks (store w')) = map task_key (t_tasks (store w)) \<and>
      (list_all task_legal (t_tasks (store w)) \<longrightarrow> list_all task_legal (t_tasks (store w')))" unfolding spared_def by blast
  have "outbox_inv w'"
    using assms(1) sp keys_ok_grows [of TOutbox t_outbox ob_ID w w'] unfolding system_inv_def outbox_inv_def by metis
  moreover have "tasks_ok w'" using assms(1) sp keys_ok_spared unfolding system_inv_def by blast
  moreover have "linked (store w')" using assms(1) sp linked_keys unfolding system_inv_def by blast
  ultimately show ?thesis using assms(1) sp unfolding system_inv_def by blast
qed

lemma evolved_inv:
  assumes "system_inv w" and "evolved w w'" and "outbox_inv w'"
  shows "system_inv w'"
proof -
  note ev = assms(2) [unfolded evolved_def]
  have "tasks_ok w'" using assms(1) ev keys_ok_grows [of TTasks t_tasks task_ID w w'] unfolding system_inv_def by blast
  moreover have "linked (store w')" using assms(1) ev linked_owners unfolding system_inv_def by blast
  ultimately show ?thesis using assms(1,3) ev unfolding system_inv_def by simp
qed

subsection \<open>Relay, creation and deletion\<close>

text \<open>A relay as the processes build it: none at all, or with a dispatcher, if any, that touches the queue only.\<close>

definition relay_ok :: "TaskOutboxRelay option \<Rightarrow> bool" where
  "relay_ok relay =
     (case relay of None \<Rightarrow> True | Some r \<Rightarrow> (case rl_dispatcher r of None \<Rightarrow> True | Some d \<Rightarrow> task_dispatcher d))"

lemma TryDispatchMessage_inv:
  assumes "relay_ok relay" and "system_inv w"
  shows "system_inv (snd (TryDispatchMessage relay i w))"
proof (cases "\<exists>r d. relay = Some r \<and> rl_dispatcher r = Some d")
  case True
  then obtain r d where r: "relay = Some r" "rl_dispatcher r = Some d" by blast
  with assms(1) have d: "task_dispatcher d" by (simp add: relay_ok_def)
  have "evolved w (snd (TryDispatchMessage relay i w))"
    using task_dispatcher.TryDispatchMessage_evolves [OF d r(2)] by (simp add: r(1) evolve.moves_def)
  moreover have "outbox_inv (snd (DispatchMessage relay i w))"
    using task_dispatcher.DispatchMessage_inv [OF d r(2)] assms(2) by (simp add: r(1) preserves_def system_inv_def)
  then have "outbox_inv (snd (TryDispatchMessage relay i w))"
    using assms(2) by (auto simp: TryDispatchMessage_def system_inv_def split: option.split prod.split sum.split)
  ultimately show ?thesis by (rule evolved_inv [OF assms(2)])
next
  case False
  then have "relay = None \<or> (\<exists>r. relay = Some r \<and> rl_dispatcher r = None)" by (cases relay) auto
  then show ?thesis using assms(2) by (elim disjE exE conjE) (simp_all add: TryDispatchMessage_def)
qed

lemma relay_run_inv:
  assumes "relay_ok relay" and "system_inv w"
  shows "system_inv (snd (RelayPendingArticleInspectTaskOutbox relay limit w))"
proof (cases "\<exists>r d. relay = Some r \<and> rl_dispatcher r = Some d")
  case True
  then obtain r d where r: "relay = Some r" "rl_dispatcher r = Some d" by blast
  with assms(1) have d: "task_dispatcher d" by (simp add: relay_ok_def)
  have "evolved w (snd (RelayPendingArticleInspectTaskOutbox relay limit w))"
    using task_dispatcher.Relay_evolves [OF d r(2)] by (simp add: r(1) evolve.moves_def)
  moreover have "outbox_inv (snd (DispatchPending relay limit w))"
    using task_dispatcher.DispatchPending_inv [OF d r(2)] assms(2) by (simp add: r(1) system_inv_def)
  then have "outbox_inv (snd (RelayPendingArticleInspectTaskOutbox relay limit w))"
    by (auto simp: RelayPendingArticleInspectTaskOutbox_def split: prod.split option.split)
  ultimately show ?thesis by (rule evolved_inv [OF assms(2)])
next
  case False
  then have "relay = None \<or> (\<exists>r. relay = Some r \<and> rl_dispatcher r = None)" by (cases relay) auto
  then show ?thesis using assms(2) by (elim disjE exE conjE) (simp_all add: RelayPendingArticleInspectTaskOutbox_def DispatchPending_def)
qed

lemma cleanup_inv:
  assumes "system_inv w"
  shows "system_inv (snd (CleanupArticleInspectTaskOutbox relay limit w))"
proof (rule evolved_inv [OF assms])
  show "evolved w (snd (CleanupArticleInspectTaskOutbox relay limit w))" using Cleanup_evolves by (simp add: evolve.moves_def)
  show "outbox_inv (snd (CleanupArticleInspectTaskOutbox relay limit w))"
    using assms Cleanup_inv by (cases relay) (auto simp: preserves_def system_inv_def CleanupArticleInspectTaskOutbox_def [where relay = None])
qed

lemma create_inv:
  assumes "relay_ok relay" and "system_inv w"
  shows "system_inv (snd (CreateAndEnqueue cx service inp (Some (TryDispatchMessage relay)) w))"
proof -
  obtain r w1 where c: "CreateWithOutbox cx service inp w = (r, w1)" by fastforce
  have keys: "outbox_ok w1" "tasks_ok w1"
    using CreateWithOutbox_frame [OF c] assms(2) by (auto simp: system_inv_def outbox_inv_def)
  show ?thesis
  proof (cases r)
    case (Inl e)
    with c have "store w1 = store w" by (auto dest: CreateWithOutbox_Inl)
    with keys assms(2) c Inl show ?thesis by (simp add: CreateAndEnqueue_def system_inv_def outbox_inv_def)
  next
    case (Inr tm)
    obtain task m where tm: "tm = (task, m)" by fastforce
    with c Inr have "created_with cx inp (store w) task m (store w1)" by (auto dest: CreateWithOutbox_Inr(1))
    then have cw: "created_with cx inp (store w) task m (store w1)" .
    have "linked (store w1)" using assms(2) linked_created [OF _ cw] by (simp add: system_inv_def)
    moreover have "list_all task_legal (t_tasks (store w1))" "list_all ob_row_ok (t_outbox (store w1))"
      using assms(2) cw by (auto simp: created_with_def system_inv_def outbox_inv_def task_legal_def InspectionTaskStatuses_def)
    ultimately have "system_inv w1" using keys by (simp add: system_inv_def outbox_inv_def)
    with c Inr tm assms(1) show ?thesis by (simp add: CreateAndEnqueue_def TryDispatchMessage_inv)
  qed
qed

lemma TaskService_Delete_grows: "grows (TaskService_Delete service orgID i)"
proof -
  have "grows (\<lambda>w. not_found_as s (f w))" if "grows f" for s and f :: "world \<Rightarrow> 'a res"
    using that by (simp add: grows_def not_found_as_iff)
  then show ?thesis unfolding TaskService_Delete_def deleteTaskGraph_def by (intro frame) (auto intro: frame)
qed

lemma delete_inv:
  assumes "system_inv w"
  shows "system_inv (snd (TaskService_Delete service orgID i w))"
proof -
  obtain r w' where d: "TaskService_Delete service orgID i w = (r, w')" by fastforce
  have g: "autoinc w t \<le> autoinc w' t" for t using TaskService_Delete_grows d by (metis grows_def snd_conv)
  have "store w' = store w \<or> store w' = purge orgID i (store w)"
    using TaskService_Delete_outcome [where service = service and orgID = orgID and taskID = i and w = w] d by (auto split: sum.splits)
  then have "system_inv w'"
  proof
    assume "store w' = store w"
    with assms g show ?thesis
      using keys_ok_grows [of TTasks t_tasks task_ID w w'] keys_ok_grows [of TOutbox t_outbox ob_ID w w']
      by (simp add: system_inv_def outbox_inv_def)
  next
    assume st: "store w' = purge orgID i (store w)"
    have "keys_ok t sel key w \<Longrightarrow> sel (store w') = filter P (sel (store w)) \<Longrightarrow> keys_ok t sel key w'"
      for t P and sel :: "db \<Rightarrow> 'r list" and key
      using g [of t] by (auto simp: keys_ok_def list_all_iff distinct_map_filter intro: order_trans)
    from this [of TTasks t_tasks task_ID] this [of TOutbox t_outbox ob_ID] st linked_purge [of "store w" orgID i] assms show ?thesis
      by (simp add: system_inv_def outbox_inv_def) (auto simp: purge_def list_all_iff)
  qed
  with d show ?thesis by simp
qed

section \<open>Steps of the system\<close>

text \<open>
  The calls that change the state, with any arguments and at any moment. A heartbeat only reaches the queue. The last rule
  is the world outside: time, failures, the queue and whatever else is neither a table nor a counter.
\<close>

definition only_queues :: "(Payload \<Rightarrow> world \<Rightarrow> goerr option \<times> world) \<Rightarrow> bool" where
  "only_queues enqueue = (\<forall>p w. \<exists>q. snd (enqueue p w) = w\<lparr>queue := q\<rparr>)"

inductive step :: "world \<Rightarrow> world \<Rightarrow> bool" where
  create_task: "relay_ok relay \<Longrightarrow> step w (snd (CreateAndEnqueue cx service inp (Some (TryDispatchMessage relay)) w))"
| delete_task: "step w (snd (TaskService_Delete service orgID i w))"
| scheduled: "relay_ok relay \<Longrightarrow> only_queues enqueue \<Longrightarrow> step w (run_job enqueue relay j w)"
| worked: "(ty, h) \<in> set (RegisterHandlers ut engine jt rt) \<Longrightarrow> h task w = Some (e, w') \<Longrightarrow> step w w'"
| category_created: "step w (snd (CategoryService_Create cx cats cinp w))"
| category_updated: "step w (snd (CategoryService_Update cx cats i cinp w))"
| category_patched: "step w (snd (CategoryService_PatchEnabled cx catp orgID i b w))"
| category_deleted: "step w (snd (CategoryService_Delete catp orgID i w))"
| keyword_created: "step w (snd (KeywordService_Create ut cx kws kinp w))"
| keyword_updated: "step w (snd (KeywordService_Update ut cx kws i kinp w))"
| keyword_patched: "step w (snd (KeywordService_PatchEnabled cx kws orgID i b w))"
| keyword_deleted: "step w (snd (KeywordService_Delete kws orgID i w))"
| offlined: "step w (snd (OfflineArticle cx (NewLifecycleService b) oinp w))"
| rectified: "step w (snd (UpdateArticleFields cx (NewLifecycleService b) uinp w))"
| republished: "step w (snd (RepublishArticle cx (NewLifecycleService b) rinp w))"
| batch_offlined: "step w (snd (BatchOffline cx app_actions binp w))"
| batch_ignored: "step w (snd (BatchIgnore cx app_actions binp w))"
| batch_processed: "step w (snd (BatchProcess cx app_actions binp w))"
| outside: "store w' = store w \<Longrightarrow> autoinc w' = autoinc w \<Longrightarrow> step w w'"

lemma spares_inv: "spare.moves tid f \<Longrightarrow> system_inv w \<Longrightarrow> system_inv (snd (f w))"
  unfolding spare.moves_def by (blast intro: spared_inv)

lemmas operations_spare =
  CategoryService_Create_spares CategoryService_Update_spares CategoryService_PatchEnabled_spares CategoryService_Delete_spares
  KeywordService_Create_spares KeywordService_Update_spares KeywordService_PatchEnabled_spares KeywordService_Delete_spares
  OfflineArticle_spares UpdateArticleFields_spares RepublishArticle_spares BatchOffline_spares applyDisposition_spares

lemma job_inv:
  assumes "relay_ok relay" and "only_queues enqueue" and "system_inv w"
  shows "system_inv (run_job enqueue relay j w)"
proof (cases j)
  case HeartbeatJob
  obtain q where "snd (enqueue \<lparr>hp_Source = ''scheduler''\<rparr> w) = w\<lparr>queue := q\<rparr>" using assms(2) unfolding only_queues_def by blast
  moreover have "spared 0 w (w\<lparr>queue := q\<rparr>)" by (simp add: spared_def)
  ultimately show ?thesis using spared_inv [OF assms(3)] HeartbeatJob by simp
qed (simp_all add: assms relay_run_inv cleanup_inv)

lemma step_inv: "step w w' \<Longrightarrow> system_inv w \<Longrightarrow> system_inv w'"
proof (induction rule: step.induct)
  case (worked ty h ut engine jt rt task w e w')
  then show ?case by (blast intro: spared_inv dest: handlers_spare)
next
  case (outside w' w)
  then have "spared 0 w w'" by (simp add: spared_def)
  with outside show ?case by (blast intro: spared_inv)
qed (simp_all add: create_inv delete_inv job_inv BatchIgnore_def BatchProcess_def spares_inv operations_spare)

text \<open>
  Workers run beside each other: between the start of a task and its end other operations happen. The parts
  of an execution that write are steps of their own here, with any arguments.
\<close>

inductive system_step :: "world \<Rightarrow> world \<Rightarrow> bool" where
  whole: "step w w' \<Longrightarrow> system_step w w'"
| started: "system_step w (snd (startTask p w))"
| persisted: "system_step w (snd (persistArticleResult orgID taskID article hits w))"
| finished: "past_pending status \<Longrightarrow> system_step w (snd (finishTask taskID orgID status c msg w))"

inductive_cases system_stepE: "system_step w w'"

lemma part_spared:
  "spared (pl_TaskID p) w (snd (startTask p w))" "spared tid w (snd (persistArticleResult orgID taskID article hits w))"
  "past_pending status \<Longrightarrow> spared taskID w (snd (finishTask taskID orgID status c msg w))"
  using startTask_spares [of p] persistArticleResult_spares [of tid orgID taskID article hits]
    finishTask_spares [of status taskID orgID c msg] by (simp_all add: spare.moves_def)

lemma system_step_inv: "system_step w w' \<Longrightarrow> system_inv w \<Longrightarrow> system_inv w'"
  by (erule system_stepE) (auto intro: step_inv spared_inv part_spared)

lemma system_run_inv: "system_step\<^sup>*\<^sup>* w w' \<Longrightarrow> system_inv w \<Longrightarrow> system_inv w'"
  by (induction rule: rtranclp_induct) (auto intro: system_step_inv)

text \<open>
  C2. Whatever the users, the scheduler and the workers do, in any order, the workers beside each other, with the queue up or down
  and with any failures of the database in between: as long as the tables were in order at the start, the rows of the outbox stay well formed, ids of
  tasks and messages are never given twice, no task gets into a status that does not exist, and there is never
  a message without its task.
\<close>

theorem system_invariant:
  assumes "system_step\<^sup>*\<^sup>* w w'" and "system_inv w"
  shows "outbox_inv w' \<and> tasks_ok w' \<and> list_all task_legal (t_tasks (store w')) \<and> linked (store w')"
  using system_run_inv [OF assms] by (simp only: system_inv_def)

theorem system_invariant_witness:
  "\<exists>task w1 w2.
     CreateAndEnqueue background ex_task_service ex_task_input (Some (TryDispatchMessage (Some (ex_relay dedup_enqueue)))) ex_flow_world
       = (Inr task, w1) \<and>
     TaskService_Delete ex_task_service 100 (task_ID task) w1 = w2 \<and> system_inv (snd w2)"
proof -
  let ?relay = "Some (ex_relay dedup_enqueue)"
  let ?w1 = "snd (CreateAndEnqueue background ex_task_service ex_task_input (Some (TryDispatchMessage ?relay)) ex_flow_world)"
  obtain task m v where c: "CreateWithOutbox background ex_task_service ex_task_input ex_flow_world = (Inr (task, m), v)"
    using ex_flow_creates by blast
  have start: "system_inv ex_flow_world" by (simp add: system_inv_def outbox_inv_def keys_ok_def linked_def)
  have "relay_ok ?relay" by (simp add: relay_ok_def asynq.task_dispatcher_axioms)
  then have "system_step ex_flow_world ?w1" by (intro system_step.whole step.create_task)
  moreover have "system_step ?w1 (snd (TaskService_Delete ex_task_service 100 (task_ID task) ?w1))"
    by (intro system_step.whole step.delete_task)
  ultimately have "system_step\<^sup>*\<^sup>* ex_flow_world (snd (TaskService_Delete ex_task_service 100 (task_ID task) ?w1))"
    by (meson rtranclp.rtrancl_refl rtranclp.rtrancl_into_rtrancl)
  then have "system_inv (snd (TaskService_Delete ex_task_service 100 (task_ID task) ?w1))"
    unfolding system_inv_def by (rule system_invariant [OF _ start])
  then show ?thesis using c by (auto simp: CreateAndEnqueue_def)
qed

section \<open>Tasks over time\<close>

text \<open>
  Whatever happens, a task there is now was there before, at most moved on, or has a new id: a task never
  becomes pending again, and the id of a deleted task is not given to another.
\<close>

definition tasks_move :: "world \<Rightarrow> world \<Rightarrow> bool" where
  "tasks_move w w' =
     (autoinc w TTasks \<le> autoinc w' TTasks \<and>
      (\<forall>t' \<in> set (t_tasks (store w')). autoinc w TTasks < task_ID t' \<or>
         (\<exists>t \<in> set (t_tasks (store w)). task_ID t' = task_ID t \<and> (task_Status t' = task_Status t \<or> past_pending (task_Status t')))))"

lemma spared_tasks_move: "spared tid w w' \<Longrightarrow> tasks_move w w'"
  by (fastforce simp: spared_def tasks_move_def list_all2_conv_all_nth in_set_conv_nth task_moved_def task_key_def)

lemma subset_tasks_move: "autoinc w TTasks \<le> autoinc w' TTasks \<Longrightarrow> set (t_tasks (store w')) \<subseteq> set (t_tasks (store w)) \<Longrightarrow> tasks_move w w'"
  by (auto simp: tasks_move_def)

lemma evolved_tasks_move: "evolved w w' \<Longrightarrow> tasks_move w w'"
  by (intro subset_tasks_move) (simp_all add: evolved_def)

text \<open>What creation and deletion do to the tasks, in the words of the relations.\<close>

lemma CreateWithOutbox_tasks:
  assumes "CreateWithOutbox cx service inp w = (r, w')"
  shows "autoinc w t \<le> autoinc w' t"
    and "case r of Inl e \<Rightarrow> t_tasks (store w') = t_tasks (store w)
         | Inr (task, m) \<Rightarrow> t_tasks (store w') = t_tasks (store w) @ [task] \<and> autoinc w TTasks < task_ID task"
proof -
  let ?body = "\<lambda>p w. go_try (persistPreparedTaskGraph p w) (\<lambda>task w.
           go_try (db_create TOutbox t_outbox t_outbox_update no_unique (outbox_message task (pt_Payload p)) w)
             (\<lambda>outbox w. (Inr (task, outbox), w)))"
  have g: "grows (db_transaction (?body p))" for p by (intro frame persist_frame)
  obtain q w1 where p: "prepareTaskCreate cx service inp w = (q, w1)" by fastforce
  note pw = prepare_world(2) [OF p]
  show "autoinc w t \<le> autoinc w' t"
  proof (cases q)
    case (Inl e)
    with assms p pw show ?thesis by (simp add: CreateWithOutbox_def)
  next
    case (Inr pr)
    with assms p have "w' = snd (db_transaction (?body pr) w1)" by (simp add: CreateWithOutbox_def)
    with g [of pr, unfolded grows_def, THEN spec, THEN spec, of w1 t] pw show ?thesis by simp
  qed
  show "case r of Inl e \<Rightarrow> t_tasks (store w') = t_tasks (store w)
         | Inr (task, m) \<Rightarrow> t_tasks (store w') = t_tasks (store w) @ [task] \<and> autoinc w TTasks < task_ID task"
  proof (cases r)
    case (Inl e)
    with assms show ?thesis by (auto dest: CreateWithOutbox_Inl)
  next
    case (Inr tm)
    obtain task m where tm: "tm = (task, m)" by fastforce
    from assms Inr tm obtain pr where q: "q = Inr pr" and "db_transaction (?body pr) w1 = (Inr (task, m), w')"
      using p by (cases q) (auto simp: CreateWithOutbox_def)
    from transaction_Inr [OF this(2)] obtain w3 where "persistPreparedTaskGraph pr (advance w1) = (Inr task, w3)"
      by (auto simp: go_try_Inr_iff)
    from persist_Inr [OF this] prepare_Inr [OF p [unfolded q]] have "task_ID task = Suc (autoinc (advance w1) TTasks)" by auto
    moreover have "created_with cx inp (store w) task m (store w')" using CreateWithOutbox_Inr(1) assms Inr tm by blast
    ultimately show ?thesis using pw by (auto simp: Inr tm created_with_def)
  qed
qed

lemma relay_evolves:
  assumes "relay_ok relay"
  shows "evolved w (snd (TryDispatchMessage relay i w))"
proof (cases "\<exists>r d. relay = Some r \<and> rl_dispatcher r = Some d")
  case True
  then obtain r d where r: "relay = Some r" "rl_dispatcher r = Some d" by blast
  with assms have "task_dispatcher d" by (simp add: relay_ok_def)
  from task_dispatcher.TryDispatchMessage_evolves [OF this r(2)] show ?thesis by (simp add: r(1) evolve.moves_def)
next
  case False
  then have "relay = None \<or> (\<exists>r. relay = Some r \<and> rl_dispatcher r = None)" by (cases relay) auto
  then show ?thesis by (elim disjE exE conjE) (simp_all add: TryDispatchMessage_def evolve.R_refl)
qed

lemma create_tasks_move:
  assumes "relay_ok relay"
  shows "tasks_move w (snd (CreateAndEnqueue cx service inp (Some (TryDispatchMessage relay)) w))"
proof -
  obtain r w1 where c: "CreateWithOutbox cx service inp w = (r, w1)" by fastforce
  note facts = CreateWithOutbox_tasks [OF c]
  show ?thesis
  proof (cases r)
    case (Inl e)
    with facts c show ?thesis by (intro subset_tasks_move) (simp_all add: CreateAndEnqueue_def)
  next
    case (Inr tm)
    obtain task m where tm: "tm = (task, m)" by fastforce
    with c Inr have w': "snd (CreateAndEnqueue cx service inp (Some (TryDispatchMessage relay)) w) = snd (TryDispatchMessage relay (ob_ID m) w1)"
      by (simp add: CreateAndEnqueue_def split: prod.split)
    from facts Inr tm relay_evolves [OF assms, of w1 "ob_ID m"] show ?thesis
      unfolding w' by (auto simp: tasks_move_def evolved_def intro: order_trans)
  qed
qed

lemma delete_tasks_move: "tasks_move w (snd (TaskService_Delete service orgID i w))"
proof -
  obtain r w' where d: "TaskService_Delete service orgID i w = (r, w')" by fastforce
  have "set (t_tasks (store w')) \<subseteq> set (t_tasks (store w))"
    using TaskService_Delete_outcome [where service = service and orgID = orgID and taskID = i and w = w] d
    by (auto simp: purge_def split: sum.splits)
  moreover have "autoinc w t \<le> autoinc w' t" for t using TaskService_Delete_grows d by (metis grows_def snd_conv)
  ultimately show ?thesis using d by (intro subset_tasks_move) simp_all
qed

lemma job_evolves:
  assumes "relay_ok relay" and "only_queues enqueue"
  shows "evolved w (run_job enqueue relay j w)"
proof (cases j)
  case HeartbeatJob
  obtain q where "snd (enqueue \<lparr>hp_Source = ''scheduler''\<rparr> w) = w\<lparr>queue := q\<rparr>" using assms(2) unfolding only_queues_def by blast
  then show ?thesis by (auto simp: HeartbeatJob evolved_def)
next
  case (RelayJob limit)
  show ?thesis
  proof (cases "\<exists>r d. relay = Some r \<and> rl_dispatcher r = Some d")
    case True
    then obtain r d where r: "relay = Some r" "rl_dispatcher r = Some d" by blast
    with assms(1) have "task_dispatcher d" by (simp add: relay_ok_def)
    from task_dispatcher.Relay_evolves [OF this r(2)] show ?thesis by (simp add: RelayJob r(1) evolve.moves_def)
  next
    case False
    then have "relay = None \<or> (\<exists>r. relay = Some r \<and> rl_dispatcher r = None)" by (cases relay) auto
    then show ?thesis
      by (elim disjE exE conjE) (simp_all add: RelayJob RelayPendingArticleInspectTaskOutbox_def DispatchPending_def evolve.R_refl)
  qed
next
  case (CleanupJob limit)
  then show ?thesis using Cleanup_evolves by (simp add: evolve.moves_def)
qed

lemma spares_tasks_move: "(\<And>tid. spare.moves tid f) \<Longrightarrow> tasks_move w (snd (f w))"
  unfolding spare.moves_def by (blast intro: spared_tasks_move)

lemma step_tasks_move: "step w w' \<Longrightarrow> tasks_move w w'"
proof (induction rule: step.induct)
  case (worked ty h ut engine jt rt task w e w')
  then show ?case by (blast intro: spared_tasks_move dest: handlers_spare)
next
  case (outside w' w)
  then show ?case by (intro subset_tasks_move) simp_all
qed (simp_all add: create_tasks_move delete_tasks_move evolved_tasks_move job_evolves BatchIgnore_def BatchProcess_def
    spares_tasks_move operations_spare)

lemma system_step_tasks_move: "system_step w w' \<Longrightarrow> tasks_move w w'"
  by (erule system_stepE) (auto intro: step_tasks_move spared_tasks_move part_spared)

text \<open>An id that no pending task will ever have again.\<close>

definition used_up :: "uint64 \<Rightarrow> world \<Rightarrow> bool" where
  "used_up i w = (i \<le> autoinc w TTasks \<and> (\<forall>t \<in> set (t_tasks (store w)). task_ID t = i \<longrightarrow> task_Status t \<noteq> TaskStatusPending))"

lemma used_up_move: "used_up i w \<Longrightarrow> tasks_move w w' \<Longrightarrow> used_up i w'"
  by (fastforce simp: used_up_def tasks_move_def past_pending_def)

lemma used_up_run: "system_step\<^sup>*\<^sup>* w w' \<Longrightarrow> used_up i w \<Longrightarrow> used_up i w'"
  by (induction rule: rtranclp_induct) (auto intro: used_up_move system_step_tasks_move)

lemma started_used_up:
  assumes "tasks_ok w" and "startTask p w = (Inr t, w')"
  shows "used_up (pl_TaskID p) w'"
proof -
  have d: "distinct (map task_ID (t_tasks (store w)))" using assms(1) by (simp add: keys_ok_def)
  note run = started_running [OF d assms(2)]
  obtain x where "x \<in> set (t_tasks (store w))" "task_ID x = pl_TaskID p"
    using started_pending [OF assms(2)] by (auto simp: worker_task_at_def)
  then have "pl_TaskID p \<le> autoinc w TTasks" using assms(1) by (auto simp: keys_ok_def list_all_iff)
  moreover have "autoinc w TTasks \<le> autoinc w' TTasks"
    using spare.movesD [OF startTask_spares assms(2)] by (simp add: spared_def)
  moreover have "t' = t" if "t' \<in> set (t_tasks (store w'))" "task_ID t' = pl_TaskID p" for t'
    using that run by (metis distinct_map inj_onD)
  ultimately show ?thesis using run(1) by (auto simp: used_up_def TaskStatusRunning_def TaskStatusPending_def)
qed

text \<open>
  C32. A task is started at most once, ever: a start succeeds only on a pending task and leaves it running, and whatever
  the users, the scheduler and any number of workers do afterwards, in any order and with any failures, every later start of
  this task is refused and changes no task, also when the task was deleted in between.
\<close>

theorem task_started_once:
  assumes "system_inv w" and "startTask p w = (Inr t, w')" and "system_step\<^sup>*\<^sup>* w' v"
  shows "task_Status t = TaskStatusRunning \<and>
         list_ex (\<lambda>x. worker_task_at (pl_TaskID p) (pl_OrgID p) x \<and> task_Status x = TaskStatusPending) (t_tasks (store w)) \<and>
         (\<exists>e v'. startTask p v = (Inl e, v') \<and> t_tasks (store v') = t_tasks (store v))"
proof -
  have ok: "tasks_ok w" using assms(1) by (simp add: system_inv_def)
  have "used_up (pl_TaskID p) v" by (rule used_up_run [OF assms(3) started_used_up [OF ok assms(2)]])
  then have "\<exists>e v'. startTask p v = (Inl e, v') \<and> t_tasks (store v') = t_tasks (store v)"
    by (intro startTask_refused) (simp add: used_up_def worker_task_at_def)
  moreover have "task_Status t = TaskStatusRunning" using ok started_running(1) [OF _ assms(2)] by (simp add: keys_ok_def)
  ultimately show ?thesis using started_pending [OF assms(2)] by (auto simp: list_ex_iff)
qed

lemma ex_worker_inv: "system_inv ex_worker_world"
  by (simp add: system_inv_def outbox_inv_def keys_ok_def linked_def ex_worker_world_def ex_task_row_def task_legal_def
      InspectionTaskStatuses_def TaskStatusPending_def)

theorem task_started_once_witness:
  "\<exists>t w1 e w2. startTask ex_run_payload ex_worker_world = (Inr t, w1) \<and>
     startTask ex_run_payload (snd (TaskService_Delete ex_task_service 100 3 w1)) = (Inl e, w2)"
proof -
  obtain t w1 where start: "startTask ex_run_payload ex_worker_world = (Inr t, w1)" using ex_start by blast
  have "system_step w1 (snd (TaskService_Delete ex_task_service 100 3 w1))" by (intro system_step.whole step.delete_task)
  then have "system_step\<^sup>*\<^sup>* w1 (snd (TaskService_Delete ex_task_service 100 3 w1))" by blast
  from task_started_once [OF ex_worker_inv start this] start show ?thesis by blast
qed

subsection \<open>Stranded tasks\<close>

text \<open>
  A running task is left alone by everything but the execution it belongs to. So when that execution has
  ended without closing it, nothing ever will.
\<close>

lemma spared_row: "spared tid w w' \<Longrightarrow> t \<in> set (t_tasks (store w)) \<Longrightarrow> task_ID t \<noteq> tid \<Longrightarrow> t \<in> set (t_tasks (store w'))"
  by (fastforce simp: spared_def list_all2_conv_all_nth in_set_conv_nth task_moved_def)

lemma unpending_execution:
  assumes "\<And>t. t \<in> set (t_tasks (store w)) \<Longrightarrow> worker_task_at (pl_TaskID p) (pl_OrgID p) t \<Longrightarrow> task_Status t \<noteq> TaskStatusPending"
  shows "\<exists>e w'. ExecuteTask ut engine jt (NewExecutorWithDeps hasDB scan source b) p w = Some (Returned (Inl e), w') \<and>
     t_tasks (store w') = t_tasks (store w)"
  using startTask_refused [of w p] assms by (auto simp: ExecuteTask_def NewExecutorWithDeps_def Let_def)

lemma running_alone:
  assumes "tasks_ok w" and "t \<in> set (t_tasks (store w))" and "t' \<in> set (t_tasks (store w))" and "task_ID t' = task_ID t"
  shows "t' = t"
  using assms by (metis distinct_map inj_onD keys_ok_def)

lemma handler_keeps_running:
  assumes "tasks_ok w" and "t \<in> set (t_tasks (store w))" and "task_Status t = TaskStatusRunning"
    and "(ty, h) \<in> set (RegisterHandlers ut engine jt rt)" and "h task w = Some (e, w')"
  shows "t \<in> set (t_tasks (store w'))"
proof -
  consider "w' = w" | p where "ExecuteTask ut engine jt (NewWorker ut engine True) p w = Some (e, w')"
    using handlers_execute [OF assms(4,5)] by blast
  then show ?thesis
  proof cases
    case 1
    with assms(2) show ?thesis by simp
  next
    case (2 p)
    show ?thesis
    proof (cases "task_ID t = pl_TaskID p")
      case False
      with ExecuteTask_spares [OF 2 [unfolded NewWorker_def]] assms(2) show ?thesis by (auto dest: spared_row)
    next
      case True
      have np: "\<And>t'. t' \<in> set (t_tasks (store w)) \<Longrightarrow> worker_task_at (pl_TaskID p) (pl_OrgID p) t' \<Longrightarrow> task_Status t' \<noteq> TaskStatusPending"
        using running_alone [OF assms(1,2)] True assms(3)
        by (auto simp: worker_task_at_def TaskStatusRunning_def TaskStatusPending_def)
      obtain e' v where "ExecuteTask ut engine jt (NewWorker ut engine True) p w = Some (Returned (Inl e'), v)"
        and "t_tasks (store v) = t_tasks (store w)"
        using unpending_execution [OF np] unfolding NewWorker_def by blast
      with 2 have "t_tasks (store w') = t_tasks (store w)" by simp
      with assms(2) show ?thesis by simp
    qed
  qed
qed

lemma running_not_deletable: "task_Status t = TaskStatusRunning \<Longrightarrow> \<not> taskCanBeDeleted (task_Status t)"
proof -
  have "TrimSpace TaskStatusRunning = TaskStatusRunning" by code_simp
  then show "task_Status t = TaskStatusRunning \<Longrightarrow> ?thesis"
    by (simp add: taskCanBeDeleted_eq TaskStatusRunning_def TaskStatusPending_def TaskStatusFailed_def)
qed

lemma delete_keeps_running:
  assumes "tasks_ok w" and "t \<in> set (t_tasks (store w))" and "task_Status t = TaskStatusRunning"
  shows "t \<in> set (t_tasks (store (snd (TaskService_Delete service orgID i w))))"
    and "\<exists>e w'. TaskService_Delete service (task_OrgID t) (task_ID t) w = (Inl e, w')"
proof -
  have other: "False" if "list_ex (\<lambda>t'. task_at org j t' \<and> taskCanBeDeleted (task_Status t')) (t_tasks (store w))" "j = task_ID t" for org j
    using that running_alone [OF assms(1,2)] running_not_deletable [OF assms(3)] by (auto simp: list_ex_iff task_at_def)
  show "t \<in> set (t_tasks (store (snd (TaskService_Delete service orgID i w))))"
    using TaskService_Delete_outcome [where service = service and orgID = orgID and taskID = i and w = w] assms(2) other
    by (auto simp: purge_def task_at_def split: prod.splits sum.splits)
  show "\<exists>e w'. TaskService_Delete service (task_OrgID t) (task_ID t) w = (Inl e, w')"
    using TaskService_Delete_outcome [where service = service and orgID = "task_OrgID t" and taskID = "task_ID t" and w = w] other
    by (cases "TaskService_Delete service (task_OrgID t) (task_ID t) w") (auto split: sum.splits)
qed

lemma spares_row:
  assumes "\<And>tid. spare.moves tid f" and "t \<in> set (t_tasks (store w))"
  shows "t \<in> set (t_tasks (store (snd (f w))))"
proof -
  have "spared (Suc (task_ID t)) w (snd (f w))" using assms(1) by (simp add: spare.moves_def)
  then show ?thesis using assms(2) by (rule spared_row) simp
qed

lemma create_row:
  assumes "relay_ok relay" and "t \<in> set (t_tasks (store w))"
  shows "t \<in> set (t_tasks (store (snd (CreateAndEnqueue cx service inp (Some (TryDispatchMessage relay)) w))))"
proof -
  obtain r w1 where c: "CreateWithOutbox cx service inp w = (r, w1)" by fastforce
  note tasks = CreateWithOutbox_tasks(2) [OF c]
  show ?thesis
  proof (cases r)
    case (Inl e)
    with c tasks assms(2) show ?thesis by (simp add: CreateAndEnqueue_def)
  next
    case (Inr tm)
    then obtain task m where "r = Inr (task, m)" by (cases tm) simp
    with c tasks assms(2) relay_evolves [OF assms(1), of w1 "ob_ID m"] show ?thesis
      by (simp add: CreateAndEnqueue_def evolved_def split: prod.split)
  qed
qed

lemma step_keeps_running:
  "step w w' \<Longrightarrow> tasks_ok w \<Longrightarrow> t \<in> set (t_tasks (store w)) \<Longrightarrow> task_Status t = TaskStatusRunning \<Longrightarrow> t \<in> set (t_tasks (store w'))"
proof (induction rule: step.induct)
  case (worked ty h ut engine jt rt task w e w')
  then show ?case by (blast intro: handler_keeps_running)
next
  case (scheduled relay enqueue w j)
  then show ?case using job_evolves [of relay enqueue w j] by (simp add: evolved_def)
qed (simp_all add: create_row delete_keeps_running BatchIgnore_def BatchProcess_def spares_row operations_spare)

lemma run_keeps_running:
  "step\<^sup>*\<^sup>* w v \<Longrightarrow> system_inv w \<Longrightarrow> t \<in> set (t_tasks (store w)) \<Longrightarrow> task_Status t = TaskStatusRunning \<Longrightarrow>
     system_inv v \<and> t \<in> set (t_tasks (store v))"
proof (induction rule: rtranclp_induct)
  case (step y z)
  then have "system_inv y" "t \<in> set (t_tasks (store y))" by blast+
  then show ?case using step_inv step_keeps_running step.hyps(2) step.prems(3) unfolding system_inv_def by blast
qed blast

text \<open>
  C37. A panic of the scanner strands its task for good: when an execution panics, the task is still running, and whatever
  the users, the scheduler and the workers do afterwards, in any order, it stays so. Every later execution of it, such as the retry of
  the queue, is refused and changes no task, and it cannot be deleted either.
\<close>

theorem panic_strands_task_forever:
  assumes "system_inv w"
    and "ExecuteTask ut engine jt (NewExecutorWithDeps hasDB (Some scan) (Some (ListCandidateArticles (Some \<lparr>ap_hasDB = True\<rparr>))) b) p w =
         Some (Panicked, w')"
    and "step\<^sup>*\<^sup>* w' v"
  shows "list_ex (\<lambda>t. worker_task_at (pl_TaskID p) (pl_OrgID p) t \<and> task_Status t = TaskStatusRunning) (t_tasks (store v)) \<and>
         (\<exists>e v'. ExecuteTask ut engine jt (NewExecutorWithDeps hasDB (Some scan)
                    (Some (ListCandidateArticles (Some \<lparr>ap_hasDB = True\<rparr>))) b) p v = Some (Returned (Inl e), v') \<and>
                 t_tasks (store v') = t_tasks (store v)) \<and>
         (\<exists>e v'. TaskService_Delete service (pl_OrgID p) (pl_TaskID p) v = (Inl e, v'))"
proof -
  have "distinct (map task_ID (t_tasks (store w)))" using assms(1) by (simp add: system_inv_def keys_ok_def)
  from panic_strands_task [OF this assms(2) refl] obtain t where
    t: "t \<in> set (t_tasks (store w'))" "worker_task_at (pl_TaskID p) (pl_OrgID p) t" "task_Status t = TaskStatusRunning"
    by (auto simp: list_ex_iff)
  have "system_inv w'" using ExecuteTask_spares [OF assms(2)] by (rule spared_inv [OF assms(1)])
  with run_keeps_running [OF assms(3)] t have v: "tasks_ok v" "t \<in> set (t_tasks (store v))" by (auto simp: system_inv_def)
  have np: "\<And>t'. t' \<in> set (t_tasks (store v)) \<Longrightarrow> worker_task_at (pl_TaskID p) (pl_OrgID p) t' \<Longrightarrow> task_Status t' \<noteq> TaskStatusPending"
    using running_alone [OF v] t by (auto simp: worker_task_at_def TaskStatusRunning_def TaskStatusPending_def)
  have "\<exists>e v'. TaskService_Delete service (pl_OrgID p) (pl_TaskID p) v = (Inl e, v')"
    using delete_keeps_running(2) [OF v t(3)] t(2) by (simp add: worker_task_at_def)
  with unpending_execution [OF np] t v show ?thesis by (auto simp: list_ex_iff)
qed

theorem panic_strands_task_forever_witness:
  "\<exists>w1 w2. ExecuteTask ascii_tables literal_engine id ex_panicking ex_run_payload ex_worker_world = Some (Panicked, w1) \<and>
     snd (TaskService_Delete ex_task_service 100 3 w1) = w2 \<and> list_ex (\<lambda>t. task_ID t = 3 \<and> task_Status t = TaskStatusRunning) (t_tasks (store w2))"
proof -
  obtain w1 where r: "ExecuteTask ascii_tables literal_engine id ex_panicking ex_run_payload ex_worker_world = Some (Panicked, w1)"
    using ex_panics by blast
  have "step\<^sup>*\<^sup>* w1 (snd (TaskService_Delete ex_task_service 100 3 w1))" using step.delete_task by blast
  from panic_strands_task_forever [OF ex_worker_inv r this] r show ?thesis
    by (auto simp: worker_task_at_def ex_run_payload_def list_ex_iff)
qed

end
