(* ===== verification/Bootstrap.thy ===== *)
theory Bootstrap
  imports Processes
begin

text \<open>
  How a process starts and stops (\<open>internal/app/bootstrap\<close>, \<open>internal/app/lifecycle\<close>,
  \<open>pkg/database\<close>, \<open>pkg/logger\<close>): the logger, the connections, the runtime that owns them and
  closes them, and the migration command. The libraries are reached through a machine: every call
  outside may fail, and what took effect is kept in a list of effects in its order.
  The theory shows that no connection or log file outlives a start that failed or a runtime that
  was shut down, that nothing is closed twice, and what a migration run has executed when it ends.
\<close>

section \<open>The machine\<close>

text \<open>What a process can hold: log file, rotation, connections, and the listener, the queue server or the timer of its main loop.\<close>

datatype handle =
    LogFile string string
  | Rotation
  | PrimaryDB string
  | RedisConn string
  | Listener string
  | QueueServer string
  | Timer

text \<open>\<open>Pool\<close>: the settings of the connection pool; \<open>Ran\<close>: a statement; \<open>Synced\<close>: \<open>AutoMigrate\<close>.\<close>

datatype effect =
    Opened handle
  | Closed handle
  | Pool int int duration
  | Ran string
  | Synced "string list"

record machine =
  mc_calls :: nat
  mc_fail :: "nat \<Rightarrow> string option"
  mc_handle :: "goerr option"
  mc_effects :: "effect list"

type_synonym 'a io = "(goerr + 'a) \<times> machine"

definition noting :: "effect list \<Rightarrow> machine \<Rightarrow> machine" where
  "noting es m = m\<lparr>mc_effects := mc_effects m @ es\<rparr>"

text \<open>A call that fails has no effect; closing takes effect also when it reports an error.\<close>

definition outside :: "effect list \<Rightarrow> machine \<Rightarrow> unit io" where
  "outside es m =
     (case mc_fail m (mc_calls m) of
        Some e \<Rightarrow> (Inl (Plain e), m\<lparr>mc_calls := Suc (mc_calls m)\<rparr>)
      | None \<Rightarrow> (Inr (), noting es (m\<lparr>mc_calls := Suc (mc_calls m)\<rparr>)))"

definition closing :: "handle \<Rightarrow> machine \<Rightarrow> goerr option \<times> machine" where
  "closing h m =
     (map_option Plain (mc_fail m (mc_calls m)), noting [Closed h] (m\<lparr>mc_calls := Suc (mc_calls m)\<rparr>))"

definition io_try :: "'a io \<Rightarrow> ('a \<Rightarrow> machine \<Rightarrow> 'b io) \<Rightarrow> 'b io" where
  "io_try r k = (case r of (Inl e, m) \<Rightarrow> (Inl e, m) | (Inr x, m) \<Rightarrow> k x m)"

text \<open>\<open>fmt.Errorf("...: %w", err)\<close> around a call.\<close>

definition wrapping :: "string \<Rightarrow> 'a io \<Rightarrow> 'a io" where
  "wrapping s r = (case r of (Inl e, m) \<Rightarrow> (Inl (Wrapf s e ''''), m) | (Inr x, m) \<Rightarrow> (Inr x, m))"

section \<open>Shutdown\<close>

type_synonym closer = "machine \<Rightarrow> goerr option \<times> machine"

fun shutdown_loop :: "closer option list \<Rightarrow> goerr option \<Rightarrow> machine \<Rightarrow> goerr option \<times> machine" where
  "shutdown_loop [] err m = (err, m)"
| "shutdown_loop (None # cs) err m = shutdown_loop cs err m"
| "shutdown_loop (Some f # cs) err m = (let (e, m) = f m in shutdown_loop cs (errors_Join [err, e]) m)"

definition Shutdown :: "closer option list \<Rightarrow> machine \<Rightarrow> goerr option \<times> machine" where
  "Shutdown closers m = shutdown_loop (rev closers) None m"

section \<open>The logger\<close>

record slog_logger =
  lg_Level :: int
  lg_Stdout :: bool
  lg_File :: "handle option"

definition parseLevel :: "unicode_tables \<Rightarrow> string \<Rightarrow> int" where
  "parseLevel ut level =
     (let l = ToLower ut (TrimSpace level) in
      if l = ''debug'' then - 4 else if l \<in> {''warn'', ''warning''} then 4 else if l = ''error'' then 8 else 0)"

definition newFileLogger :: "(string \<Rightarrow> string) \<Rightarrow> LogConfig \<Rightarrow> machine \<Rightarrow> handle io" where
  "newFileLogger quoting cfg m =
     io_try (wrapping (''create log dir '' @ quoting (lc_Dir cfg) @ '': '') (outside [] m)) (\<lambda>_ m.
       (let h = LogFile (lc_Dir cfg) (lc_Filename cfg) in (Inr h, noting [Opened h] m)))"

text \<open>The writer: whether it writes to standard output, and the file.\<close>

definition buildWriter :: "unicode_tables \<Rightarrow> (string \<Rightarrow> string) \<Rightarrow> LogConfig \<Rightarrow> machine \<Rightarrow> (bool \<times> handle option) io" where
  "buildWriter ut quoting cfg m =
     (let output = ToLower ut (TrimSpace (lc_Output cfg)) in
      if output = '''' \<or> output = ''stdout'' then (Inr (True, None), m)
      else if output = ''file'' then io_try (newFileLogger quoting cfg m) (\<lambda>h m. (Inr (False, Some h), m))
      else if output = ''both'' then io_try (newFileLogger quoting cfg m) (\<lambda>h m. (Inr (True, Some h), m))
      else (Inl (Plain (''unsupported log output '' @ quoting (lc_Output cfg))), m))"

definition log_cleanup :: "handle option \<Rightarrow> bool \<Rightarrow> closer" where
  "log_cleanup file rotating m =
     (case file of
        None \<Rightarrow> (None, m)
      | Some h \<Rightarrow>
          (let m = (if rotating then noting [Closed Rotation] m else m); (e, m) = closing h m
           in (errors_Join [None, e], m)))"

definition logger_New :: "unicode_tables \<Rightarrow> (string \<Rightarrow> string) \<Rightarrow> LogConfig \<Rightarrow> machine \<Rightarrow> (slog_logger \<times> closer) io" where
  "logger_New ut quoting cfg m =
     io_try (buildWriter ut quoting cfg m) (\<lambda>(stdout, file) m.
       (let m = (if file \<noteq> None \<and> lc_RotateDaily cfg then noting [Opened Rotation] m else m)
        in (Inr (\<lparr>lg_Level = parseLevel ut (lc_Level cfg), lg_Stdout = stdout, lg_File = file\<rparr>, log_cleanup file (lc_RotateDaily cfg)), m)))"

text \<open>
  The loop of \<open>startDailyRotation\<close> on the days of the ticks it receives: the days on which it
  rotates the file.
\<close>

definition dayKey :: "int \<Rightarrow> instant \<Rightarrow> int \<times> int \<times> int" where
  "dayKey offset t = civil ((t div Second + offset) div 86400)"

fun rotation_loop :: "'d \<Rightarrow> 'd list \<Rightarrow> 'd list" where
  "rotation_loop lastRotateDay [] = []"
| "rotation_loop lastRotateDay (currentDay # ticks) =
     (if currentDay = lastRotateDay then rotation_loop lastRotateDay ticks
      else currentDay # rotation_loop currentDay ticks)"

section \<open>Connections\<close>

text \<open>A \<open>*gorm.DB\<close>: its pool, and whether its configuration is there (it is after \<open>gorm.Open\<close>).\<close>

record gormdb =
  gd_Pool :: handle
  gd_Config :: bool

record OpenResources =
  or_DB :: "gormdb option"
  or_Redis :: "handle option"

definition PingDB :: "gormdb option \<Rightarrow> machine \<Rightarrow> unit io" where
  "PingDB db m =
     (case db of
        None \<Rightarrow> (Inl (Plain ''database is not configured''), m)
      | Some d \<Rightarrow>
          if \<not> gd_Config d then (Inl (Plain ''database is not initialized''), m)
          else (case mc_handle m of
                  Some e \<Rightarrow> (Inl (Wrapf ''get sql db: '' e ''''), m)
                | None \<Rightarrow> wrapping ''ping db: '' (outside [] m)))"

definition PingRedis :: "handle option \<Rightarrow> machine \<Rightarrow> unit io" where
  "PingRedis client m =
     (case client of
        None \<Rightarrow> (Inl (Plain ''redis is not configured''), m)
      | Some _ \<Rightarrow> wrapping ''ping redis: '' (outside [] m))"

definition FormatBool :: "bool \<Rightarrow> string" where
  "FormatBool b = (if b then ''true'' else ''false'')"

definition buildMySQLDSN :: "MySQLConfig \<Rightarrow> string" where
  "buildMySQLDSN cfg =
     my_User cfg @ '':'' @ my_Password cfg @ ''@tcp('' @ my_Host cfg @ '':'' @ Itoa (my_Port cfg) @ '')/'' @ my_DBName cfg @
     ''?charset='' @ my_Charset cfg @ ''&parseTime='' @ FormatBool (my_ParseTime cfg) @ ''&loc='' @ my_Loc cfg"

definition buildPostgresDSN :: "PostgresConfig \<Rightarrow> string" where
  "buildPostgresDSN cfg =
     ''host='' @ pg_Host cfg @ '' port='' @ Itoa (pg_Port cfg) @ '' user='' @ pg_User cfg @ '' password='' @ pg_Password cfg @
     '' dbname='' @ pg_DBName cfg @ '' sslmode='' @ pg_SSLMode cfg @ '' TimeZone='' @ pg_TimeZone cfg"

text \<open>The steps both drivers share: open, pool settings, ping; a connection that does not answer is closed.\<close>

definition open_sql :: "string \<Rightarrow> string \<Rightarrow> int \<Rightarrow> int \<Rightarrow> int \<Rightarrow> machine \<Rightarrow> gormdb io" where
  "open_sql name dsn maxOpen maxIdle lifetimeMinutes m =
     io_try (wrapping (''open '' @ name @ '': '') (outside [Opened (PrimaryDB dsn)] m)) (\<lambda>_ m.
       (let db = \<lparr>gd_Pool = PrimaryDB dsn, gd_Config = True\<rparr> in
        case mc_handle m of
          Some e \<Rightarrow> (Inl (Wrapf (''get '' @ name @ '' sql db: '') e ''''), m)
        | None \<Rightarrow>
            (let m = noting [Pool maxOpen maxIdle (wrap64 (lifetimeMinutes * Minute))] m in
             case PingDB (Some db) m of
               (Inl e, m) \<Rightarrow> (Inl (Wrapf (''ping '' @ name @ '': '') e ''''), snd (closing (gd_Pool db) m))
             | (Inr _, m) \<Rightarrow> (Inr db, m))))"

definition openMySQL :: "MySQLConfig \<Rightarrow> machine \<Rightarrow> gormdb io" where
  "openMySQL cfg = open_sql ''mysql'' (buildMySQLDSN cfg) (my_MaxOpenConns cfg) (my_MaxIdleConns cfg) (my_ConnMaxLifetimeMinutes cfg)"

definition openPostgres :: "PostgresConfig \<Rightarrow> machine \<Rightarrow> gormdb io" where
  "openPostgres cfg =
     open_sql ''postgres'' (buildPostgresDSN cfg) (pg_MaxOpenConns cfg) (pg_MaxIdleConns cfg) (pg_ConnMaxLifetimeMinutes cfg)"

record redis_Options =
  ro_Addr :: string
  ro_Password :: string
  ro_DB :: int
  ro_PoolSize :: int
  ro_MinIdleConns :: int

definition buildRedisOptions :: "RedisConfig \<Rightarrow> redis_Options" where
  "buildRedisOptions cfg =
     \<lparr>ro_Addr = rdc_Addr cfg, ro_Password = rdc_Password cfg, ro_DB = rdc_DB cfg, ro_PoolSize = rdc_PoolSize cfg,
      ro_MinIdleConns = rdc_MinIdleConns cfg\<rparr>"

definition openRedis :: "RedisConfig \<Rightarrow> machine \<Rightarrow> handle io" where
  "openRedis cfg m =
     (let client = RedisConn (ro_Addr (buildRedisOptions cfg)) in
      case PingRedis (Some client) (noting [Opened client] m) of
        (Inl e, m) \<Rightarrow> (Inl (Wrapf ''ping redis: '' e ''''), snd (closing client m))
      | (Inr _, m) \<Rightarrow> (Inr client, m))"

definition normalizedDriver :: "unicode_tables \<Rightarrow> string \<Rightarrow> string" where
  "normalizedDriver ut driver = (if TrimSpace driver = '''' then ''mysql'' else ToLower ut (TrimSpace driver))"

definition openPrimaryDatabase :: "unicode_tables \<Rightarrow> Config \<Rightarrow> machine \<Rightarrow> gormdb io" where
  "openPrimaryDatabase ut cfg m =
     (let driver = normalizedDriver ut (dc_Driver (cfg_Database cfg)) in
      if driver = ''mysql'' then openMySQL (dc_MySQL (cfg_Database cfg)) m
      else if driver = ''postgres'' then openPostgres (dc_Postgres (cfg_Database cfg)) m
      else (Inl (Plain (''unsupported database driver: '' @ dc_Driver (cfg_Database cfg))), m))"

definition Resources_Close :: "OpenResources option \<Rightarrow> closer" where
  "Resources_Close r m =
     (case r of
        None \<Rightarrow> (None, m)
      | Some r \<Rightarrow>
          (let (err, m) = (case or_Redis r of None \<Rightarrow> (None, m) | Some c \<Rightarrow> (let (e, m) = closing c m in (errors_Join [None, e], m)))
           in case or_DB r of
                None \<Rightarrow> (err, m)
              | Some d \<Rightarrow>
                  if \<not> gd_Config d then (err, m)
                  else (case mc_handle m of
                          Some dbErr \<Rightarrow> (errors_Join [err, Some dbErr], m)
                        | None \<Rightarrow> (let (e, m) = closing (gd_Pool d) m in (errors_Join [err, e], m)))))"

definition database_Bootstrap :: "unicode_tables \<Rightarrow> Config option \<Rightarrow> machine \<Rightarrow> OpenResources io" where
  "database_Bootstrap ut cfg m =
     (case cfg of
        None \<Rightarrow> (Inl (Plain ''config is required''), m)
      | Some cfg \<Rightarrow>
          io_try (wrapping ''bootstrap database: '' (openPrimaryDatabase ut cfg m)) (\<lambda>db m.
            (let resources = \<lparr>or_DB = Some db, or_Redis = None\<rparr> in
             case openRedis (cfg_Redis cfg) m of
               (Inl e, m) \<Rightarrow>
                 (let (c, m) = Resources_Close (Some resources) m
                  in (Inl (the (errors_Join [Some (Wrapf ''bootstrap redis: '' e ''''), c])), m))
             | (Inr client, m) \<Rightarrow> (Inr (resources\<lparr>or_Redis := Some client\<rparr>), m))))"

section \<open>The runtime\<close>

record Started =
  st_Config :: "Config option"
  st_Logger :: "slog_logger option"
  st_Resources :: "OpenResources option"
  st_closers :: "closer option list"

text \<open>What the handlers and the processes see of it (\<open>Processes\<close>): which parts are there.\<close>

definition runtime_of :: "Started \<Rightarrow> Runtime" where
  "runtime_of rt =
     \<lparr>rt_Config = st_Config rt, rt_Logger = (st_Logger rt \<noteq> None),
      rt_Resources = map_option (\<lambda>r. \<lparr>rc_DB = (or_DB r \<noteq> None), rc_Redis = (or_Redis r \<noteq> None)\<rparr>) (st_Resources rt)\<rparr>"

definition RegisterCloser :: "closer option \<Rightarrow> Started option \<Rightarrow> Started option" where
  "RegisterCloser closer r =
     (case r of None \<Rightarrow> None | Some rt \<Rightarrow> if closer = None then Some rt else Some (rt\<lparr>st_closers := st_closers rt @ [closer]\<rparr>))"

definition Runtime_Shutdown :: "Started option \<Rightarrow> machine \<Rightarrow> goerr option \<times> machine" where
  "Runtime_Shutdown r m = (case r of None \<Rightarrow> (None, m) | Some rt \<Rightarrow> Shutdown (st_closers rt) m)"

text \<open>\<open>buildRuntime\<close>; neither the cleanup of the logger nor the resources are nil when they are returned without an error.\<close>

definition buildRuntime :: "unicode_tables \<Rightarrow> config_env \<Rightarrow> string \<Rightarrow> machine \<Rightarrow> Started io" where
  "buildRuntime ut env configPath m =
     (case Load ut env configPath of
        Inl e \<Rightarrow> (Inl (Wrapf ''load config: '' e ''''), m)
      | Inr cfg \<Rightarrow>
          io_try (wrapping ''bootstrap logger: '' (logger_New ut (ce_quote env) (cfg_Log cfg) m)) (\<lambda>(log, logCloser) m.
            case database_Bootstrap ut (Some cfg) m of
              (Inl e, m) \<Rightarrow> (Inl (Wrapf ''bootstrap database resources: '' e ''''), snd (logCloser m))
            | (Inr resources, m) \<Rightarrow>
                (Inr (the (RegisterCloser (Some (Resources_Close (Some resources)))
                       (RegisterCloser (Some logCloser)
                         (Some \<lparr>st_Config = Some cfg, st_Logger = Some log, st_Resources = Some resources, st_closers = []\<rparr>)))), m)))"

definition BuildServerRuntime :: "unicode_tables \<Rightarrow> config_env \<Rightarrow> string \<Rightarrow> machine \<Rightarrow> Started io" where
  "BuildServerRuntime = buildRuntime"

definition BuildWorkerRuntime :: "unicode_tables \<Rightarrow> config_env \<Rightarrow> string \<Rightarrow> machine \<Rightarrow> Started io" where
  "BuildWorkerRuntime = buildRuntime"

definition BuildSchedulerRuntime :: "unicode_tables \<Rightarrow> config_env \<Rightarrow> string \<Rightarrow> machine \<Rightarrow> Started io" where
  "BuildSchedulerRuntime = buildRuntime"

section \<open>Migration\<close>

record MigrateConfig =
  mg_Driver :: string
  mg_DatabaseURL :: string
  mg_SourceURL :: string

text \<open>\<open>net/url\<close>: the modes of \<open>escape\<close> that are used.\<close>

datatype encoding = EncodePath | EncodeHost | EncodeUserPassword | EncodeQueryComponent

definition shouldEscape :: "encoding \<Rightarrow> char \<Rightarrow> bool" where
  "shouldEscape mode c =
     (if is_digit c \<or> (65 \<le> byte c \<and> byte c \<le> 90) \<or> (97 \<le> byte c \<and> byte c \<le> 122) then False
      else if mode = EncodeHost \<and> c \<in> set (CHR 0x27 # CHR 0x22 # ''!$&()*+,;=:[]<>'') then False
      else if c \<in> set ''-_.~'' then False
      else if c \<in> set ''$&+,/:;=?@'' then
        (case mode of
           EncodePath \<Rightarrow> c = CHR ''?''
         | EncodeHost \<Rightarrow> True
         | EncodeUserPassword \<Rightarrow> c \<in> set ''@/?:''
         | EncodeQueryComponent \<Rightarrow> True)
      else True)"

definition upper_hex :: "nat \<Rightarrow> char" where
  "upper_hex n = ''0123456789ABCDEF'' ! n"

definition escape_char :: "encoding \<Rightarrow> char \<Rightarrow> string" where
  "escape_char mode c =
     (if \<not> shouldEscape mode c then [c]
      else if c = CHR '' '' \<and> mode = EncodeQueryComponent then ''+''
      else [CHR 0x25, upper_hex (byte c div 16), upper_hex (byte c mod 16)])"

definition url_escape :: "encoding \<Rightarrow> string \<Rightarrow> string" where
  "url_escape mode s = concat (map (escape_char mode) s)"

definition url_UserPassword :: "string \<Rightarrow> string \<Rightarrow> string" where
  "url_UserPassword user password = url_escape EncodeUserPassword user @ '':'' @ url_escape EncodeUserPassword password"

text \<open>\<open>url.Values.Encode\<close>, for keys that are given in their sorted order.\<close>

definition Values_Encode :: "(string \<times> string) list \<Rightarrow> string" where
  "Values_Encode kvs =
     strings_Join ''&'' (map (\<lambda>(k, v). url_escape EncodeQueryComponent k @ ''='' @ url_escape EncodeQueryComponent v) kvs)"

definition buildMySQLMigrateURL :: "MySQLConfig \<Rightarrow> string" where
  "buildMySQLMigrateURL cfg =
     ''mysql://'' @ url_UserPassword (my_User cfg) (my_Password cfg) @ ''@tcp('' @ my_Host cfg @ '':'' @ Itoa (my_Port cfg) @ '')/'' @
     my_DBName cfg @ ''?'' @
     Values_Encode [(''charset'', my_Charset cfg), (''loc'', my_Loc cfg), (''parseTime'', FormatBool (my_ParseTime cfg))]"

definition JoinHostPort :: "string \<Rightarrow> string \<Rightarrow> string" where
  "JoinHostPort host port = (if CHR '':'' \<in> set host then ''['' @ host @ '']:'' @ port else host @ '':'' @ port)"

definition buildPostgresMigrateURL :: "PostgresConfig \<Rightarrow> string" where
  "buildPostgresMigrateURL cfg =
     ''postgres://'' @ url_UserPassword (pg_User cfg) (pg_Password cfg) @ ''@'' @
     url_escape EncodeHost (JoinHostPort (pg_Host cfg) (Itoa (pg_Port cfg))) @ url_escape EncodePath (''/'' @ pg_DBName cfg) @ ''?'' @
     Values_Encode [(''TimeZone'', pg_TimeZone cfg), (''sslmode'', pg_SSLMode cfg)]"

definition normalizeDatabaseDriver :: "unicode_tables \<Rightarrow> string \<Rightarrow> string" where
  "normalizeDatabaseDriver ut driver =
     (let driver = TrimSpace driver in if driver = '''' then ''mysql'' else ToLower ut driver)"

definition migrationsSourceURL :: string where
  "migrationsSourceURL = ''file://migrations''"

definition BuildMigrateConfig :: "unicode_tables \<Rightarrow> Config option \<Rightarrow> goerr + MigrateConfig" where
  "BuildMigrateConfig ut cfg =
     (case cfg of
        None \<Rightarrow> Inl (Plain ''config is required'')
      | Some cfg \<Rightarrow>
          (let driver = normalizeDatabaseDriver ut (dc_Driver (cfg_Database cfg)) in
           if driver = ''mysql'' then
             Inr \<lparr>mg_Driver = driver, mg_DatabaseURL = buildMySQLMigrateURL (dc_MySQL (cfg_Database cfg)), mg_SourceURL = migrationsSourceURL\<rparr>
           else if driver = ''postgres'' then
             Inr \<lparr>mg_Driver = driver, mg_DatabaseURL = buildPostgresMigrateURL (dc_Postgres (cfg_Database cfg)), mg_SourceURL = migrationsSourceURL\<rparr>
           else Inl (Plain (''unsupported database driver: '' @ dc_Driver (cfg_Database cfg)))))"

definition migrationDirectoryFromSource :: "string \<Rightarrow> goerr + string" where
  "migrationDirectoryFromSource sourceURL =
     (if \<not> has_prefix ''file://'' sourceURL then Inl (Plain (''unsupported migration source: '' @ sourceURL))
      else
        (let dir = TrimSpace (drop 7 sourceURL) in
         if dir = '''' then Inl (Plain ''migration directory is required'') else Inr dir))"

text \<open>
  \<open>bufio.Scanner\<close> with \<open>ScanLines\<close>: the lines without their line ends. The buffer of the scanner
  holds \<open>bufio.MaxScanTokenSize\<close> bytes; a line that does not fit stops the scanner, and the code
  does not ask for its error.
\<close>

definition MaxScanTokenSize :: nat where
  "MaxScanTokenSize = 64 * 1024"

function split_lines :: "string \<Rightarrow> string list" where
  "split_lines s =
     (if s = '''' then []
      else takeWhile (\<lambda>c. c \<noteq> CHR 0x0A) s # split_lines (drop 1 (dropWhile (\<lambda>c. c \<noteq> CHR 0x0A) s)))"
  by pat_completeness auto
termination
proof (relation "measure length")
  fix s :: string
  assume "s \<noteq> ''''"
  then have "length (drop 1 s) < length s" by simp
  then show "(drop 1 (dropWhile (\<lambda>c. c \<noteq> CHR 0x0A) s), s) \<in> measure length"
    using length_dropWhile_le [of "\<lambda>c. c \<noteq> CHR 0x0A" s] by simp
qed simp

declare split_lines.simps [simp del]

definition dropCR :: "string \<Rightarrow> string" where
  "dropCR s = (if s \<noteq> '''' \<and> last s = CHR 0x0D then butlast s else s)"

definition scan_lines :: "string \<Rightarrow> string list" where
  "scan_lines content = map dropCR (takeWhile (\<lambda>l. length l < MaxScanTokenSize) (split_lines content))"

text \<open>The loop over the lines; the text collected so far, and the statements.\<close>

definition skipped_line :: "string \<Rightarrow> bool" where
  "skipped_line line = (line = '''' \<or> has_prefix ''--'' line \<or> has_prefix ''#'' line)"

fun statement_loop :: "string list \<Rightarrow> string \<Rightarrow> string list" where
  "statement_loop [] current = (let trailing = TrimSpace current in if trailing \<noteq> '''' then [trailing] else [])"
| "statement_loop (l # ls) current =
     (let line = TrimSpace l in
      if skipped_line line then statement_loop ls current
      else
        (let current = (if current \<noteq> '''' then current @ [CHR 0x0A] else current) @ line in
         if has_prefix '';'' (rev line) then
           (let statement = TrimSpace (trim_suffix '';'' current) in
            (if statement \<noteq> '''' then [statement] else []) @ statement_loop ls '''')
         else statement_loop ls current))"

definition splitSQLStatements :: "string \<Rightarrow> string list" where
  "splitSQLStatements content = statement_loop (scan_lines content) ''''"

text \<open>The directory and the files, as \<open>os.ReadDir\<close> (names in order, and whether each is a directory) and \<open>os.ReadFile\<close> give them.\<close>

record migration_dir =
  md_ReadDir :: "string \<Rightarrow> goerr + (string \<times> bool) list"
  md_ReadFile :: "string \<Rightarrow> string \<Rightarrow> goerr + string"

fun exec_statements :: "string \<Rightarrow> string list \<Rightarrow> machine \<Rightarrow> unit io" where
  "exec_statements name [] m = (Inr (), m)"
| "exec_statements name (s # ss) m =
     io_try (wrapping (''execute migration statement from '' @ name @ '': '') (outside [Ran s] m)) (\<lambda>_. exec_statements name ss)"

definition sql_file :: "string \<times> bool \<Rightarrow> bool" where
  "sql_file entry = (\<not> snd entry \<and> has_prefix (rev ''.sql'') (rev (fst entry)))"

fun exec_files :: "migration_dir \<Rightarrow> string \<Rightarrow> (string \<times> bool) list \<Rightarrow> machine \<Rightarrow> unit io" where
  "exec_files files dir [] m = (Inr (), m)"
| "exec_files files dir (entry # entries) m =
     (if \<not> sql_file entry then exec_files files dir entries m
      else
        (case md_ReadFile files dir (fst entry) of
           Inl e \<Rightarrow> (Inl (Wrapf (''read migration file '' @ fst entry @ '': '') e ''''), m)
         | Inr content \<Rightarrow>
             io_try (exec_statements (fst entry) (splitSQLStatements content) m) (\<lambda>_. exec_files files dir entries)))"

definition ApplySQLMigrations :: "migration_dir \<Rightarrow> gormdb option \<Rightarrow> string \<Rightarrow> machine \<Rightarrow> unit io" where
  "ApplySQLMigrations files db sourceURL m =
     (if db = None then (Inl (Plain ''database is required''), m)
      else
        (case migrationDirectoryFromSource sourceURL of
           Inl e \<Rightarrow> (Inl e, m)
         | Inr dir \<Rightarrow>
             (case md_ReadDir files dir of
                Inl e \<Rightarrow> (Inl (Wrapf ''read migration directory: '' e ''''), m)
              | Inr entries \<Rightarrow> exec_files files dir entries m)))"

text \<open>The models registered by \<open>init\<close>, by their names.\<close>

definition RegisterBusinessModels :: "string option list \<Rightarrow> string list \<Rightarrow> string list" where
  "RegisterBusinessModels models businessModels = businessModels @ map the (filter (\<lambda>x. x \<noteq> None) models)"

definition businessModels :: "string list" where
  "businessModels =
     RegisterBusinessModels
       (map Some [''Post'', ''InspectionKeyword'', ''InspectionKeywordScope'', ''InspectionTask'', ''InspectionTaskKeyword'',
          ''InspectionTaskOutboxMessage'', ''InspectionResult'', ''InspectionResultHit'', ''InspectionAction'',
          ''InspectionOperationLog'', ''InspectionFieldChangeLog'']) []"

definition AutoMigrateBusinessTables :: "gormdb option \<Rightarrow> machine \<Rightarrow> unit io" where
  "AutoMigrateBusinessTables migrator m =
     (if migrator = None then (Inl (Plain ''schema migrator is required''), m)
      else if businessModels = [] then (Inr (), m)
      else wrapping ''auto migrate business models: '' (outside [Synced businessModels] m))"

text \<open>\<open>RunMigrateCommand\<close>; the deferred \<open>Close\<close> runs on every way out after the resources are there.\<close>

definition RunMigrateCommand :: "unicode_tables \<Rightarrow> config_env \<Rightarrow> migration_dir \<Rightarrow> string \<Rightarrow> machine \<Rightarrow> unit io" where
  "RunMigrateCommand ut env files configPath m =
     (case Load ut env configPath of
        Inl e \<Rightarrow> (Inl (Wrapf ''load config: '' e ''''), m)
      | Inr cfg \<Rightarrow>
          (case BuildMigrateConfig ut (Some cfg) of
             Inl e \<Rightarrow> (Inl (Wrapf ''build migrate config: '' e ''''), m)
           | Inr migrateCfg \<Rightarrow>
               io_try (wrapping ''bootstrap database resources: '' (database_Bootstrap ut (Some cfg) m)) (\<lambda>resources m.
                 (let (r, m) =
                    (if or_DB resources = None then (Inl (Plain ''starter database is required''), m)
                     else io_try (wrapping ''apply sql migrations: '' (ApplySQLMigrations files (or_DB resources) (mg_SourceURL migrateCfg) m)) (\<lambda>_ m.
                       wrapping ''auto migrate starter schema: '' (AutoMigrateBusinessTables (or_DB resources) m)))
                  in (r, snd (Resources_Close (Some resources) m))))))"

section \<open>Evaluation\<close>

lemma io_try_simps [simp]: "io_try (Inl e, m) k = (Inl e, m)" "io_try (Inr x, m) k = k x m"
  by (simp_all add: io_try_def)

lemma wrapping_simps [simp]: "wrapping s (Inl e, m) = (Inl (Wrapf s e []), m)" "wrapping s (Inr x, m) = (Inr x, m)"
  by (simp_all add: wrapping_def)

section \<open>What stays open\<close>

text \<open>
  The handles that are open after some effects, the last one opened first. Only the handle on top
  may be closed: releasing is the reverse of acquiring, and nothing is closed twice.
\<close>

fun account :: "effect list \<Rightarrow> handle list \<Rightarrow> handle list option" where
  "account [] hs = Some hs"
| "account (Opened h # es) hs = account es (h # hs)"
| "account (Closed h # es) hs = (case hs of [] \<Rightarrow> None | h' # hs' \<Rightarrow> if h = h' then account es hs' else None)"
| "account (Pool a b c # es) hs = account es hs"
| "account (Ran s # es) hs = account es hs"
| "account (Synced ms # es) hs = account es hs"

definition holds :: "machine \<Rightarrow> handle list \<Rightarrow> bool" where
  "holds m hs = (account (mc_effects m) [] = Some hs)"

lemma account_append:
  "account (es @ fs) hs = (case account es hs of None \<Rightarrow> None | Some x \<Rightarrow> account fs x)"
  by (induction es hs rule: account.induct) (auto split: list.split)

lemma holds_noting: "holds m hs \<Longrightarrow> account es hs = Some hs' \<Longrightarrow> holds (noting es m) hs'"
  by (simp add: holds_def noting_def account_append)

lemma holds_calls [simp]: "holds (m\<lparr>mc_calls := n\<rparr>) hs = holds m hs"
  by (simp add: holds_def)

lemma handle_frame [simp]:
  "mc_handle (noting es m) = mc_handle m" "mc_handle (snd (outside es m)) = mc_handle m"
  "mc_handle (snd (closing h m)) = mc_handle m"
  by (simp_all add: noting_def outside_def closing_def split: option.split)

lemma outside_cases:
  obtains e where "outside es m = (Inl (Plain e), m\<lparr>mc_calls := Suc (mc_calls m)\<rparr>)"
  | "outside es m = (Inr (), noting es (m\<lparr>mc_calls := Suc (mc_calls m)\<rparr>))"
  by (cases "mc_fail m (mc_calls m)") (simp_all add: outside_def)

lemma holds_closing: "holds m (h # hs) \<Longrightarrow> holds (snd (closing h m)) hs"
  unfolding closing_def snd_conv by (rule holds_noting [of _ "h # hs"]) simp_all

text \<open>
  A program that may fail: an error gives back what it had opened, a result holds on to handles
  that depend on the result. The handle of the pool can always be had (\<open>mc_handle\<close>).
\<close>

definition acquires :: "('a \<Rightarrow> handle list) \<Rightarrow> (machine \<Rightarrow> 'a io) \<Rightarrow> bool" where
  "acquires f p =
     (\<forall>m hs r m'. mc_handle m = None \<longrightarrow> holds m hs \<longrightarrow> p m = (r, m') \<longrightarrow>
        mc_handle m' = None \<and> holds m' ((case r of Inl e \<Rightarrow> [] | Inr x \<Rightarrow> f x) @ hs))"

definition releases :: "handle list \<Rightarrow> closer \<Rightarrow> bool" where
  "releases h c =
     (\<forall>m hs r m'. mc_handle m = None \<longrightarrow> holds m (h @ hs) \<longrightarrow> c m = (r, m') \<longrightarrow> mc_handle m' = None \<and> holds m' hs)"

lemma acquiresI:
  "(\<And>m hs r m'. mc_handle m = None \<Longrightarrow> holds m hs \<Longrightarrow> p m = (r, m') \<Longrightarrow>
      mc_handle m' = None \<and> holds m' ((case r of Inl e \<Rightarrow> [] | Inr x \<Rightarrow> f x) @ hs)) \<Longrightarrow> acquires f p"
  unfolding acquires_def by blast

lemma acquiresD:
  "acquires f p \<Longrightarrow> mc_handle m = None \<Longrightarrow> holds m hs \<Longrightarrow> p m = (r, m') \<Longrightarrow>
     mc_handle m' = None \<and> holds m' ((case r of Inl e \<Rightarrow> [] | Inr x \<Rightarrow> f x) @ hs)"
  unfolding acquires_def by blast

lemma acquires_pure: "acquires (\<lambda>_. []) (\<lambda>m. (x, m))"
  by (rule acquiresI) (auto split: sum.split)

lemma acquires_fails: "acquires f (\<lambda>m. (Inl e, m))"
  by (rule acquiresI) auto

lemma acquires_outside: "(\<And>hs. account es hs = Some (h @ hs)) \<Longrightarrow> acquires (\<lambda>_. h) (outside es)"
  by (rule acquiresI) (auto simp: outside_def intro!: holds_noting split: option.splits)

lemma acquires_wrapping: "acquires f p \<Longrightarrow> acquires f (\<lambda>m. wrapping s (p m))"
proof (rule acquiresI)
  fix m hs r m'
  assume p: "acquires f p" and m: "mc_handle m = None" "holds m hs" and r: "wrapping s (p m) = (r, m')"
  obtain r0 where r0: "p m = (r0, m')" "r = (case r0 of Inl e \<Rightarrow> Inl (Wrapf s e '''') | Inr x \<Rightarrow> Inr x)"
    using r by (auto simp: wrapping_def split: prod.splits sum.splits)
  with acquiresD [OF p m r0(1)] show "mc_handle m' = None \<and> holds m' ((case r of Inl e \<Rightarrow> [] | Inr x \<Rightarrow> f x) @ hs)"
    by (auto split: sum.splits)
qed

lemma acquires_if: "(b \<Longrightarrow> acquires f p) \<Longrightarrow> (\<not> b \<Longrightarrow> acquires f q) \<Longrightarrow> acquires f (\<lambda>m. if b then p m else q m)"
  by (cases b) simp_all

lemma acquires_try:
  assumes p: "acquires (\<lambda>_. []) p" and q: "\<And>x. acquires f (q x)"
  shows "acquires f (\<lambda>m. io_try (p m) q)"
proof (rule acquiresI)
  fix m hs r m'
  assume m: "mc_handle m = None" "holds m hs" and r: "io_try (p m) q = (r, m')"
  obtain r1 m1 where r1: "p m = (r1, m1)" by fastforce
  from acquiresD [OF p m r1] have m1: "mc_handle m1 = None" "holds m1 hs" by (auto split: sum.splits)
  show "mc_handle m' = None \<and> holds m' ((case r of Inl e \<Rightarrow> [] | Inr x \<Rightarrow> f x) @ hs)"
  proof (cases r1)
    case (Inl e)
    with m1 r r1 show ?thesis by (auto simp: io_try_def)
  next
    case (Inr x)
    with r r1 have "q x m1 = (r, m')" by (simp add: io_try_def)
    with q m1 show ?thesis by (rule acquiresD)
  qed
qed

text \<open>Connections.\<close>

lemma PingDB_acquires: "acquires (\<lambda>_. []) (PingDB db)"
proof (cases db)
  case (Some d)
  have ping: "acquires (\<lambda>_. []) (\<lambda>m. wrapping ''ping db: '' (outside [] m))"
    by (intro acquires_wrapping acquires_outside) simp
  have "acquires (\<lambda>_. []) (\<lambda>m. case mc_handle m of Some e \<Rightarrow> (Inl (Wrapf ''get sql db: '' e ''''), m) | None \<Rightarrow> wrapping ''ping db: '' (outside [] m))"
  proof (rule acquiresI)
    fix m hs r m'
    assume m: "mc_handle m = None" "holds m hs"
      and "(case mc_handle m of Some e \<Rightarrow> (Inl (Wrapf ''get sql db: '' e ''''), m) | None \<Rightarrow> wrapping ''ping db: '' (outside [] m)) = (r, m')"
    then have "wrapping ''ping db: '' (outside [] m) = (r, m')" by simp
    with ping m show "mc_handle m' = None \<and> holds m' ((case r of Inl e \<Rightarrow> [] | Inr x \<Rightarrow> []) @ hs)" by (rule acquiresD)
  qed
  with Some show ?thesis by (cases "gd_Config d") (simp_all add: PingDB_def [abs_def] acquires_fails)
qed (simp add: PingDB_def [abs_def] acquires_fails)

lemma PingRedis_acquires: "acquires (\<lambda>_. []) (PingRedis c)"
proof (cases c)
  case (Some h)
  have "acquires (\<lambda>_. []) (\<lambda>m. wrapping ''ping redis: '' (outside [] m))"
    by (intro acquires_wrapping acquires_outside) simp
  with Some show ?thesis by (simp add: PingRedis_def [abs_def])
qed (simp add: PingRedis_def [abs_def] acquires_fails)

lemma open_sql_acquires: "acquires (\<lambda>d. [gd_Pool d]) (open_sql name dsn a b c)"
proof (rule acquiresI)
  fix m hs r m'
  assume m: "mc_handle m = None" "holds m hs" and r: "open_sql name dsn a b c m = (r, m')"
  let ?h = "PrimaryDB dsn" and ?db = "\<lparr>gd_Pool = PrimaryDB dsn, gd_Config = True\<rparr>"
  show "mc_handle m' = None \<and> holds m' ((case r of Inl e \<Rightarrow> [] | Inr d \<Rightarrow> [gd_Pool d]) @ hs)"
  proof (cases "mc_fail m (mc_calls m)")
    case (Some e)
    with m r show ?thesis by (auto simp: open_sql_def io_try_def wrapping_def outside_def)
  next
    case None
    let ?m1 = "noting [Opened ?h] (m\<lparr>mc_calls := Suc (mc_calls m)\<rparr>)"
    let ?m2 = "noting [Pool a b (wrap64 (c * Minute))] ?m1"
    have h1: "holds ?m1 (?h # hs)" using m by (intro holds_noting [of _ hs]) simp_all
    have m2: "mc_handle ?m2 = None" "holds ?m2 (?h # hs)"
      using m holds_noting [OF h1] by simp_all
    obtain p m3 where p: "PingDB (Some ?db) ?m2 = (p, m3)" by fastforce
    note m3 = acquiresD [OF PingDB_acquires m2 p]
    show ?thesis
      using m r p m3 by (cases p) (auto simp: open_sql_def outside_def None io_try_def wrapping_def Let_def intro: holds_closing)
  qed
qed

lemma openPrimaryDatabase_acquires: "acquires (\<lambda>d. [gd_Pool d]) (openPrimaryDatabase ut cfg)"
  unfolding openPrimaryDatabase_def Let_def openMySQL_def openPostgres_def
  by (intro acquires_if open_sql_acquires acquires_fails)

lemma openRedis_acquires: "acquires (\<lambda>c. [c]) (openRedis cfg)"
proof (rule acquiresI)
  fix m hs r m'
  assume m: "mc_handle m = None" "holds m hs" and r: "openRedis cfg m = (r, m')"
  let ?c = "RedisConn (ro_Addr (buildRedisOptions cfg))"
  let ?m1 = "noting [Opened ?c] m"
  have m1: "mc_handle ?m1 = None" "holds ?m1 (?c # hs)" using m by (auto intro: holds_noting)
  obtain p m2 where p: "PingRedis (Some ?c) ?m1 = (p, m2)" by fastforce
  with acquiresD [OF PingRedis_acquires m1 p] r
  show "mc_handle m' = None \<and> holds m' ((case r of Inl e \<Rightarrow> [] | Inr c \<Rightarrow> [c]) @ hs)"
    by (cases p) (auto simp: openRedis_def Let_def intro: holds_closing)
qed

lemma Resources_Close_releases:
  assumes "or_DB r = Some d" and "gd_Config d"
  shows "releases ((case or_Redis r of None \<Rightarrow> [] | Some c \<Rightarrow> [c]) @ [gd_Pool d]) (Resources_Close (Some r))"
  unfolding releases_def
proof (intro allI impI)
  fix m hs e m'
  assume m: "mc_handle m = None" "holds m (((case or_Redis r of None \<Rightarrow> [] | Some c \<Rightarrow> [c]) @ [gd_Pool d]) @ hs)"
    and e: "Resources_Close (Some r) m = (e, m')"
  show "mc_handle m' = None \<and> holds m' hs"
  proof (cases "or_Redis r")
    case None
    with m e assms show ?thesis
      by (cases "closing (gd_Pool d) m") (use holds_closing [of m "gd_Pool d" hs] handle_frame(3) [of "gd_Pool d" m] in \<open>auto simp: Resources_Close_def\<close>)
  next
    case (Some c)
    obtain e1 m1 where e1: "closing c m = (e1, m1)" by fastforce
    obtain e2 m2 where e2: "closing (gd_Pool d) m1 = (e2, m2)" by fastforce
    have "mc_handle m1 = None" "holds m1 (gd_Pool d # hs)"
      using m Some e1 handle_frame(3) [of c m] holds_closing [of m c "gd_Pool d # hs"] by auto
    moreover from this have "mc_handle m2 = None" "holds m2 hs"
      using e2 handle_frame(3) [of "gd_Pool d" m1] holds_closing [of m1 "gd_Pool d" hs] by auto
    ultimately show ?thesis using e assms Some e1 e2 by (auto simp: Resources_Close_def)
  qed
qed

text \<open>The handles of resources, of a logger and of a runtime, the last one opened first.\<close>

definition resource_handles :: "OpenResources \<Rightarrow> handle list" where
  "resource_handles r =
     (case or_Redis r of None \<Rightarrow> [] | Some c \<Rightarrow> [c]) @ (case or_DB r of None \<Rightarrow> [] | Some d \<Rightarrow> [gd_Pool d])"

definition log_handles :: "handle option \<Rightarrow> bool \<Rightarrow> handle list" where
  "log_handles fl rotating = (case fl of None \<Rightarrow> [] | Some h \<Rightarrow> (if rotating then [Rotation] else []) @ [h])"

definition started_handles :: "Started \<Rightarrow> handle list" where
  "started_handles rt =
     (case st_Resources rt of None \<Rightarrow> [] | Some r \<Rightarrow> resource_handles r) @
     (case (st_Logger rt, st_Config rt) of
        (Some log, Some cfg) \<Rightarrow> log_handles (lg_File log) (lc_RotateDaily (cfg_Log cfg)) | _ \<Rightarrow> [])"

lemma open_sql_Config: "open_sql name dsn a b c m = (Inr d, m') \<Longrightarrow> gd_Config d"
  by (auto simp: open_sql_def io_try_def wrapping_def Let_def split: prod.splits sum.splits option.splits)

lemma openPrimaryDatabase_Config: "openPrimaryDatabase ut cfg m = (Inr d, m') \<Longrightarrow> gd_Config d"
  by (auto simp: openPrimaryDatabase_def openMySQL_def openPostgres_def Let_def dest: open_sql_Config split: if_splits)

lemma releasesD: "releases h c \<Longrightarrow> mc_handle m = None \<Longrightarrow> holds m (h @ hs) \<Longrightarrow> c m = (r, m') \<Longrightarrow> mc_handle m' = None \<and> holds m' hs"
  unfolding releases_def by blast

lemma Resources_Close_handles:
  "or_DB r = Some d \<Longrightarrow> gd_Config d \<Longrightarrow> releases (resource_handles r) (Resources_Close (Some r))"
  using Resources_Close_releases [of r d] by (simp add: resource_handles_def)

lemma database_Bootstrap_acquires:
  "acquires resource_handles (database_Bootstrap ut (Some cfg))"
  "database_Bootstrap ut (Some cfg) m = (Inr r, m') \<Longrightarrow> \<exists>d c. r = \<lparr>or_DB = Some d, or_Redis = Some c\<rparr> \<and> gd_Config d"
proof (rule acquiresI)
  fix m hs r m'
  assume m: "mc_handle m = None" "holds m hs" and r: "database_Bootstrap ut (Some cfg) m = (r, m')"
  obtain p m1 where p: "wrapping ''bootstrap database: '' (openPrimaryDatabase ut cfg m) = (p, m1)" by fastforce
  note m1 = acquiresD [OF acquires_wrapping [OF openPrimaryDatabase_acquires] m p]
  show "mc_handle m' = None \<and> holds m' ((case r of Inl e \<Rightarrow> [] | Inr x \<Rightarrow> resource_handles x) @ hs)"
  proof (cases p)
    case (Inl e)
    with p m1 r show ?thesis by (auto simp: database_Bootstrap_def io_try_def)
  next
    case (Inr d)
    have d: "gd_Config d" using p Inr by (auto simp: wrapping_def dest: openPrimaryDatabase_Config split: prod.splits sum.splits)
    have m1': "mc_handle m1 = None" "holds m1 (gd_Pool d # hs)" using m1 Inr by simp_all
    obtain q m2 where q: "openRedis (cfg_Redis cfg) m1 = (q, m2)" by fastforce
    note m2 = acquiresD [OF openRedis_acquires m1' q]
    show ?thesis
    proof (cases q)
      case (Inr c)
      with \<open>p = Inr d\<close> p q m2 r show ?thesis by (auto simp: database_Bootstrap_def io_try_def resource_handles_def)
    next
      case (Inl e)
      let ?res = "\<lparr>or_DB = Some d, or_Redis = None\<rparr>"
      obtain c m3 where c: "Resources_Close (Some ?res) m2 = (c, m3)" by fastforce
      have "holds m2 (resource_handles ?res @ hs)" using m2 Inl by (simp add: resource_handles_def)
      then have "mc_handle m3 = None \<and> holds m3 hs"
        using releasesD [OF Resources_Close_handles [of ?res d] _ _ c] m2 d by simp
      with Inl \<open>p = Inr d\<close> p q r c show ?thesis by (auto simp: database_Bootstrap_def io_try_def)
    qed
  qed
next
  assume "database_Bootstrap ut (Some cfg) m = (Inr r, m')"
  then show "\<exists>d c. r = \<lparr>or_DB = Some d, or_Redis = Some c\<rparr> \<and> gd_Config d"
    by (auto simp: database_Bootstrap_def io_try_def wrapping_def Let_def dest: openPrimaryDatabase_Config split: prod.splits sum.splits)
qed

text \<open>The logger.\<close>

lemma newFileLogger_acquires: "acquires (\<lambda>h. [h]) (newFileLogger q cfg)"
  unfolding newFileLogger_def Let_def
proof (rule acquires_try)
  show "acquires (\<lambda>_. []) (\<lambda>m. wrapping (''create log dir '' @ q (lc_Dir cfg) @ '': '') (outside [] m))"
    by (intro acquires_wrapping acquires_outside) simp
  show "acquires (\<lambda>h. [h]) (\<lambda>m. (Inr (LogFile (lc_Dir cfg) (lc_Filename cfg)), noting [Opened (LogFile (lc_Dir cfg) (lc_Filename cfg))] m))"
    by (rule acquiresI) (auto intro: holds_noting)
qed

lemma buildWriter_acquires: "acquires (\<lambda>(_, fl). log_handles fl False) (buildWriter ut q cfg)"
proof -
  have fl: "acquires (\<lambda>(_, fl). log_handles fl False) (\<lambda>m. io_try (newFileLogger q cfg m) (\<lambda>h m. (Inr (b, Some h), m)))" for b
  proof (rule acquiresI)
    fix m hs r m'
    assume m: "mc_handle m = None" "holds m hs" and r: "io_try (newFileLogger q cfg m) (\<lambda>h m. (Inr (b, Some h), m)) = (r, m')"
    obtain p m1 where p: "newFileLogger q cfg m = (p, m1)" by fastforce
    from acquiresD [OF newFileLogger_acquires m p] p r
    show "mc_handle m' = None \<and> holds m' ((case r of Inl e \<Rightarrow> [] | Inr x \<Rightarrow> case x of (_, fl) \<Rightarrow> log_handles fl False) @ hs)"
      by (cases p) (auto simp: io_try_def log_handles_def)
  qed
  have std: "acquires (\<lambda>(_, fl). log_handles fl False) (\<lambda>m. (Inr (True, None), m))"
    by (rule acquiresI) (auto simp: log_handles_def)
  show ?thesis unfolding buildWriter_def Let_def by (intro acquires_if fl std acquires_fails)
qed

lemma log_cleanup_releases: "releases (log_handles fl rot) (log_cleanup fl rot)"
  unfolding releases_def
proof (intro allI impI)
  fix m hs e m'
  assume m: "mc_handle m = None" "holds m (log_handles fl rot @ hs)" and e: "log_cleanup fl rot m = (e, m')"
  show "mc_handle m' = None \<and> holds m' hs"
  proof (cases fl)
    case None
    with m e show ?thesis by (simp add: log_cleanup_def log_handles_def)
  next
    case (Some h)
    let ?m1 = "if rot then noting [Closed Rotation] m else m"
    have m1: "mc_handle ?m1 = None" "holds ?m1 (h # hs)"
      using m Some holds_noting [of m "Rotation # h # hs" "[Closed Rotation]" "h # hs"] by (auto simp: log_handles_def split: if_splits)
    have "m' = snd (closing h ?m1)" using e Some by (auto simp: log_cleanup_def Let_def split: prod.splits)
    with m1 holds_closing [OF m1(2)] show ?thesis by simp
  qed
qed

lemma logger_New_acquires:
  assumes "mc_handle m = None" and "holds m hs" and "logger_New ut q cfg m = (r, m')"
  shows "mc_handle m' = None \<and>
    (case r of Inl e \<Rightarrow> holds m' hs
     | Inr (log, cleanup) \<Rightarrow> holds m' (log_handles (lg_File log) (lc_RotateDaily cfg) @ hs) \<and>
         releases (log_handles (lg_File log) (lc_RotateDaily cfg)) cleanup)"
proof -
  obtain p m1 where p: "buildWriter ut q cfg m = (p, m1)" by fastforce
  note m1 = acquiresD [OF buildWriter_acquires assms(1,2) p]
  show ?thesis
  proof (cases p)
    case (Inl e)
    with p m1 assms(3) show ?thesis by (auto simp: logger_New_def io_try_def)
  next
    case (Inr x)
    obtain std fl where x: "x = (std, fl)" by fastforce
    let ?m2 = "if fl \<noteq> None \<and> lc_RotateDaily cfg then noting [Opened Rotation] m1 else m1"
    have "m' = ?m2" and r: "r = Inr (\<lparr>lg_Level = parseLevel ut (lc_Level cfg), lg_Stdout = std, lg_File = fl\<rparr>, log_cleanup fl (lc_RotateDaily cfg))"
      using p Inr x assms(3) by (auto simp: logger_New_def io_try_def Let_def)
    moreover have "mc_handle m1 = None" "holds m1 (log_handles fl False @ hs)" using m1 Inr x by simp_all
    then have "mc_handle ?m2 = None" "holds ?m2 (log_handles fl (lc_RotateDaily cfg) @ hs)"
      using holds_noting [of m1 "log_handles fl False @ hs" "[Opened Rotation]" "log_handles fl True @ hs"]
      by (cases fl; cases "lc_RotateDaily cfg"; simp add: log_handles_def)+
    ultimately show ?thesis using log_cleanup_releases by simp
  qed
qed

section \<open>The migration command\<close>

lemma exec_statements_acquires: "acquires (\<lambda>_. []) (exec_statements name ss)"
proof (induction ss)
  case (Cons s ss)
  have "acquires (\<lambda>_. []) (\<lambda>m. wrapping (''execute migration statement from '' @ name @ '': '') (outside [Ran s] m))"
    by (intro acquires_wrapping acquires_outside) simp
  with Cons show ?case by (auto intro: acquires_try)
qed (simp add: acquires_pure)

lemma acquires_sum:
  "(\<And>e. x = Inl e \<Longrightarrow> acquires f (g e)) \<Longrightarrow> (\<And>y. x = Inr y \<Longrightarrow> acquires f (h y)) \<Longrightarrow>
     acquires f (\<lambda>m. case x of Inl e \<Rightarrow> g e m | Inr y \<Rightarrow> h y m)"
  by (cases x) simp_all

lemma exec_files_acquires: "acquires (\<lambda>_. []) (exec_files files dir es)"
proof (induction es)
  case (Cons x es)
  have "exec_files files dir (x # es) =
     (\<lambda>m. if \<not> sql_file x then exec_files files dir es m
      else (case md_ReadFile files dir (fst x) of
           Inl e \<Rightarrow> (Inl (Wrapf (''read migration file '' @ fst x @ '': '') e ''''), m)
         | Inr content \<Rightarrow> io_try (exec_statements (fst x) (splitSQLStatements content) m) (\<lambda>_. exec_files files dir es)))"
    by (simp add: fun_eq_iff)
  then show ?case by (simp only:) (intro acquires_if acquires_sum acquires_try acquires_fails exec_statements_acquires Cons)
qed (simp add: acquires_pure)

lemma ApplySQLMigrations_acquires: "acquires (\<lambda>_. []) (ApplySQLMigrations files db url)"
  unfolding ApplySQLMigrations_def by (intro acquires_if acquires_sum acquires_fails exec_files_acquires)

lemma AutoMigrate_acquires: "acquires (\<lambda>_. []) (AutoMigrateBusinessTables db)"
  unfolding AutoMigrateBusinessTables_def
  by (intro acquires_if acquires_fails acquires_pure acquires_wrapping acquires_outside) simp

text \<open>The part of the command between opening and closing the connections.\<close>

definition migrate_steps :: "migration_dir \<Rightarrow> gormdb option \<Rightarrow> string \<Rightarrow> machine \<Rightarrow> unit io" where
  "migrate_steps files db url m =
     io_try (wrapping ''apply sql migrations: '' (ApplySQLMigrations files db url m)) (\<lambda>_ m.
       wrapping ''auto migrate starter schema: '' (AutoMigrateBusinessTables db m))"

lemma migrate_steps_acquires: "acquires (\<lambda>_. []) (migrate_steps files db url)"
  unfolding migrate_steps_def by (intro acquires_try acquires_wrapping ApplySQLMigrations_acquires AutoMigrate_acquires)

lemma RunMigrateCommand_cases:
  obtains (early) e m1 where "RunMigrateCommand ut env files path m = (Inl e, m1)" and "m1 = m"
  | (connect) e e1 m1 cfg where "RunMigrateCommand ut env files path m = (Inl e, m1)" and "database_Bootstrap ut (Some cfg) m = (Inl e1, m1)"
  | (steps) cfg d c m1 q m2 where "database_Bootstrap ut (Some cfg) m = (Inr \<lparr>or_DB = Some d, or_Redis = Some c\<rparr>, m1)" and "gd_Config d"
      and "migrate_steps files (Some d) migrationsSourceURL m1 = (q, m2)"
      and "RunMigrateCommand ut env files path m = (q, snd (Resources_Close (Some \<lparr>or_DB = Some d, or_Redis = Some c\<rparr>) m2))"
proof (cases "\<exists>cfg mg. Load ut env path = Inr cfg \<and> BuildMigrateConfig ut (Some cfg) = Inr mg")
  case False
  then have "\<exists>e. RunMigrateCommand ut env files path m = (Inl e, m)" by (auto simp: RunMigrateCommand_def split: sum.splits)
  with early show ?thesis by blast
next
  case True
  then obtain cfg mg where cfg: "Load ut env path = Inr cfg" "BuildMigrateConfig ut (Some cfg) = Inr mg" by auto
  have url: "mg_SourceURL mg = migrationsSourceURL" using cfg(2) by (auto simp: BuildMigrateConfig_def Let_def split: if_splits)
  obtain p m1 where p: "database_Bootstrap ut (Some cfg) m = (p, m1)" by fastforce
  show ?thesis
  proof (cases p)
    case (Inl e)
    with cfg p show ?thesis by (intro connect [of _ m1 cfg e]) (simp_all add: RunMigrateCommand_def)
  next
    case (Inr res)
    with p obtain d c where res: "res = \<lparr>or_DB = Some d, or_Redis = Some c\<rparr>" "gd_Config d"
      using database_Bootstrap_acquires(2) by blast
    obtain q m2 where q: "migrate_steps files (Some d) migrationsSourceURL m1 = (q, m2)" by fastforce
    show ?thesis
      using cfg p Inr res q url by (intro steps [of cfg d c m1 q m2]) (simp_all add: RunMigrateCommand_def migrate_steps_def)
  qed
qed

lemma RunMigrateCommand_acquires: "acquires (\<lambda>_. []) (RunMigrateCommand ut env files path)"
proof (rule acquiresI)
  fix m hs r m'
  assume m: "mc_handle m = None" "holds m hs" and r: "RunMigrateCommand ut env files path m = (r, m')"
  show "mc_handle m' = None \<and> holds m' ((case r of Inl e \<Rightarrow> [] | Inr x \<Rightarrow> []) @ hs)"
  proof (cases rule: RunMigrateCommand_cases [of ut env files path m])
    case (early e m1)
    with m r show ?thesis by simp
  next
    case (connect e e1 m1 cfg)
    with acquiresD [OF database_Bootstrap_acquires(1) m connect(2)] r show ?thesis by simp
  next
    case (steps cfg d c m1 q m2)
    let ?res = "\<lparr>or_DB = Some d, or_Redis = Some c\<rparr>"
    have m1: "mc_handle m1 = None" "holds m1 (resource_handles ?res @ hs)"
      using acquiresD [OF database_Bootstrap_acquires(1) m steps(1)] by auto
    have m2: "mc_handle m2 = None" "holds m2 (resource_handles ?res @ hs)"
      using acquiresD [OF migrate_steps_acquires m1 steps(3)] by (auto split: sum.splits)
    obtain e m3 where e: "Resources_Close (Some ?res) m2 = (e, m3)" by fastforce
    have "mc_handle m3 = None \<and> holds m3 hs"
      using releasesD [OF Resources_Close_handles [of ?res d] m2 e] steps(2) by simp
    with r steps(4) e show ?thesis by (auto split: sum.splits)
  qed
qed

section \<open>Properties\<close>

lemma buildRuntime_facts:
  assumes m: "mc_handle m = None" "holds m hs" and r: "buildRuntime ut env path m = (r, m')"
  shows "case r of Inl e \<Rightarrow> holds m' hs
         | Inr rt \<Rightarrow> mc_handle m' = None \<and> holds m' (started_handles rt @ hs) \<and>
             releases (started_handles rt) (Runtime_Shutdown (Some rt)) \<and>
             (\<exists>cfg d c. Load ut env path = Inr cfg \<and> st_Config rt = Some cfg \<and>
                st_Resources rt = Some \<lparr>or_DB = Some d, or_Redis = Some c\<rparr>)"
proof (cases "Load ut env path")
  case (Inl e)
  with m r show ?thesis by (auto simp: buildRuntime_def)
next
  case (Inr cfg)
  note cfg = this
  obtain p m1 where p: "logger_New ut (ce_quote env) (cfg_Log cfg) m = (p, m1)" by fastforce
  note m1 = logger_New_acquires [OF m p]
  show ?thesis
  proof (cases p)
    case (Inl e)
    with cfg p m1 r show ?thesis by (auto simp: buildRuntime_def io_try_def wrapping_def)
  next
    case (Inr x)
    obtain log cleanup where x: "p = Inr (log, cleanup)" using Inr by (cases x) auto
    let ?lh = "log_handles (lg_File log) (lc_RotateDaily (cfg_Log cfg))"
    have m1': "mc_handle m1 = None" "holds m1 (?lh @ hs)" and cl: "releases ?lh cleanup" using m1 x by auto
    obtain q m2 where q: "database_Bootstrap ut (Some cfg) m1 = (q, m2)" by fastforce
    note m2 = acquiresD [OF database_Bootstrap_acquires(1) m1' q]
    show ?thesis
    proof (cases q)
      case (Inl e)
      obtain c m3 where c: "cleanup m2 = (c, m3)" by fastforce
      have "holds m3 hs" using releasesD [OF cl _ _ c] m2 Inl by simp
      with cfg p x q Inl c r show ?thesis by (auto simp: buildRuntime_def io_try_def wrapping_def)
    next
      case (Inr res)
      then obtain d c where res: "res = \<lparr>or_DB = Some d, or_Redis = Some c\<rparr>" "gd_Config d"
        using q database_Bootstrap_acquires(2) by blast
      have m2': "mc_handle m2 = None" "holds m2 (resource_handles res @ ?lh @ hs)" using m2 Inr by simp_all
      let ?rt = "\<lparr>st_Config = Some cfg, st_Logger = Some log, st_Resources = Some res, st_closers = [Some cleanup, Some (Resources_Close (Some res))]\<rparr>"
      have "releases (resource_handles res @ ?lh) (Runtime_Shutdown (Some ?rt))"
        unfolding releases_def
      proof (intro allI impI)
        fix m hs e m'
        assume a: "mc_handle m = None" "holds m ((resource_handles res @ ?lh) @ hs)" "Runtime_Shutdown (Some ?rt) m = (e, m')"
        obtain e1 m3 where e1: "Resources_Close (Some res) m = (e1, m3)" by fastforce
        have m3: "mc_handle m3 = None" "holds m3 (?lh @ hs)"
          using releasesD [OF Resources_Close_handles [of res d] a(1) _ e1] a(2) res by auto
        obtain e2 m4 where e2: "cleanup m3 = (e2, m4)" by fastforce
        have "m' = m4" using a(3) e1 e2 by (simp add: Runtime_Shutdown_def Shutdown_def)
        with releasesD [OF cl m3 e2] show "mc_handle m' = None \<and> holds m' hs" by simp
      qed
      moreover have "r = Inr ?rt" "m' = m2"
        using r cfg p x q Inr by (auto simp: buildRuntime_def io_try_def wrapping_def RegisterCloser_def)
      ultimately show ?thesis
        using m2' cfg res by (simp add: started_handles_def)
    qed
  qed
qed

text \<open>
  No connection and no log file is left behind, whatever call outside fails: a start that
  fails has closed everything it had opened; a runtime that started holds exactly its connections
  and its log file, and its shutdown closes each of them once, in the reverse order; the migration
  command ends with everything closed on every way out. What was open before stays open.
\<close>

theorem start_stop_balanced:
  assumes "mc_handle m = None" and "account (mc_effects m) [] = Some hs"
  shows "(case buildRuntime ut env path m of
            (Inl e, m1) \<Rightarrow> account (mc_effects m1) [] = Some hs
          | (Inr rt, m1) \<Rightarrow> account (mc_effects m1) [] = Some (started_handles rt @ hs) \<and>
              account (mc_effects (snd (Runtime_Shutdown (Some rt) m1))) [] = Some hs) \<and>
         account (mc_effects (snd (RunMigrateCommand ut env files path m))) [] = Some hs"
proof -
  have h: "holds m hs" using assms(2) by (simp add: holds_def)
  obtain r m1 where r: "buildRuntime ut env path m = (r, m1)" by fastforce
  obtain q m2 where q: "RunMigrateCommand ut env files path m = (q, m2)" by fastforce
  note facts = buildRuntime_facts [OF assms(1) h r]
  have "holds (snd (Runtime_Shutdown (Some rt) m1)) hs" if "r = Inr rt" for rt
    using facts that releasesD [of "started_handles rt" "Runtime_Shutdown (Some rt)" m1 hs] by (cases "Runtime_Shutdown (Some rt) m1") auto
  with acquiresD [OF RunMigrateCommand_acquires assms(1) h q] facts r q show ?thesis
    by (auto simp: holds_def split: sum.splits)
qed

text \<open>The changes of the schema among the effects, and what the files of the directory ask for.\<close>

fun changes_schema :: "effect \<Rightarrow> bool" where
  "changes_schema (Ran s) = True"
| "changes_schema (Synced ms) = True"
| "changes_schema (Opened h) = False"
| "changes_schema (Closed h) = False"
| "changes_schema (Pool a b c) = False"

definition schema_changes :: "machine \<Rightarrow> effect list" where
  "schema_changes m = filter changes_schema (mc_effects m)"

definition file_statements :: "migration_dir \<Rightarrow> string \<Rightarrow> (string \<times> bool) list \<Rightarrow> string list" where
  "file_statements files dir entries =
     concat (map (\<lambda>e. case md_ReadFile files dir (fst e) of Inl _ \<Rightarrow> [] | Inr content \<Rightarrow> splitSQLStatements content)
       (filter sql_file entries))"

definition migration_plan :: "migration_dir \<Rightarrow> string list" where
  "migration_plan files =
     (case md_ReadDir files ''migrations'' of Inl _ \<Rightarrow> [] | Inr entries \<Rightarrow> file_statements files ''migrations'' entries)"

text \<open>What a program has run of a list of statements when it ends: all of it, or on an error a first part.\<close>

definition runs :: "string list \<Rightarrow> (machine \<Rightarrow> unit io) \<Rightarrow> bool" where
  "runs ss p =
     (\<forall>m r m'. p m = (r, m') \<longrightarrow>
        (\<exists>ran rest. ss = ran @ rest \<and> schema_changes m' = schema_changes m @ map Ran ran \<and> (r = Inr () \<longrightarrow> rest = [])))"

lemma runsI:
  "(\<And>m r m'. p m = (r, m') \<Longrightarrow>
      \<exists>ran rest. ss = ran @ rest \<and> schema_changes m' = schema_changes m @ map Ran ran \<and> (r = Inr () \<longrightarrow> rest = [])) \<Longrightarrow> runs ss p"
  unfolding runs_def by blast


lemma runs_fails: "runs ss (\<lambda>m. (Inl e, m))"
  by (rule runsI) auto









lemma schema_changes_noting [simp]: "schema_changes (noting es m) = schema_changes m @ filter changes_schema es"
  by (simp add: noting_def schema_changes_def)

lemma schema_changes_calls [simp]: "schema_changes (m\<lparr>mc_calls := n\<rparr>) = schema_changes m"
  by (simp add: schema_changes_def)













section \<open>Splitting a file\<close>

lemma split_lines_line:
  assumes "CHR 0x0A \<notin> set l"
  shows "split_lines (l @ CHR 0x0A # rest) = l # split_lines rest"
proof -
  have t: "takeWhile (\<lambda>c. c \<noteq> CHR 0x0A) (l @ CHR 0x0A # rest) = l"
    using assms by (induction l) auto
  have d: "dropWhile (\<lambda>c. c \<noteq> CHR 0x0A) (l @ CHR 0x0A # rest) = CHR 0x0A # rest"
    using assms by (induction l) auto
  show ?thesis by (subst split_lines.simps) (simp add: t d)
qed

text \<open>Every statement is trimmed and not empty.\<close>

lemma statement_loop_trimmed: "s \<in> set (statement_loop ls cur) \<Longrightarrow> s \<noteq> '''' \<and> TrimSpace s = s"
  by (induction ls cur rule: statement_loop.induct) (auto simp: Let_def TrimSpace_idem split: if_splits)

text \<open>A line that the scanner cannot hold ends the file: nothing that follows is run.\<close>

lemma long_line_drops_rest:
  assumes "CHR 0x0A \<notin> set l" and "MaxScanTokenSize \<le> length l" and "\<forall>x \<in> set ls. CHR 0x0A \<notin> set x"
  shows "splitSQLStatements (concat (map (\<lambda>x. x @ [CHR 0x0A]) ls) @ l @ CHR 0x0A # rest) =
         splitSQLStatements (concat (map (\<lambda>x. x @ [CHR 0x0A]) ls))"
proof -
  have lines: "split_lines (concat (map (\<lambda>x. x @ [CHR 0x0A]) ls) @ tl) = ls @ split_lines tl" for tl
    using assms(3) by (induction ls) (simp_all add: split_lines_line)
  have "scan_lines (concat (map (\<lambda>x. x @ [CHR 0x0A]) ls) @ l @ CHR 0x0A # rest) =
        scan_lines (concat (map (\<lambda>x. x @ [CHR 0x0A]) ls))"
    using lines [of "l @ CHR 0x0A # rest"] lines [of "[]"] assms(1,2)
    by (simp add: scan_lines_def split_lines_line split_lines.simps [of "[]"] takeWhile_append) (metis takeWhile_eq_all_conv)
  then show ?thesis by (simp add: splitSQLStatements_def)
qed

section \<open>Examples\<close>

definition ex_machine :: machine where
  "ex_machine = \<lparr>mc_calls = 0, mc_fail = (\<lambda>n. if n = 3 then Some ''refused'' else None), mc_handle = None, mc_effects = []\<rparr>"

definition ex_migrations :: migration_dir where
  "ex_migrations =
     \<lparr>md_ReadDir = (\<lambda>_. Inr [(''1.sql'', False), (''README.md'', False)]),
      md_ReadFile = (\<lambda>_ _. Inr (''-- one'' @ [CHR 0x0A] @ ''SELECT 1;'' @ [CHR 0x0A] @ ''SELECT 2''))\<rparr>"

lemma ex_migrations_plan: "migration_plan ex_migrations = [''SELECT 1'', ''SELECT 2'']"
proof -
  let ?ls = "[''-- one'', ''SELECT 1;'', ''SELECT 2'']"
  have t: "TrimSpace ''-- one'' = ''-- one''" "TrimSpace ''SELECT 1;'' = ''SELECT 1;''" "TrimSpace ''SELECT 2'' = ''SELECT 2''"
    "TrimSpace ''SELECT 1'' = ''SELECT 1''"
    by code_simp+
  have "scan_lines (''-- one'' @ [CHR 0x0A] @ ''SELECT 1;'' @ [CHR 0x0A] @ ''SELECT 2'') = ?ls"
    by (simp add: scan_lines_def split_lines.simps MaxScanTokenSize_def dropCR_def)
  moreover have "statement_loop ?ls '''' = [''SELECT 1'', ''SELECT 2'']"
    by (simp add: t skipped_line_def Let_def trim_suffix_def)
  ultimately show ?thesis
    by (simp add: migration_plan_def ex_migrations_def file_statements_def sql_file_def splitSQLStatements_def)
qed

lemma start_stop_balanced_witness:
  "(case buildRuntime ascii_tables ex_config_env ''config.yaml'' ex_machine of
      (Inl e, m1) \<Rightarrow> account (mc_effects m1) [] = Some []
    | (Inr rt, m1) \<Rightarrow> account (mc_effects m1) [] = Some (started_handles rt @ []) \<and>
        account (mc_effects (snd (Runtime_Shutdown (Some rt) m1))) [] = Some []) \<and>
   account (mc_effects (snd (RunMigrateCommand ascii_tables ex_config_env ex_migrations ''config.yaml'' ex_machine))) [] = Some []"
  by (rule start_stop_balanced) (simp_all add: ex_machine_def)

end
