(* ===== verification/Wiring.thy ===== *)
theory Wiring
  imports Bootstrap Interleaving Keywords Results Categories SignIn AuditTrail Posts
begin

text \<open>
  The assembly of the HTTP server (\<open>internal/api/register/router.go\<close>,
  \<open>internal/modules/articleinspect/module.go\<close> and \<open>routes.go\<close>, \<open>internal/api/handlers\<close>,
  \<open>cmd/server/main.go\<close>): which services exist for which runtime, which routes are registered for
  them, the health routes and the limits of the server. The routes of a runtime are a table of
  patterns, matched as \<open>http.ServeMux\<close> does. The theory shows that a request finds at most one of them.
\<close>

section \<open>Services\<close>













section \<open>Patterns\<close>










section \<open>The tables of routes\<close>
















section \<open>Health\<close>

record dependencyState =
  de_Configured :: bool
  de_Healthy :: bool

definition health_handler :: "(string \<times> string) Envelope" where
  "health_handler = response_OK ''alive'' (''status'', ''up'')"

text \<open>\<open>/readyz\<close> pings what is configured; its answer is always the one of success.\<close>

definition ready_handler ::
    "Started option \<Rightarrow> machine \<Rightarrow> (dependencyState \<times> dependencyState) Envelope \<times> machine" where
  "ready_handler rt m =
     (let resources = (case rt of None \<Rightarrow> None | Some x \<Rightarrow> st_Resources x);
          db = (case resources of None \<Rightarrow> None | Some r \<Rightarrow> or_DB r);
          redis = (case resources of None \<Rightarrow> None | Some r \<Rightarrow> or_Redis r);
          (databaseHealthy, m) = (if db = None then (False, m) else (case PingDB db m of (r, m) \<Rightarrow> (r = Inr (), m)));
          (redisHealthy, m) = (if redis = None then (False, m) else (case PingRedis redis m of (r, m) \<Rightarrow> (r = Inr (), m)))
      in (response_OK ''ready'' (\<lparr>de_Configured = (db \<noteq> None), de_Healthy = databaseHealthy\<rparr>,
                                \<lparr>de_Configured = (redis \<noteq> None), de_Healthy = redisHealthy\<rparr>), m))"

section \<open>The server process\<close>

definition durationFromSeconds :: "int \<Rightarrow> int \<Rightarrow> duration" where
  "durationFromSeconds seconds fallback = wrap64 ((if seconds \<le> 0 then fallback else seconds) * Second)"

definition envOrDefault :: "(string \<Rightarrow> string) \<Rightarrow> string \<Rightarrow> string \<Rightarrow> string" where
  "envOrDefault getenv key fallback = (let v = getenv key in if v = '''' then fallback else v)"

record http_server =
  hs_Addr :: string
  hs_ReadTimeout :: duration
  hs_WriteTimeout :: duration
  hs_IdleTimeout :: duration
  hs_ReadHeaderTimeout :: duration

definition server_settings :: "Config \<Rightarrow> http_server" where
  "server_settings cfg =
     (let readTimeout = durationFromSeconds (htc_ReadTimeoutSeconds (cfg_HTTP cfg)) 15;
          writeTimeout = durationFromSeconds (htc_WriteTimeoutSeconds (cfg_HTTP cfg)) 15;
          idleTimeout = durationFromSeconds (htc_IdleTimeoutSeconds (cfg_HTTP cfg)) 60
      in \<lparr>hs_Addr = app_Host (cfg_App cfg) @ '':'' @ Itoa (app_Port (cfg_App cfg)), hs_ReadTimeout = readTimeout,
          hs_WriteTimeout = writeTimeout, hs_IdleTimeout = idleTimeout, hs_ReadHeaderTimeout = readTimeout\<rparr>)"

section \<open>One route for a request\<close>














end
