(* ===== verification/Logging.thy ===== *)
theory Logging
  imports Bootstrap
begin

text \<open>
  Two small machines of logging: the goroutine that rotates the log file every day
  (\<open>pkg/logger/rotate.go\<close>) and the writer through which the access log learns the status of a reply
  (\<open>internal/middleware/accesslog.go\<close>).
\<close>

section \<open>Daily rotation\<close>

text \<open>
  \<open>startDailyRotation\<close>: the goroutine takes ticks until it sees the closed channel \<open>done\<close>; after
  \<open>Stop\<close> it may still take a tick before it does. A second \<open>Stop\<close> closes a closed channel, which panics.
\<close>

datatype rotation_event = Tick instant | Stop | Quit

record rotation =
  rn_Last :: "int \<times> int \<times> int"
  rn_Done :: bool
  rn_Running :: bool
  rn_Rotated :: "(int \<times> int \<times> int) list"

definition startDailyRotation :: "int \<Rightarrow> instant \<Rightarrow> rotation" where
  "startDailyRotation offset now =
     \<lparr>rn_Last = dayKey offset now, rn_Done = False, rn_Running = True, rn_Rotated = []\<rparr>"

fun rotation_step :: "int \<Rightarrow> rotation_event \<Rightarrow> rotation \<Rightarrow> rotation option" where
  "rotation_step offset (Tick currentTime) s =
     (let currentDay = dayKey offset currentTime in
      if \<not> rn_Running s then None
      else if currentDay = rn_Last s then Some s
      else Some (s\<lparr>rn_Rotated := rn_Rotated s @ [currentDay], rn_Last := currentDay\<rparr>))"
| "rotation_step offset Stop s = (if rn_Done s then None else Some (s\<lparr>rn_Done := True\<rparr>))"
| "rotation_step offset Quit s = (if rn_Running s \<and> rn_Done s then Some (s\<lparr>rn_Running := False\<rparr>) else None)"

fun rotation_run :: "int \<Rightarrow> rotation_event list \<Rightarrow> rotation \<Rightarrow> rotation option" where
  "rotation_run offset [] s = Some s"
| "rotation_run offset (e # es) s =
     (case rotation_step offset e s of None \<Rightarrow> None | Some s' \<Rightarrow> rotation_run offset es s')"

fun tick_days :: "int \<Rightarrow> rotation_event list \<Rightarrow> (int \<times> int \<times> int) list" where
  "tick_days offset [] = []"
| "tick_days offset (Tick t # es) = dayKey offset t # tick_days offset es"
| "tick_days offset (_ # es) = tick_days offset es"

lemma rotation_loop_changes: "d # rotation_loop d ks = remdups_adj (d # ks)"
  by (induction d ks rule: rotation_loop.induct) auto

text \<open>The events are the loop over the days of its ticks, wherever it is stopped.\<close>

lemma rotation_run_loop:
  "rotation_run offset es s = Some s' \<Longrightarrow> rn_Rotated s' = rn_Rotated s @ rotation_loop (rn_Last s) (tick_days offset es)"
proof (induction es arbitrary: s)
  case (Cons e es)
  then obtain s1 where s1: "rotation_step offset e s = Some s1" "rotation_run offset es s1 = Some s'"
    by (auto split: option.splits)
  from Cons.IH [OF s1(2)] s1(1) show ?case by (cases e) (auto simp: Let_def split: if_splits)
qed simp

text \<open>
  The file is rotated exactly at the changes of the day, once for each, and nothing is rotated after the
  goroutine has ended.
\<close>

lemma rotates_at_day_changes:
  assumes "rotation_run offset es (startDailyRotation offset now) = Some s"
  shows "dayKey offset now # rn_Rotated s = remdups_adj (dayKey offset now # tick_days offset es)"
  using rotation_run_loop [OF assms] rotation_loop_changes by (simp add: startDailyRotation_def)

lemma no_rotation_after_end:
  "\<not> rn_Running s \<Longrightarrow> rotation_run offset es s = Some s' \<Longrightarrow> rn_Rotated s' = rn_Rotated s"
proof (induction es arbitrary: s)
  case (Cons e es)
  then obtain s1 where "rotation_step offset e s = Some s1" "rotation_run offset es s1 = Some s'"
    by (auto split: option.splits)
  with Cons.IH [of s1] Cons.prems(1) show ?case by (cases e) (auto simp: Let_def split: if_splits)
qed simp

section \<open>The status of a reply\<close>

text \<open>
  What a handler calls on its writer. The writer below, which belongs to the timeout handler, keeps the
  first status; the capturing writer keeps the last one.
\<close>

datatype writer_call = WriteHeader int | WriteBody string

record statusCapturingResponseWriter =
  sw_statusCode :: int
  sw_sent :: "int option"

definition fresh_writer :: statusCapturingResponseWriter where
  "fresh_writer = \<lparr>sw_statusCode = 0, sw_sent = None\<rparr>"

definition send_status :: "int \<Rightarrow> int option \<Rightarrow> int option" where
  "send_status code sent = (case sent of None \<Rightarrow> Some code | Some c \<Rightarrow> Some c)"

definition capture_WriteHeader :: "int \<Rightarrow> statusCapturingResponseWriter \<Rightarrow> statusCapturingResponseWriter" where
  "capture_WriteHeader statusCode w = w\<lparr>sw_statusCode := statusCode, sw_sent := send_status statusCode (sw_sent w)\<rparr>"

definition capture_Write :: "string \<Rightarrow> statusCapturingResponseWriter \<Rightarrow> statusCapturingResponseWriter" where
  "capture_Write p w =
     (let w = (if sw_statusCode w = 0 then w\<lparr>sw_statusCode := 200\<rparr> else w) in w\<lparr>sw_sent := send_status 200 (sw_sent w)\<rparr>)"

definition captured_status :: "statusCapturingResponseWriter \<Rightarrow> int" where
  "captured_status w = (if sw_statusCode w = 0 then 200 else sw_statusCode w)"

fun writer_step :: "writer_call \<Rightarrow> statusCapturingResponseWriter \<Rightarrow> statusCapturingResponseWriter" where
  "writer_step (WriteHeader c) w = capture_WriteHeader c w"
| "writer_step (WriteBody p) w = capture_Write p w"

definition writer_run :: "writer_call list \<Rightarrow> statusCapturingResponseWriter" where
  "writer_run calls = fold writer_step calls fresh_writer"

definition sent_status :: "statusCapturingResponseWriter \<Rightarrow> int" where
  "sent_status w = (case sw_sent w of None \<Rightarrow> 200 | Some c \<Rightarrow> c)"

definition header_call :: "writer_call \<Rightarrow> bool" where
  "header_call c = (case c of WriteHeader _ \<Rightarrow> True | WriteBody _ \<Rightarrow> False)"

lemma writes_keep_status:
  assumes "sw_sent w = Some c" and "sw_statusCode w = c" and "c \<noteq> 0" and "\<not> list_ex header_call calls"
  shows "captured_status (fold writer_step calls w) = c \<and> sent_status (fold writer_step calls w) = c"
  using assms
proof (induction calls arbitrary: w)
  case (Cons x xs)
  then obtain p where p: "x = WriteBody p" by (cases x) (auto simp: header_call_def)
  with Cons show ?case by (simp add: capture_Write_def send_status_def)
qed (simp add: captured_status_def sent_status_def)

text \<open>
  A handler that sets the status at most once, and before it writes, is logged with the status it sends; one
  that sets it after it has written is not.
\<close>

lemma status_logged:
  assumes "calls = [] \<or> (\<exists>c rest. calls = WriteHeader c # rest \<and> c \<noteq> 0 \<and> \<not> list_ex header_call rest) \<or> \<not> list_ex header_call calls"
  shows "captured_status (writer_run calls) = sent_status (writer_run calls)"
proof -
  consider "calls = []" | c rest where "calls = WriteHeader c # rest" "c \<noteq> 0" "\<not> list_ex header_call rest"
    | p rest where "calls = WriteBody p # rest" "\<not> list_ex header_call rest"
  proof (cases calls)
    case (Cons x xs)
    with assms that show ?thesis by (cases x) (auto simp: header_call_def)
  qed (use that in blast)
  then show ?thesis
  proof cases
    case 1
    then show ?thesis by (simp add: writer_run_def fresh_writer_def captured_status_def sent_status_def)
  next
    case (2 c rest)
    with writes_keep_status [of "capture_WriteHeader c fresh_writer" c rest] show ?thesis
      by (simp add: writer_run_def capture_WriteHeader_def fresh_writer_def send_status_def)
  next
    case (3 p rest)
    with writes_keep_status [of "capture_Write p fresh_writer" 200 rest] show ?thesis
      by (simp add: writer_run_def capture_Write_def fresh_writer_def send_status_def)
  qed
qed

lemma late_status_logged_wrong:
  "sent_status (writer_run [WriteBody ''ok'', WriteHeader 500]) = 200 \<and>
   captured_status (writer_run [WriteBody ''ok'', WriteHeader 500]) = 500"
  by code_simp

end
