(* ===== verification/Schema.thy ===== *)
theory Schema
  imports Bootstrap
begin

text \<open>
  The tables behind the models (\<open>TableName\<close> in \<open>internal/modules/articleinspect/domain\<close> and
  \<open>internal/modules/post/model.go\<close>): one table per model, none shared, which is what the fields of
  the database in \<open>Store\<close> rest on; and which of them the migration synchronises from the models.
\<close>

definition ChuangqiOrg_TableName :: string where
  "ChuangqiOrg_TableName = ''xt_chuangqi_org''"

definition Article_TableName :: string where
  "Article_TableName = ''xt_article''"

definition ArticleInfo_TableName :: string where
  "ArticleInfo_TableName = ''xt_article_info''"

definition InspectionCategory_TableName :: string where
  "InspectionCategory_TableName = ''xt_article_inspect_categories''"

definition InspectionKeyword_TableName :: string where
  "InspectionKeyword_TableName = ''xt_article_inspect_keywords''"

definition InspectionKeywordScope_TableName :: string where
  "InspectionKeywordScope_TableName = ''xt_article_inspect_keyword_scopes''"

definition InspectionTask_TableName :: string where
  "InspectionTask_TableName = ''xt_article_inspect_tasks''"

definition InspectionTaskKeyword_TableName :: string where
  "InspectionTaskKeyword_TableName = ''xt_article_inspect_task_keywords''"

definition InspectionTaskOutboxMessage_TableName :: string where
  "InspectionTaskOutboxMessage_TableName = ''xt_article_inspect_task_outbox''"

definition InspectionResult_TableName :: string where
  "InspectionResult_TableName = ''xt_article_inspect_results''"

definition InspectionResultHit_TableName :: string where
  "InspectionResultHit_TableName = ''xt_article_inspect_result_hits''"

definition InspectionAction_TableName :: string where
  "InspectionAction_TableName = ''xt_article_inspect_actions''"

definition InspectionOperationLog_TableName :: string where
  "InspectionOperationLog_TableName = ''xt_article_inspect_operation_logs''"

definition InspectionFieldChangeLog_TableName :: string where
  "InspectionFieldChangeLog_TableName = ''xt_article_inspect_field_change_logs''"

definition Post_TableName :: string where
  "Post_TableName = ''posts''"

text \<open>The model and the table behind each table of the database.\<close>

fun model_of :: "tbl \<Rightarrow> string \<times> string" where
  "model_of TOrgs = (''ChuangqiOrg'', ChuangqiOrg_TableName)"
| "model_of TArticles = (''Article'', Article_TableName)"
| "model_of TInfos = (''ArticleInfo'', ArticleInfo_TableName)"
| "model_of TCategories = (''InspectionCategory'', InspectionCategory_TableName)"
| "model_of TKeywords = (''InspectionKeyword'', InspectionKeyword_TableName)"
| "model_of TScopes = (''InspectionKeywordScope'', InspectionKeywordScope_TableName)"
| "model_of TTasks = (''InspectionTask'', InspectionTask_TableName)"
| "model_of TTaskKeywords = (''InspectionTaskKeyword'', InspectionTaskKeyword_TableName)"
| "model_of TOutbox = (''InspectionTaskOutboxMessage'', InspectionTaskOutboxMessage_TableName)"
| "model_of TResults = (''InspectionResult'', InspectionResult_TableName)"
| "model_of THits = (''InspectionResultHit'', InspectionResultHit_TableName)"
| "model_of TActions = (''InspectionAction'', InspectionAction_TableName)"
| "model_of TOpLogs = (''InspectionOperationLog'', InspectionOperationLog_TableName)"
| "model_of TFieldLogs = (''InspectionFieldChangeLog'', InspectionFieldChangeLog_TableName)"
| "model_of TPosts = (''Post'', Post_TableName)"

lemmas table_names =
  ChuangqiOrg_TableName_def Article_TableName_def ArticleInfo_TableName_def InspectionCategory_TableName_def
  InspectionKeyword_TableName_def InspectionKeywordScope_TableName_def InspectionTask_TableName_def
  InspectionTaskKeyword_TableName_def InspectionTaskOutboxMessage_TableName_def InspectionResult_TableName_def
  InspectionResultHit_TableName_def InspectionAction_TableName_def InspectionOperationLog_TableName_def
  InspectionFieldChangeLog_TableName_def Post_TableName_def

definition all_tables :: "tbl list" where
  "all_tables =
     [TOrgs, TArticles, TInfos, TCategories, TKeywords, TScopes, TTasks, TTaskKeywords, TOutbox, TResults, THits, TActions,
      TOpLogs, TFieldLogs, TPosts]"

lemma all_tables: "t \<in> set all_tables"
  by (cases t) (simp_all add: all_tables_def)

lemma tables_apart: "snd (model_of s) = snd (model_of t) \<Longrightarrow> s = t"
proof -
  have "distinct (map (snd \<circ> model_of) all_tables)" by (simp add: all_tables_def table_names)
  then have "inj_on (snd \<circ> model_of) (set all_tables)" by (simp add: distinct_map)
  then show "snd (model_of s) = snd (model_of t) \<Longrightarrow> s = t"
    using all_tables by (metis comp_apply inj_onD)
qed

text \<open>
  The migration synchronises every table the service writes, except the articles, which belong to another
  system, and the categories, whose model is not registered.
\<close>

lemma tables_not_synchronised:
  "fst (model_of t) \<notin> set businessModels \<longleftrightarrow> t \<in> {TOrgs, TArticles, TInfos, TCategories}"
  by (cases t) (simp_all add: businessModels_def RegisterBusinessModels_def)

end
