(* ===== verification/Passwords.thy ===== *)
theory Passwords
  imports Domain
begin

text \<open>
  Passwords (\<open>internal/identity/password.go\<close>). The functions of bcrypt are arguments; what is
  used of them is that a hash is accepted for the password it was made from.
\<close>

definition HashPassword :: "(string \<Rightarrow> goerr + string) \<Rightarrow> string \<Rightarrow> goerr + string" where
  "HashPassword generate password =
     (let password = TrimSpace password in
      case generate password of Inl err \<Rightarrow> Inl err | Inr hash \<Rightarrow> Inr hash)"

definition VerifyPassword :: "(string \<Rightarrow> string \<Rightarrow> goerr option) \<Rightarrow> string \<Rightarrow> string \<Rightarrow> goerr option" where
  "VerifyPassword compare hash password = compare hash password"

definition accepts_own :: "(string \<Rightarrow> goerr + string) \<Rightarrow> (string \<Rightarrow> string \<Rightarrow> goerr option) \<Rightarrow> bool" where
  "accepts_own generate compare = (\<forall>p h. generate p = Inr h \<longrightarrow> compare h p = None)"

text \<open>
  Only hashing trims the password. A password without blanks around it is verified by its hash; one
  with blanks is verified by its hash exactly if bcrypt accepts the blanks for the trimmed text.
\<close>

lemma hashed_password_verifies:
  assumes "accepts_own generate compare" and "HashPassword generate password = Inr hash"
  shows "VerifyPassword compare hash (TrimSpace password) = None"
    and "generate (TrimSpace password) = Inr hash"
  using assms by (auto simp: HashPassword_def VerifyPassword_def accepts_own_def Let_def split: sum.splits)

text \<open>With a library that tells texts apart, the user who chose the blanks is refused.\<close>

lemma padded_password_refused:
  "HashPassword Inr '' secret'' = Inr ''secret'' \<and>
   VerifyPassword (\<lambda>h p. if h = p then None else Some (Plain ''mismatch'')) ''secret'' '' secret'' = Some (Plain ''mismatch'')"
proof -
  have "TrimSpace '' secret'' = ''secret''" by code_simp
  then show ?thesis by (simp add: HashPassword_def VerifyPassword_def)
qed

end
