(* ===== verification/Mains.thy ===== *)
theory Mains
  imports Wiring Logging Schema Passwords
begin

text \<open>
  The four programs (\<open>cmd/server\<close>, \<open>cmd/worker\<close>, \<open>cmd/scheduler\<close>, \<open>cmd/migrate\<close>): what \<open>main\<close>
  builds, runs and gives back. A program ends by returning from \<open>main\<close>, which runs the deferred calls,
  or by \<open>log.Fatalf\<close>, which does not. What the environment does while the program waits is an
  argument: the signal, and the end of the listener. The theory shows what is still open when a
  program has ended, and that the processes agree on the queue.
\<close>

section \<open>The programs\<close>

datatype process_end = Finished | Fatalf goerr

definition config_path :: "(string \<Rightarrow> string) \<Rightarrow> string option \<Rightarrow> string" where
  "config_path getenv flag =
     (case flag of Some path \<Rightarrow> path | None \<Rightarrow> envOrDefault getenv ''CONFIG_PATH'' ''configs/config.yaml'')"

definition fatal :: "string \<Rightarrow> goerr \<Rightarrow> process_end" where
  "fatal what err = Fatalf (Wrapf (what @ '': '') err '''')"

text \<open>The deferred \<open>rt.Shutdown\<close>; its error is logged only.\<close>

definition deferred_Shutdown :: "Started \<Rightarrow> machine \<Rightarrow> machine" where
  "deferred_Shutdown rt m = snd (Runtime_Shutdown (Some rt) m)"





text \<open>
  The worker: \<open>srv.Start\<close> may fail; after the signal the server of the queue is shut down first and the
  runtime after it.
\<close>

definition worker_main ::
    "unicode_tables \<Rightarrow> config_env \<Rightarrow> (string \<Rightarrow> string) \<Rightarrow> string option \<Rightarrow> machine \<Rightarrow> process_end \<times> machine" where
  "worker_main ut env getenv flag m =
     (case BuildWorkerRuntime ut env (config_path getenv flag) m of
        (Inl err, m) \<Rightarrow> (fatal ''build worker runtime'' err, m)
      | (Inr rt, m) \<Rightarrow>
          (case NewServer (Some (runtime_of rt)) of
             Inl err \<Rightarrow> (fatal ''build worker server'' err, m)
           | Inr srv \<Rightarrow>
               (case outside [Opened (QueueServer (qs_Queue srv))] m of
                  (Inl err, m) \<Rightarrow> (fatal ''worker server'' err, m)
                | (Inr _, m) \<Rightarrow>
                    (Finished, deferred_Shutdown rt (snd (closing (QueueServer (qs_Queue srv)) m))))))"

text \<open>The handlers the worker registers before it starts.\<close>

definition worker_handlers ::
    "unicode_tables \<Rightarrow> regexp_engine \<Rightarrow> (string \<Rightarrow> string) \<Rightarrow> Started \<Rightarrow> (string \<times> task_handler) list" where
  "worker_handlers ut engine jt rt = RegisterHandlers ut engine jt (Some (runtime_of rt))"

text \<open>The scheduler: its relay, its jobs, and its life until the signal.\<close>

definition scheduler_relay ::
    "enqueuer \<Rightarrow> string option \<Rightarrow> unicode_tables \<Rightarrow> (string \<Rightarrow> string) \<Rightarrow> Started \<Rightarrow> TaskOutboxRelay option" where
  "scheduler_relay client hostname ut jt rt =
     (let cfg = the (st_Config rt);
          dispatcher = NewArticleInspectTaskDispatcher (Some client) (yc_QueueName (qc_Asynq (cfg_Queue cfg)))
      in WithSettings (NewTaskOutboxRelay (runtime_db (Some (runtime_of rt))) dispatcher hostname ut jt)
           (NewTaskOutboxSettings (qc_Outbox (cfg_Queue cfg))))"



section \<open>How a program ends\<close>

text \<open>What may be left: nothing, or all that the runtime holds when a fatal error came after it was built.\<close>

definition left_open :: "process_end \<Rightarrow> Started io \<Rightarrow> handle list" where
  "left_open e built =
     (case (e, built) of (Fatalf _, (Inr rt, _)) \<Rightarrow> started_handles rt | _ \<Rightarrow> [])"

definition balanced_body :: "(machine \<Rightarrow> process_end \<times> machine) \<Rightarrow> bool" where
  "balanced_body p = (\<forall>m hs e m'. mc_handle m = None \<longrightarrow> holds m hs \<longrightarrow> p m = (e, m') \<longrightarrow> mc_handle m' = None \<and> holds m' hs)"

lemma balanced_bodyI:
  assumes "\<And>m hs. mc_handle m = None \<Longrightarrow> holds m hs \<Longrightarrow> mc_handle (snd (p m)) = None \<and> holds (snd (p m)) hs"
  shows "balanced_body p"
  unfolding balanced_body_def
proof (intro allI impI)
  fix m hs e m'
  assume "mc_handle m = None" "holds m hs" and p: "p m = (e, m')"
  from assms [OF this(1,2)] p show "mc_handle m' = None \<and> holds m' hs" by simp
qed

text \<open>Every program runs something between the start of the runtime and its shutdown.\<close>

definition around_runtime :: "Started io \<Rightarrow> (Started \<Rightarrow> machine \<Rightarrow> process_end \<times> machine) \<Rightarrow> string \<Rightarrow> process_end \<times> machine" where
  "around_runtime built body what =
     (case built of
        (Inl err, m) \<Rightarrow> (fatal what err, m)
      | (Inr rt, m) \<Rightarrow>
          (case body rt m of
             (Fatalf err, m) \<Rightarrow> (Fatalf err, m)
           | (Finished, m) \<Rightarrow> (Finished, deferred_Shutdown rt m)))"

lemma around_runtime_leaves:
  assumes m: "mc_handle m = None" "holds m hs" and body: "\<And>rt. balanced_body (body rt)"
    and p: "around_runtime (buildRuntime ut env path m) body what = (e, m')"
  shows "holds m' (left_open e (buildRuntime ut env path m) @ hs)"
proof -
  obtain r m1 where r: "buildRuntime ut env path m = (r, m1)" by fastforce
  note facts = buildRuntime_facts [OF m r]
  show ?thesis
  proof (cases r)
    case (Inl err)
    with facts p r show ?thesis by (auto simp: around_runtime_def left_open_def fatal_def)
  next
    case (Inr rt)
    obtain b m2 where b: "body rt m1 = (b, m2)" by fastforce
    have m1: "mc_handle m1 = None" "holds m1 (started_handles rt @ hs)" and rel: "releases (started_handles rt) (Runtime_Shutdown (Some rt))"
      using facts Inr by auto
    from body [of rt] m1 b have m2: "mc_handle m2 = None" "holds m2 (started_handles rt @ hs)" unfolding balanced_body_def by blast+
    obtain s m3 where s: "Runtime_Shutdown (Some rt) m2 = (s, m3)" by fastforce
    have "holds m3 hs" using releasesD [OF rel m2 s] by simp
    with m2 b s p r Inr show ?thesis
      by (cases b) (auto simp: around_runtime_def left_open_def deferred_Shutdown_def)
  qed
qed

definition worker_body :: "Started \<Rightarrow> machine \<Rightarrow> process_end \<times> machine" where
  "worker_body rt m =
     (case NewServer (Some (runtime_of rt)) of
        Inl err \<Rightarrow> (fatal ''build worker server'' err, m)
      | Inr srv \<Rightarrow>
          (case outside [Opened (QueueServer (qs_Queue srv))] m of
             (Inl err, m) \<Rightarrow> (fatal ''worker server'' err, m)
           | (Inr _, m) \<Rightarrow> (Finished, snd (closing (QueueServer (qs_Queue srv)) m))))"



lemma worker_main_around:
  "worker_main ut env getenv flag m =
     around_runtime (buildRuntime ut env (config_path getenv flag) m) worker_body ''build worker runtime''"
  by (auto simp: worker_main_def around_runtime_def BuildWorkerRuntime_def worker_body_def fatal_def
      split: prod.split sum.split)


lemma holds_open_close: "holds m hs \<Longrightarrow> holds (snd (closing h (noting [Opened h] m))) hs"
  by (rule holds_closing, rule holds_noting) simp_all


lemma worker_body_balanced: "balanced_body (worker_body rt)"
proof (rule balanced_bodyI)
  fix m hs
  assume that: "mc_handle m = None" "holds m hs"
  show "mc_handle (snd (worker_body rt m)) = None \<and> holds (snd (worker_body rt m)) hs"
  proof (cases "NewServer (Some (runtime_of rt))")
    case (Inl err)
    with that show ?thesis by (simp add: worker_body_def)
  next
    case (Inr srv)
    with that show ?thesis
      by (rule_tac outside_cases [of "[Opened (QueueServer (qs_Queue srv))]" m])
         (auto simp: worker_body_def holds_open_close)
  qed
qed


text \<open>
  A program that starts has all its parts: neither the server of the queue nor its client can be missing. So
  only what runs after the start can fail the worker, and then its connections stay open.
\<close>

lemma started_parts:
  assumes "mc_handle m = None" and "holds m hs" and "buildRuntime ut env path m = (Inr rt, m1)"
  shows "\<exists>srv. NewServer (Some (runtime_of rt)) = Inr srv" and "NewClient asynq (Some (runtime_of rt)) = Inr asynq"
    and "started_handles rt \<noteq> []"
  using buildRuntime_facts [OF assms]
  by (auto simp: NewServer_def NewClient_def runtimeRedis_def runtime_config_def runtime_of_def started_handles_def
      resource_handles_def Let_def)

lemma fatal_worker_leaves_connections:
  assumes "mc_handle m = None" and "holds m hs" and "buildRuntime ut env (config_path getenv flag) m = (Inr rt, m1)"
    and "worker_main ut env getenv flag m = (Fatalf e, m')"
  shows "holds m' (started_handles rt @ hs) \<and> started_handles rt \<noteq> []"
  using around_runtime_leaves [OF assms(1,2) worker_body_balanced assms(4) [unfolded worker_main_around]] assms(3)
    started_parts(3) [OF assms(1-3)]
  by (simp add: left_open_def)

text \<open>
  The server, the scheduler and the worker of one configuration use one queue; a task enqueued without the
  name of a queue goes to the queue \<open>default\<close>, as Asynq documents.
\<close>

lemma one_queue:
  assumes "NewServer rt = Inr srv" and "runtime_config rt = Some cfg"
  obtains q where "EnqueueArticleInspectTask (Some enqueue) (yc_QueueName (qc_Asynq (cfg_Queue cfg))) p w =
      enqueue (NewArticleInspectTask p) (articleInspectTaskID p) q w"
    and "(case q of None \<Rightarrow> ''default'' | Some name \<Rightarrow> name) = qs_Queue srv"
  using assms that
  by (auto simp: NewServer_def EnqueueArticleInspectTask_def Let_def split: option.splits if_splits)

section \<open>Properties\<close>




end
