(* ===== verification/Spec2Isabelle.thy ===== *)
theory Spec2Isabelle
  imports Outbox AuditTrail Scan Categories Keywords Tasks Articles Results Worker Lifecycle Actions SignIn ClientAddress Config Interleaving Posts Bootstrap Wiring Mains
begin

text \<open>
  Verification of the article inspection service (the Go program of this repository).

  \<^bold>\<open>The program.\<close> Editors of an organisation keep keywords with scopes and match types. A task
  inspects the articles an organisation published in some period: the API writes the task, the
  rules it had at that moment and an outbox message in one transaction
  (\<open>internal/modules/articleinspect/tasks\<close>); the outbox relay (\<open>outbox\<close>), called at once by the
  API and again by the scheduler (\<open>internal/scheduler\<close>), claims the message under a lease and puts
  a job into the Asynq queue (\<open>internal/queue\<close>); the worker (\<open>worker\<close>) takes the job, pages through
  the candidate articles (\<open>articles\<close>), scans them (\<open>scan\<close>) and stores one result per article with a
  hit. Users read the results (\<open>results\<close>), mark them or take articles offline in batches
  (\<open>actions\<close>), rectify or republish single articles (\<open>lifecycle\<close>), and every change is logged
  (\<open>audit\<close>). A session is a signed cookie made from a token of the old console
  (\<open>internal/identity\<close>, \<open>internal/api/handlers\<close>) and is put into the context of a request by the
  middleware (\<open>internal/middleware\<close>). Four programs (\<open>cmd\<close>) share the start and the shutdown of
  \<open>internal/app/bootstrap\<close>.

  \<^bold>\<open>How the program is modelled.\<close>

  \<^item> A Go string is its list of bytes, a struct a record, an enumeration of errors a datatype. An
    operation that may fail returns \<open>goerr + 'a\<close>; a panic is \<open>None\<close> or a constructor of its own
    (\<open>exec_end\<close> in \<open>Worker\<close>), so that every return and every panic of the source is a value.
    Identifiers of type \<open>uint64\<close> come from the database and are naturals; where the source computes
    with machine integers the wrap-around is written out (\<open>wrap64\<close> for durations, \<open>64 word\<close> for the
    counter of the request ids), and the decimal conversions keep their range checks.
  \<^item> The database, the queue and the clock form the record \<open>world\<close> of \<open>Store\<close>. Every call of gorm is one
    statement that reads the clock and the table of failures at its position: it may fail and then
    changes nothing; a transaction that returns an error restores the tables. The comparisons of the
    collation (\<open>sql_like\<close>, \<open>sql_eq\<close>) are fields of the world. A server process adds its exchange codes,
    its request counter and its random source (\<open>server\<close> in \<open>Http\<close>).
  \<^item> A starting or stopping process works on \<open>machine\<close> (\<open>Bootstrap\<close>): each call outside may fail, and the
    effects that took place form a list.
  \<^item> Definitions keep the names of the source, with the receiver in front where a name repeats
    (\<open>PostService_Create\<close>); fields have a short prefix for their struct.

  \<^bold>\<open>The theories.\<close>

  \<^item> \<open>Prelude\<close>: machine types, the collections \<open>frame\<close> and others, generic lemmas on lists and sorting.
  \<^item> \<open>GoStd\<close>, \<open>GoConv\<close>, \<open>GoFloat\<close>, \<open>GoJson\<close>, \<open>GoNet\<close>: what the sources use of the standard library:
    UTF-8 and \<open>strings\<close>, \<open>strconv\<close> and \<open>time\<close>, \<open>float64\<close>, \<open>encoding/json\<close>, \<open>net\<close>, with the round trips of
    printing and parsing.
  \<^item> \<open>Domain\<close>, \<open>Store\<close>, \<open>Schema\<close>: the rows (\<open>domain\<close>), the tables and statements, the names of the tables.
    The locale \<open>db_table\<close> of \<open>Store\<close> states what create, update and delete do to one table and to its keys;
    it is interpreted for all fifteen tables.
  \<^item> \<open>Shared\<close>: the context of a request, operators, organisation, parameters, envelopes
    (\<open>internal/identity\<close>, \<open>shared\<close>, \<open>internal/api/response\<close>); the locale \<open>paged_listing\<close> is the contract of
    every listing. \<open>Passwords\<close>: \<open>internal/identity/password.go\<close>.
  \<^item> \<open>QueueTasks\<close>, \<open>Outbox\<close>: payloads and the client of the queue; claiming, dispatching, retrying, dead
    letters, clean-up. The locale \<open>task_dispatcher\<close> is what the relay asks of a queue.
  \<^item> \<open>Categories\<close>, \<open>Keywords\<close> (\<open>rules\<close>), \<open>Tasks\<close>, \<open>Articles\<close>, \<open>Results\<close>, \<open>AuditTrail\<close>: repositories, services
    and routes of the packages. The locale \<open>immediate_relay_contract\<close> of \<open>Tasks\<close> is what the creation
    of a task asks of the relay.
  \<^item> \<open>Scan\<close>, \<open>Worker\<close>: the scanner and the execution of a task. The locale \<open>candidate_repository\<close> of \<open>Worker\<close> is
    what the loop over the batches asks of the articles; it is interpreted on \<open>ListCandidateArticles\<close>.
  \<^item> \<open>Lifecycle\<close>, \<open>Actions\<close>: the changes of articles and the batches. The locales \<open>audited_lifecycle\<close>,
    \<open>offline_provider\<close> and \<open>action_body\<close> are the contracts between them.
  \<^item> \<open>Sessions\<close>, \<open>SignIn\<close>, \<open>Http\<close>, \<open>ClientAddress\<close>: tokens, the four authentication routes, the middleware and
    the address of the client.
  \<^item> \<open>Config\<close>, \<open>Bootstrap\<close>, \<open>Logging\<close>, \<open>Processes\<close>, \<open>Wiring\<close>, \<open>Mains\<close>: \<open>pkg/config\<close>; connections, runtime,
    shutdown and migration (\<open>pkg/database\<close>, \<open>internal/app\<close>); log rotation and the status of the access
    log; worker handlers, jobs and the chain of the router; services and routes; the programs of \<open>cmd\<close>.
  \<^item> \<open>Posts\<close>: the post module with its invariant. \<open>Interleaving\<close>: all services, jobs and workers on one
    world, in any order. This theory: properties of several components together.

  \<^bold>\<open>What is proved.\<close> The properties are numbered C1 to C40, each at its theorem.

  \<^item> \<^emph>\<open>A task from end to end\<close>: C1 follows it from the create route to its results, C2 is the invariant
    of every interleaving of the processes with failures, C3 to C9 say what the parts contribute: the
    worker scans each candidate once, the relay refines an abstract settlement, retries end, creation is
    atomic, a rectification is all or nothing, an execution terminates, nothing is published without audit.
  \<^item> \<^emph>\<open>Access\<close>: C10 confines reading to the organisation of the session, C11 to C18 cover cookies, the
    router, routes, addresses, tokens and exchange codes.
  \<^item> \<^emph>\<open>Data\<close>: C19 to C25 state the exact writes of keywords, the round trip of rules, the differences of
    articles, the hits of the scanner against occurrences in the text, and the batches.
  \<^item> \<^emph>\<open>Processes and posts\<close>: C26 to C29 cover the configuration, what programs leave open when they end,
    the migration, and the invariant of the posts.
  \<^item> \<^emph>\<open>Exactness and exclusion\<close>: C30 to C35 cover deletion, enqueueing, that a task is started once in
    any run of the system, the lease, the bounds of hits and the clean-up.
  \<^item> \<^emph>\<open>Faults of the code\<close>: C36 to C40 prove behaviour the code does not mean to have: a late retry reopens a
    dispatched message, a panic strands its task for good, a failed batch stays running, the scanner panics when
    lower-casing changes the length of a text, and ids of old tokens are rounded to \<open>float64\<close>.

  \<^bold>\<open>Loops and bounds.\<close> Loops are recursive functions on their data or end by a measure, such as the bytes
  left (\<open>runes\<close>, \<open>contains_loop\<close>, \<open>split_lines\<close>). The loop over the batches, \<open>scan_batches\<close> in \<open>Worker\<close>, has
  no such bound in the source and is a partial function; C8 proves that it returns, because each batch
  moves the cursor past the articles it returned. The JSON parser has fuel: twice the length of the text
  plus one, enough because each level spends two units and at least one byte. Limits of the code are
  kept: pages of at most 100 rows, 100 articles in a batch and 100 messages in a relay run unless
  configured, 64 KiB for a line of a migration.

  \<^bold>\<open>Parameters.\<close> The Unicode case tables and rune classes, the formatting of floats, the \<open>regexp\<close> engine, the
  JWT library, bcrypt, Asynq, cron, the reading of YAML, environment and files, and the collation are arguments.
  What is assumed of them is named where it is used (\<open>jwt_sound\<close>, \<open>regexp_sound\<close>, \<open>case_stable\<close>,
  \<open>accepts_own\<close>, the locales above), is documented behaviour of these libraries and has an instance in a witness.

  \<^bold>\<open>Not modelled.\<close> The text of log lines; the OpenAPI document and the schemas huma derives
  from the request types, as well as its decoding of bodies; the nesting limit of the JSON decoder; the delivery of signals and
  the scheduling of goroutines, whose outcomes are arguments or event lists; the columns and indexes
  \<open>AutoMigrate\<close> derives from struct tags, of which an interrupted run counts as no change. The package
  \<open>testutil\<close> holds helpers of the tests and is no part of the programs.
\<close>

section \<open>Properties that span components\<close>

text \<open>
  C10. No route that reads inspection data crosses the border of an organisation: whatever its
  parameters say, a list or detail route of categories, keywords, tasks, articles, results or
  logs changes no table and answers only with rows of the organisation of the session; without
  a session it answers with no row at all.
\<close>

theorem reading_routes_confined:
  "confined cd_OrgID cl_Items (session_org cx) (category_list_handler cats cx q1) \<and>
   confined cd_OrgID (\<lambda>x. [x]) (session_org cx) (category_detail_handler cats cx rawID rawOrg) \<and>
   confined kd_OrgID kl_Items (session_org cx) (keyword_list_handler kws cx q2) \<and>
   confined kd_OrgID (\<lambda>x. [x]) (session_org cx) (keyword_detail_handler kws cx rawID rawOrg) \<and>
   confined task_OrgID tr_Items (session_org cx) (task_list_handler ts cx q3) \<and>
   confined task_OrgID (\<lambda>x. [x]) (session_org cx) (task_detail_handler ts cx rawID rawOrg) \<and>
   confined al_OrgID ar_Items (session_org cx) (article_list_handler arts cx q4) \<and>
   confined ad_OrgID (\<lambda>x. [x]) (session_org cx) (article_detail_handler arts cx rawID rawOrg) \<and>
   confined (\<lambda>x. res_OrgID (rl_Result x)) rs_Items (session_org cx) (result_list_handler rs cx q5) \<and>
   confined id detail_orgs (session_org cx) (result_detail_handler rs cx rawID rawOrg) \<and>
   confined log_OrgID olr_Items (session_org cx) (operation_log_list_handler logs cx q6) \<and>
   confined fcl_OrgID flr_Items (session_org cx) (field_change_log_list_handler logs cx q7) \<and>
   confined log_OrgID olr_Items (session_org cx) (article_operation_log_list_handler logs cx q8) \<and>
   confined fcl_OrgID flr_Items (session_org cx) (article_change_log_list_handler logs cx q8)"
  by (intro conjI category_routes_confined keyword_routes_confined task_list_confined task_detail_confined
      article_routes_confined result_list_confined result_detail_confined
      log_routes_confined [THEN conjunct1] log_routes_confined [THEN conjunct2, THEN conjunct1]
      log_routes_confined [THEN conjunct2, THEN conjunct2, THEN conjunct1]
      log_routes_confined [THEN conjunct2, THEN conjunct2, THEN conjunct2])

end
